theory Spec2Isabelle
  imports Main "HOL-Library.Word"
begin

section \<open>Solidity primitives shared by both contracts\<close>

text \<open>
  Both contracts are compiled with Solidity 0.8: \<open>uint256\<close> arithmetic is checked (an
  overflow or underflow is a Panic that reverts the transaction), an index outside a
  fixed-size array is a Panic, a failed \<open>require\<close> reverts with its message, and a
  function that is not \<open>payable\<close> reverts when it is sent value. A reverted call leaves
  the storage as it was, so every function returns either an error or the new storage
  together with what the call did to the outside world.
\<close>

type_synonym uint256 = "256 word"
type_synonym bytes32 = "256 word"
type_synonym address = "160 word"

datatype error = Revert string | Panic | NonPayable

text \<open>
  What a transaction brings with it: \<open>msg.sender\<close>, \<open>msg.value\<close>, \<open>block.timestamp\<close>, and
  the outcome of \<open>recipient.call{value: amount}("")\<close>, which the contract does not decide.
  The recipient's code is not modelled: a transfer succeeds or fails and does not call
  back into the contract, so \<open>nonReentrant\<close> has nothing to guard here.
\<close>

record ctx =
  msg_sender :: address
  msg_value :: uint256
  block_timestamp :: uint256
  call_succeeds :: "address \<Rightarrow> uint256 \<Rightarrow> bool"

definition checked_add :: "uint256 \<Rightarrow> uint256 \<Rightarrow> error + uint256" where
  "checked_add a b = (if unat a + unat b < 2 ^ 256 then Inr (a + b) else Inl Panic)"

definition checked_mul :: "uint256 \<Rightarrow> uint256 \<Rightarrow> error + uint256" where
  "checked_mul a b = (if unat a * unat b < 2 ^ 256 then Inr (a * b) else Inl Panic)"

definition checked_sub :: "uint256 \<Rightarrow> uint256 \<Rightarrow> error + uint256" where
  "checked_sub a b = (if unat b \<le> unat a then Inr (a - b) else Inl Panic)"

text \<open>A fixed-size array \<open>T[3]\<close>; \<open>elem0\<close> is the access \<open>a[0]\<close> with a constant index.\<close>

datatype 'a arr3 = Arr3 (elem0: 'a) (elem1: 'a) (elem2: 'a)

fun index3 :: "'a arr3 \<Rightarrow> nat \<Rightarrow> error + 'a" where
  "index3 (Arr3 a b c) i =
     (if i = 0 then Inr a else if i = 1 then Inr b else if i = 2 then Inr c else Inl Panic)"

fun store3 :: "'a arr3 \<Rightarrow> nat \<Rightarrow> 'a \<Rightarrow> error + 'a arr3" where
  "store3 (Arr3 a b c) i v =
     (if i = 0 then Inr (Arr3 v b c) else if i = 1 then Inr (Arr3 a v c)
      else if i = 2 then Inr (Arr3 a b v) else Inl Panic)"

section \<open>ElementalDuel (src/contracts/ElementalDuel.sol)\<close>

definition PLATFORM_FEE_PERCENTAGE :: uint256 where "PLATFORM_FEE_PERCENTAGE = 2"
definition ROUNDS_TO_WIN :: uint256 where "ROUNDS_TO_WIN = 2"
definition TOTAL_MOVES :: nat where "TOTAL_MOVES = 3"
definition REVEAL_TIMEOUT :: uint256 where "REVEAL_TIMEOUT = 86400"

datatype Element = Fire | Water | Earth | Air

datatype GameState = Created | MovesCommitted | MovesRevealed | Finished

record Move =
  element :: Element
  isRevealed :: bool

record Game =
  player1 :: address
  player2 :: address
  stake :: uint256
  totalPrize :: uint256
  state :: GameState
  player1Commitments :: "bytes32 arr3"
  player2Commitments :: "bytes32 arr3"
  player1Moves :: "Move arr3"
  player2Moves :: "Move arr3"
  lastActionTimestamp :: uint256
  player1Wins :: uint256
  player2Wins :: uint256
  isInitialized :: bool

text \<open>
  The contract's storage: the \<open>games\<close> mapping (every key holds the zero-initialised
  struct until written), \<open>nextGameId\<close>, and the flag and owner that the inherited
  Pausable and Ownable keep.
\<close>

record ElementalDuel =
  games :: "uint256 \<Rightarrow> Game"
  nextGameId :: uint256
  paused :: bool
  owner :: address

text \<open>
  What a call does besides changing storage, in the order the code does it: the events it
  emits and the value transfers \<open>recipient.call{value: amount}("")\<close> it makes.
\<close>

datatype effect =
    EmitGameCreated uint256 address uint256
  | EmitPlayerJoined uint256 address
  | EmitMovesCommitted uint256 address
  | EmitMovesRevealed uint256 address
  | EmitRoundResult uint256 uint256 address
  | EmitGameFinished uint256 address uint256
  | CallValue address uint256

definition zeroMove :: Move where
  "zeroMove = \<lparr>element = Fire, isRevealed = False\<rparr>"

definition zeroGame :: Game where
  "zeroGame = \<lparr>player1 = 0, player2 = 0, stake = 0, totalPrize = 0, state = Created,
     player1Commitments = Arr3 0 0 0, player2Commitments = Arr3 0 0 0,
     player1Moves = Arr3 zeroMove zeroMove zeroMove,
     player2Moves = Arr3 zeroMove zeroMove zeroMove,
     lastActionTimestamp = 0, player1Wins = 0, player2Wins = 0, isInitialized = False\<rparr>"

text \<open>The constructor: \<open>_transferOwnership(msg.sender)\<close> on empty storage.\<close>

definition deploy :: "address \<Rightarrow> ElementalDuel" where
  "deploy deployer = \<lparr>games = (\<lambda>_. zeroGame), nextGameId = 0, paused = False, owner = deployer\<rparr>"

definition createGame :: "ctx \<Rightarrow> ElementalDuel \<Rightarrow> error + (ElementalDuel \<times> effect list \<times> uint256)" where
  "createGame c s =
    (if paused s then Inl (Revert ''Pausable: paused'') else
     if \<not> (msg_value c > 0) then Inl (Revert ''Stake must be greater than 0'') else
     let gameId = nextGameId s in
     (case checked_add (nextGameId s) 1 of Inl e \<Rightarrow> Inl e
      | Inr n \<Rightarrow>
        let game = (games s gameId)\<lparr>player1 := msg_sender c, stake := msg_value c,
                      state := Created, isInitialized := True\<rparr>
        in Inr (s\<lparr>nextGameId := n, games := (games s)(gameId := game)\<rparr>,
                [EmitGameCreated gameId (msg_sender c) (msg_value c)], gameId)))"

definition joinGame :: "ctx \<Rightarrow> ElementalDuel \<Rightarrow> uint256 \<Rightarrow> error + (ElementalDuel \<times> effect list)" where
  "joinGame c s gameId =
    (if paused s then Inl (Revert ''Pausable: paused'') else
     let game = games s gameId in
     if \<not> isInitialized game then Inl (Revert ''Game does not exist'') else
     if state game \<noteq> Created then Inl (Revert ''Game already started'') else
     if msg_sender c = player1 game then Inl (Revert ''Cannot join your own game'') else
     if msg_value c \<noteq> stake game then Inl (Revert ''Must match the stake amount'') else
     (case checked_mul (stake game) 2 of Inl e \<Rightarrow> Inl e
      | Inr prize \<Rightarrow>
        let game = game\<lparr>player2 := msg_sender c, totalPrize := prize,
                      lastActionTimestamp := block_timestamp c\<rparr>
        in Inr (s\<lparr>games := (games s)(gameId := game)\<rparr>,
                [EmitPlayerJoined gameId (msg_sender c)])))"

definition commitMoves ::
  "ctx \<Rightarrow> ElementalDuel \<Rightarrow> uint256 \<Rightarrow> bytes32 arr3 \<Rightarrow> error + (ElementalDuel \<times> effect list)" where
  "commitMoves c s gameId moveHashes =
    (if msg_value c \<noteq> 0 then Inl NonPayable else
     if paused s then Inl (Revert ''Pausable: paused'') else
     let game = games s gameId in
     if state game \<noteq> Created then Inl (Revert ''Invalid game state'') else
     if \<not> (msg_sender c = player1 game \<or> msg_sender c = player2 game)
     then Inl (Revert ''Not a player'') else
     (case (if msg_sender c = player1 game
            then (if elem0 (player1Commitments game) \<noteq> 0
                  then Inl (Revert ''Moves already committed'')
                  else Inr (game\<lparr>player1Commitments := moveHashes\<rparr>))
            else (if elem0 (player2Commitments game) \<noteq> 0
                  then Inl (Revert ''Moves already committed'')
                  else Inr (game\<lparr>player2Commitments := moveHashes\<rparr>))) of
        Inl e \<Rightarrow> Inl e
      | Inr game \<Rightarrow>
        let game = (if elem0 (player1Commitments game) \<noteq> 0 \<and> elem0 (player2Commitments game) \<noteq> 0
                    then game\<lparr>state := MovesCommitted, lastActionTimestamp := block_timestamp c\<rparr>
                    else game)
        in Inr (s\<lparr>games := (games s)(gameId := game)\<rparr>,
                [EmitMovesCommitted gameId (msg_sender c)])))"

text \<open>
  The loop of \<open>revealMoves\<close> over \<open>i = 0, 1, 2\<close>. \<open>keccak e s\<close> stands for
  \<open>keccak256(abi.encodePacked(elements[i], salts[i]))\<close>: the hash is a parameter.
\<close>

function revealLoop ::
  "(Element \<Rightarrow> bytes32 \<Rightarrow> bytes32) \<Rightarrow> Element arr3 \<Rightarrow> bytes32 arr3 \<Rightarrow> bytes32 arr3 \<Rightarrow>
   nat \<Rightarrow> Move arr3 \<Rightarrow> error + Move arr3" where
  "revealLoop keccak elements salts commitments i moves =
    (if i < TOTAL_MOVES then
       (case index3 moves i of Inl e \<Rightarrow> Inl e
        | Inr m \<Rightarrow>
          if isRevealed m then Inl (Revert ''Moves already revealed'') else
          (case index3 elements i of Inl e \<Rightarrow> Inl e
           | Inr el \<Rightarrow>
             (case index3 salts i of Inl e \<Rightarrow> Inl e
              | Inr sl \<Rightarrow>
                (case index3 commitments i of Inl e \<Rightarrow> Inl e
                 | Inr cm \<Rightarrow>
                   if keccak el sl \<noteq> cm then Inl (Revert ''Invalid move revelation'') else
                   (case store3 moves i (m\<lparr>element := el, isRevealed := True\<rparr>) of
                      Inl e \<Rightarrow> Inl e
                    | Inr moves' \<Rightarrow>
                        revealLoop keccak elements salts commitments (Suc i) moves')))))
     else Inr moves)"
  by pat_completeness auto
termination
  by (relation "measure (\<lambda>(k, es, ss, cs, i, ms). TOTAL_MOVES - i)") (auto simp: TOTAL_MOVES_def)

declare revealLoop.simps [simp del]

function areAllMovesRevealedLoop :: "Game \<Rightarrow> nat \<Rightarrow> error + bool" where
  "areAllMovesRevealedLoop game i =
    (if i < TOTAL_MOVES then
       (case index3 (player1Moves game) i of Inl e \<Rightarrow> Inl e
        | Inr m1 \<Rightarrow>
          (case index3 (player2Moves game) i of Inl e \<Rightarrow> Inl e
           | Inr m2 \<Rightarrow>
             if \<not> isRevealed m1 \<or> \<not> isRevealed m2 then Inr False
             else areAllMovesRevealedLoop game (Suc i)))
     else Inr True)"
  by pat_completeness auto
termination
  by (relation "measure (\<lambda>(g, i). TOTAL_MOVES - i)") (auto simp: TOTAL_MOVES_def)

declare areAllMovesRevealedLoop.simps [simp del]

definition areAllMovesRevealed :: "Game \<Rightarrow> error + bool" where
  "areAllMovesRevealed game = areAllMovesRevealedLoop game 0"

definition determineRoundWinner :: "address \<Rightarrow> address \<Rightarrow> Element \<Rightarrow> Element \<Rightarrow> address" where
  "determineRoundWinner p1 p2 element1 element2 =
    (if element1 = element2 then 0
     else
       let player1Wins =
             ((element1 = Fire \<and> element2 = Air) \<or>
              (element1 = Water \<and> element2 = Fire) \<or>
              (element1 = Earth \<and> element2 = Water) \<or>
              (element1 = Air \<and> element2 = Earth))
       in if player1Wins then p1 else p2)"

text \<open>
  \<open>endGame\<close> and \<open>refundPlayers\<close> work on the game's storage; \<open>own\<close> is \<open>owner()\<close>.
\<close>

definition endGame ::
  "ctx \<Rightarrow> address \<Rightarrow> uint256 \<Rightarrow> Game \<Rightarrow> address \<Rightarrow> error + (Game \<times> effect list)" where
  "endGame c own gameId game0 winner =
    (let game = game0\<lparr>state := Finished\<rparr> in
     (case checked_mul (totalPrize game) PLATFORM_FEE_PERCENTAGE of Inl e \<Rightarrow> Inl e
      | Inr x \<Rightarrow>
        let fee = x div 100 in
        (case checked_sub (totalPrize game) fee of Inl e \<Rightarrow> Inl e
         | Inr winnerPrize \<Rightarrow>
           if \<not> call_succeeds c winner winnerPrize then Inl (Revert ''Prize transfer failed'') else
           if \<not> call_succeeds c own fee then Inl (Revert ''Fee transfer failed'') else
           Inr (game, [CallValue winner winnerPrize, CallValue own fee,
                       EmitGameFinished gameId winner winnerPrize]))))"

definition refundPlayers :: "ctx \<Rightarrow> uint256 \<Rightarrow> Game \<Rightarrow> error + (Game \<times> effect list)" where
  "refundPlayers c gameId game0 =
    (let game = game0\<lparr>state := Finished\<rparr> in
     if \<not> call_succeeds c (player1 game) (stake game) then Inl (Revert ''Player 1 refund failed'') else
     if \<not> call_succeeds c (player2 game) (stake game) then Inl (Revert ''Player 2 refund failed'') else
     Inr (game, [CallValue (player1 game) (stake game), CallValue (player2 game) (stake game),
                 EmitGameFinished gameId 0 0]))"

text \<open>One pass of the body of \<open>resolveGame\<close>'s loop up to the \<open>emit RoundResult\<close>.\<close>

definition scoreRound :: "Game \<Rightarrow> nat \<Rightarrow> error + (Game \<times> address)" where
  "scoreRound game i =
    (case index3 (player1Moves game) i of Inl e \<Rightarrow> Inl e
     | Inr m1 \<Rightarrow>
       (case index3 (player2Moves game) i of Inl e \<Rightarrow> Inl e
        | Inr m2 \<Rightarrow>
          let roundWinner = determineRoundWinner (player1 game) (player2 game) (element m1) (element m2) in
          if roundWinner = player1 game then
            (case checked_add (player1Wins game) 1 of Inl e \<Rightarrow> Inl e
             | Inr w \<Rightarrow> Inr (game\<lparr>player1Wins := w\<rparr>, roundWinner))
          else if roundWinner = player2 game then
            (case checked_add (player2Wins game) 1 of Inl e \<Rightarrow> Inl e
             | Inr w \<Rightarrow> Inr (game\<lparr>player2Wins := w\<rparr>, roundWinner))
          else Inr (game, roundWinner)))"

definition emitting :: "effect list \<Rightarrow> error + (Game \<times> effect list) \<Rightarrow> error + (Game \<times> effect list)" where
  "emitting es r = (case r of Inl e \<Rightarrow> Inl e | Inr (g, es') \<Rightarrow> Inr (g, es @ es'))"

function resolveLoop ::
  "ctx \<Rightarrow> address \<Rightarrow> uint256 \<Rightarrow> nat \<Rightarrow> Game \<Rightarrow> error + (Game \<times> effect list)" where
  "resolveLoop c own gameId i game =
    (if i < TOTAL_MOVES then
       (case scoreRound game i of Inl e \<Rightarrow> Inl e
        | Inr (game', roundWinner) \<Rightarrow>
          emitting [EmitRoundResult gameId (of_nat i) roundWinner]
            (if player1Wins game' = ROUNDS_TO_WIN then endGame c own gameId game' (player1 game')
             else if player2Wins game' = ROUNDS_TO_WIN then endGame c own gameId game' (player2 game')
             else resolveLoop c own gameId (Suc i) game'))
     else
       (if player1Wins game = player2Wins game then refundPlayers c gameId game
        else endGame c own gameId game
               (if player1Wins game > player2Wins game then player1 game else player2 game)))"
  by pat_completeness auto
termination
  by (relation "measure (\<lambda>(c, own, gid, i, g). TOTAL_MOVES - i)") (auto simp: TOTAL_MOVES_def)

declare resolveLoop.simps [simp del]

definition resolveGame ::
  "ctx \<Rightarrow> address \<Rightarrow> uint256 \<Rightarrow> Game \<Rightarrow> error + (Game \<times> effect list)" where
  "resolveGame c own gameId game = resolveLoop c own gameId 0 game"

definition revealMoves ::
  "(Element \<Rightarrow> bytes32 \<Rightarrow> bytes32) \<Rightarrow> ctx \<Rightarrow> ElementalDuel \<Rightarrow> uint256 \<Rightarrow> Element arr3 \<Rightarrow>
   bytes32 arr3 \<Rightarrow> error + (ElementalDuel \<times> effect list)" where
  "revealMoves keccak c s gameId elements salts =
    (if msg_value c \<noteq> 0 then Inl NonPayable else
     if paused s then Inl (Revert ''Pausable: paused'') else
     let game = games s gameId in
     if state game \<noteq> MovesCommitted then Inl (Revert ''Not in reveal phase'') else
     if \<not> (msg_sender c = player1 game \<or> msg_sender c = player2 game)
     then Inl (Revert ''Not a player'') else
     let commitments = (if msg_sender c = player1 game
                        then player1Commitments game else player2Commitments game);
         moves = (if msg_sender c = player1 game then player1Moves game else player2Moves game)
     in
     (case revealLoop keccak elements salts commitments 0 moves of Inl e \<Rightarrow> Inl e
      | Inr moves' \<Rightarrow>
        let game = (if msg_sender c = player1 game
                    then game\<lparr>player1Moves := moves'\<rparr> else game\<lparr>player2Moves := moves'\<rparr>)
        in
        (case areAllMovesRevealed game of Inl e \<Rightarrow> Inl e
         | Inr all_revealed \<Rightarrow>
           if all_revealed then
             (case resolveGame c (owner s) gameId game of Inl e \<Rightarrow> Inl e
              | Inr (game', effs) \<Rightarrow>
                Inr (s\<lparr>games := (games s)(gameId := game')\<rparr>,
                     EmitMovesRevealed gameId (msg_sender c) # effs))
           else Inr (s\<lparr>games := (games s)(gameId := game)\<rparr>,
                     [EmitMovesRevealed gameId (msg_sender c)]))))"

definition claimTimeout :: "ctx \<Rightarrow> ElementalDuel \<Rightarrow> uint256 \<Rightarrow> error + (ElementalDuel \<times> effect list)" where
  "claimTimeout c s gameId =
    (if msg_value c \<noteq> 0 then Inl NonPayable else
     if paused s then Inl (Revert ''Pausable: paused'') else
     let game = games s gameId in
     if state game \<noteq> MovesCommitted then Inl (Revert ''Not in reveal phase'') else
     (case checked_add (lastActionTimestamp game) REVEAL_TIMEOUT of Inl e \<Rightarrow> Inl e
      | Inr deadline \<Rightarrow>
        if \<not> (block_timestamp c > deadline) then Inl (Revert ''Timeout not reached'') else
        (case (if \<not> isRevealed (elem0 (player1Moves game)) \<and> \<not> isRevealed (elem0 (player2Moves game))
               then refundPlayers c gameId game
               else if \<not> isRevealed (elem0 (player1Moves game))
               then endGame c (owner s) gameId game (player2 game)
               else endGame c (owner s) gameId game (player1 game)) of
           Inl e \<Rightarrow> Inl e
         | Inr (game', effs) \<Rightarrow> Inr (s\<lparr>games := (games s)(gameId := game')\<rparr>, effs))))"

definition getGameState ::
  "ElementalDuel \<Rightarrow> uint256 \<Rightarrow> address \<times> address \<times> uint256 \<times> GameState \<times> uint256 \<times> uint256" where
  "getGameState s gameId =
    (let game = games s gameId in
     (player1 game, player2 game, stake game, state game, player1Wins game, player2Wins game))"


text \<open>
  The functions the contract inherits from OpenZeppelin's Pausable and Ownable (the
  library is imported, not part of the repository): \<open>pause\<close> and \<open>unpause\<close> as the
  contract declares them, \<open>transferOwnership\<close> and \<open>renounceOwnership\<close> as Ownable does.
\<close>

definition pause :: "ctx \<Rightarrow> ElementalDuel \<Rightarrow> error + (ElementalDuel \<times> effect list)" where
  "pause c s =
    (if msg_value c \<noteq> 0 then Inl NonPayable else
     if msg_sender c \<noteq> owner s then Inl (Revert ''Ownable: caller is not the owner'') else
     if paused s then Inl (Revert ''Pausable: paused'') else
     Inr (s\<lparr>paused := True\<rparr>, []))"

definition unpause :: "ctx \<Rightarrow> ElementalDuel \<Rightarrow> error + (ElementalDuel \<times> effect list)" where
  "unpause c s =
    (if msg_value c \<noteq> 0 then Inl NonPayable else
     if msg_sender c \<noteq> owner s then Inl (Revert ''Ownable: caller is not the owner'') else
     if \<not> paused s then Inl (Revert ''Pausable: not paused'') else
     Inr (s\<lparr>paused := False\<rparr>, []))"

definition transferOwnership ::
  "ctx \<Rightarrow> ElementalDuel \<Rightarrow> address \<Rightarrow> error + (ElementalDuel \<times> effect list)" where
  "transferOwnership c s newOwner =
    (if msg_value c \<noteq> 0 then Inl NonPayable else
     if msg_sender c \<noteq> owner s then Inl (Revert ''Ownable: caller is not the owner'') else
     if newOwner = 0 then Inl (Revert ''Ownable: new owner is the zero address'') else
     Inr (s\<lparr>owner := newOwner\<rparr>, []))"

definition renounceOwnership :: "ctx \<Rightarrow> ElementalDuel \<Rightarrow> error + (ElementalDuel \<times> effect list)" where
  "renounceOwnership c s =
    (if msg_value c \<noteq> 0 then Inl NonPayable else
     if msg_sender c \<noteq> owner s then Inl (Revert ''Ownable: caller is not the owner'') else
     Inr (s\<lparr>owner := 0\<rparr>, []))"

subsection \<open>The public interface as transactions\<close>

datatype call =
    CreateGame
  | JoinGame uint256
  | CommitMoves uint256 "bytes32 arr3"
  | RevealMoves uint256 "Element arr3" "bytes32 arr3"
  | ClaimTimeout uint256
  | Pause
  | Unpause
  | TransferOwnership address
  | RenounceOwnership

text \<open>
  One transaction: the storage after it and what it did. A reverted transaction leaves the
  storage untouched and does nothing outside.
\<close>

definition settle ::
  "ElementalDuel \<Rightarrow> error + (ElementalDuel \<times> effect list) \<Rightarrow> ElementalDuel \<times> (error + effect list)" where
  "settle s r = (case r of Inl e \<Rightarrow> (s, Inl e) | Inr (s', effs) \<Rightarrow> (s', Inr effs))"

fun exec ::
  "(Element \<Rightarrow> bytes32 \<Rightarrow> bytes32) \<Rightarrow> ctx \<Rightarrow> call \<Rightarrow> ElementalDuel \<Rightarrow>
   ElementalDuel \<times> (error + effect list)" where
  "exec keccak c CreateGame s =
     (case createGame c s of Inl e \<Rightarrow> (s, Inl e) | Inr (s', effs, gameId) \<Rightarrow> (s', Inr effs))"
| "exec keccak c (JoinGame gameId) s = settle s (joinGame c s gameId)"
| "exec keccak c (CommitMoves gameId moveHashes) s = settle s (commitMoves c s gameId moveHashes)"
| "exec keccak c (RevealMoves gameId elements salts) s =
     settle s (revealMoves keccak c s gameId elements salts)"
| "exec keccak c (ClaimTimeout gameId) s = settle s (claimTimeout c s gameId)"
| "exec keccak c Pause s = settle s (pause c s)"
| "exec keccak c Unpause s = settle s (unpause c s)"
| "exec keccak c (TransferOwnership newOwner) s = settle s (transferOwnership c s newOwner)"
| "exec keccak c RenounceOwnership s = settle s (renounceOwnership c s)"

fun run ::
  "(Element \<Rightarrow> bytes32 \<Rightarrow> bytes32) \<Rightarrow> (ctx \<times> call) list \<Rightarrow> ElementalDuel \<Rightarrow> ElementalDuel" where
  "run keccak [] s = s"
| "run keccak ((c, cl) # rest) s = run keccak rest (fst (exec keccak c cl s))"

text \<open>The effects of each transaction of a sequence, in order.\<close>

fun trace ::
  "(Element \<Rightarrow> bytes32 \<Rightarrow> bytes32) \<Rightarrow> (ctx \<times> call) list \<Rightarrow> ElementalDuel \<Rightarrow>
   (error + effect list) list" where
  "trace keccak [] s = []"
| "trace keccak ((c, cl) # rest) s =
     snd (exec keccak c cl s) # trace keccak rest (fst (exec keccak c cl s))"

section \<open>BlockDuel (the combat contract, src/unnamed/part_000)\<close>

text \<open>
  Names that the two contracts share carry the prefix \<open>BD_\<close> here; the internal functions
  \<open>_resolveRound\<close>, \<open>_processMoves\<close> and \<open>_processAttack\<close> lose their underscore.
\<close>

definition GAME_FEE_PERCENTAGE :: uint256 where "GAME_FEE_PERCENTAGE = 2"
definition UNITS_PER_PLAYER :: nat where "UNITS_PER_PLAYER = 3"
definition BD_REVEAL_TIMEOUT :: uint256 where "BD_REVEAL_TIMEOUT = 300"

record BattleUnit =
  health :: uint256
  attack :: uint256
  defense :: uint256
  energy :: uint256
  isAlive :: bool

datatype BD_GameState = BD_Created | Started | CommitPhase | RevealPhase | BD_Finished

datatype MoveType = Attack | Defend | Bluff

record BD_Move =
  moveType :: MoveType
  targetUnit :: uint256
  sourceUnit :: uint256
  energyCost :: uint256
  BD_isRevealed :: bool

record BD_Game =
  BD_player1 :: address
  BD_player2 :: address
  BD_stake :: uint256
  BD_totalPrize :: uint256
  BD_state :: BD_GameState
  currentRound :: uint256
  moveCommitments :: "uint256 \<Rightarrow> bytes32"
  revealedMoves :: "uint256 \<Rightarrow> BD_Move"
  BD_lastActionTimestamp :: uint256
  player1Units :: "BattleUnit arr3"
  player2Units :: "BattleUnit arr3"
  BD_isInitialized :: bool

record BlockDuel =
  BD_games :: "uint256 \<Rightarrow> BD_Game"
  BD_nextGameId :: uint256
  BD_paused :: bool
  BD_owner :: address

datatype BD_effect =
    BD_EmitGameCreated uint256 address uint256
  | BD_EmitPlayerJoined uint256 address
  | EmitMoveCommitted uint256 address
  | EmitMoveRevealed uint256 address MoveType
  | BD_EmitGameFinished uint256 address uint256
  | BD_CallValue address uint256

definition zeroUnit :: BattleUnit where
  "zeroUnit = \<lparr>health = 0, attack = 0, defense = 0, energy = 0, isAlive = False\<rparr>"

definition BD_zeroMove :: BD_Move where
  "BD_zeroMove = \<lparr>moveType = Attack, targetUnit = 0, sourceUnit = 0, energyCost = 0,
     BD_isRevealed = False\<rparr>"

definition BD_zeroGame :: BD_Game where
  "BD_zeroGame = \<lparr>BD_player1 = 0, BD_player2 = 0, BD_stake = 0, BD_totalPrize = 0,
     BD_state = BD_Created, currentRound = 0, moveCommitments = (\<lambda>_. 0),
     revealedMoves = (\<lambda>_. BD_zeroMove), BD_lastActionTimestamp = 0,
     player1Units = Arr3 zeroUnit zeroUnit zeroUnit,
     player2Units = Arr3 zeroUnit zeroUnit zeroUnit, BD_isInitialized = False\<rparr>"

definition BD_deploy :: "address \<Rightarrow> BlockDuel" where
  "BD_deploy deployer =
     \<lparr>BD_games = (\<lambda>_. BD_zeroGame), BD_nextGameId = 0, BD_paused = False, BD_owner = deployer\<rparr>"

definition baselineUnit :: BattleUnit where
  "baselineUnit = \<lparr>health = 100, attack = 20, defense = 10, energy = 100, isAlive = True\<rparr>"

text \<open>The loop that fills a roster, \<open>for (i = 0; i < UNITS_PER_PLAYER; i++)\<close>.\<close>

function initUnitsLoop :: "BattleUnit arr3 \<Rightarrow> nat \<Rightarrow> error + BattleUnit arr3" where
  "initUnitsLoop units i =
    (if i < UNITS_PER_PLAYER then
       (case store3 units i baselineUnit of Inl e \<Rightarrow> Inl e
        | Inr units' \<Rightarrow> initUnitsLoop units' (Suc i))
     else Inr units)"
  by pat_completeness auto
termination
  by (relation "measure (\<lambda>(u, i). UNITS_PER_PLAYER - i)") (auto simp: UNITS_PER_PLAYER_def)

declare initUnitsLoop.simps [simp del]

definition BD_createGame :: "ctx \<Rightarrow> BlockDuel \<Rightarrow> error + (BlockDuel \<times> BD_effect list \<times> uint256)" where
  "BD_createGame c s =
    (if BD_paused s then Inl (Revert ''Pausable: paused'') else
     if \<not> (msg_value c > 0) then Inl (Revert ''Stake must be greater than 0'') else
     let gameId = BD_nextGameId s in
     (case checked_add (BD_nextGameId s) 1 of Inl e \<Rightarrow> Inl e
      | Inr n \<Rightarrow>
        let game = (BD_games s gameId)\<lparr>BD_player1 := msg_sender c, BD_stake := msg_value c,
                      BD_state := BD_Created, BD_isInitialized := True\<rparr>
        in
        (case initUnitsLoop (player1Units game) 0 of Inl e \<Rightarrow> Inl e
         | Inr units \<Rightarrow>
           Inr (s\<lparr>BD_nextGameId := n,
                   BD_games := (BD_games s)(gameId := game\<lparr>player1Units := units\<rparr>)\<rparr>,
                [BD_EmitGameCreated gameId (msg_sender c) (msg_value c)], gameId))))"

definition BD_joinGame :: "ctx \<Rightarrow> BlockDuel \<Rightarrow> uint256 \<Rightarrow> error + (BlockDuel \<times> BD_effect list)" where
  "BD_joinGame c s gameId =
    (if BD_paused s then Inl (Revert ''Pausable: paused'') else
     let game = BD_games s gameId in
     if \<not> BD_isInitialized game then Inl (Revert ''Game does not exist'') else
     if BD_state game \<noteq> BD_Created then Inl (Revert ''Game already started'') else
     if msg_sender c = BD_player1 game then Inl (Revert ''Cannot join your own game'') else
     if msg_value c \<noteq> BD_stake game then Inl (Revert ''Must match the stake amount'') else
     (case checked_mul (BD_stake game) 2 of Inl e \<Rightarrow> Inl e
      | Inr prize \<Rightarrow>
        let game = game\<lparr>BD_player2 := msg_sender c, BD_totalPrize := prize,
                      BD_state := CommitPhase\<rparr>
        in
        (case initUnitsLoop (player2Units game) 0 of Inl e \<Rightarrow> Inl e
         | Inr units \<Rightarrow>
           Inr (s\<lparr>BD_games := (BD_games s)(gameId :=
                     game\<lparr>player2Units := units, BD_lastActionTimestamp := block_timestamp c\<rparr>)\<rparr>,
                [BD_EmitPlayerJoined gameId (msg_sender c)]))))"

definition commitMove ::
  "ctx \<Rightarrow> BlockDuel \<Rightarrow> uint256 \<Rightarrow> bytes32 \<Rightarrow> error + (BlockDuel \<times> BD_effect list)" where
  "commitMove c s gameId moveHash =
    (if msg_value c \<noteq> 0 then Inl NonPayable else
     if BD_paused s then Inl (Revert ''Pausable: paused'') else
     let game = BD_games s gameId in
     if BD_state game \<noteq> CommitPhase then Inl (Revert ''Not in commit phase'') else
     if \<not> (msg_sender c = BD_player1 game \<or> msg_sender c = BD_player2 game)
     then Inl (Revert ''Not a player'') else
     let playerIndex = (if msg_sender c = BD_player1 game then 0 else 1) in
     if moveCommitments game playerIndex \<noteq> 0 then Inl (Revert ''Move already committed'') else
     let game = game\<lparr>moveCommitments := (moveCommitments game)(playerIndex := moveHash)\<rparr>;
         game = (if moveCommitments game 0 \<noteq> 0 \<and> moveCommitments game 1 \<noteq> 0
                 then game\<lparr>BD_state := RevealPhase, BD_lastActionTimestamp := block_timestamp c\<rparr>
                 else game)
     in Inr (s\<lparr>BD_games := (BD_games s)(gameId := game)\<rparr>,
             [EmitMoveCommitted gameId (msg_sender c)]))"

definition processAttack :: "BattleUnit \<Rightarrow> BattleUnit \<Rightarrow> error + BattleUnit" where
  "processAttack attacker defender =
    (if \<not> isAlive attacker \<or> \<not> isAlive defender then Inr defender else
     let damage = attack attacker in
     if damage \<ge> health defender then Inr (defender\<lparr>health := 0, isAlive := False\<rparr>)
     else (case checked_sub (health defender) damage of Inl e \<Rightarrow> Inl e
           | Inr h \<Rightarrow> Inr (defender\<lparr>health := h\<rparr>)))"

text \<open>
  \<open>_processAttack\<close> takes two storage references and writes through the defender's only;
  here the defender's new value is stored back at the index it was read from. Both
  references are formed (and bounds-checked) before the call.
\<close>

definition processMoves :: "BD_Game \<Rightarrow> error + BD_Game" where
  "processMoves game =
    (let move1 = revealedMoves game 0; move2 = revealedMoves game 1 in
     (case (if moveType move1 = Attack then
              (case index3 (player1Units game) (unat (sourceUnit move1)) of Inl e \<Rightarrow> Inl e
               | Inr attacker \<Rightarrow>
                 (case index3 (player2Units game) (unat (targetUnit move1)) of Inl e \<Rightarrow> Inl e
                  | Inr defender \<Rightarrow>
                    (case processAttack attacker defender of Inl e \<Rightarrow> Inl e
                     | Inr defender' \<Rightarrow>
                       (case store3 (player2Units game) (unat (targetUnit move1)) defender' of
                          Inl e \<Rightarrow> Inl e
                        | Inr units \<Rightarrow> Inr (game\<lparr>player2Units := units\<rparr>)))))
            else Inr game) of
        Inl e \<Rightarrow> Inl e
      | Inr game \<Rightarrow>
          if moveType move2 = Attack then
            (case index3 (player2Units game) (unat (sourceUnit move2)) of Inl e \<Rightarrow> Inl e
             | Inr attacker \<Rightarrow>
               (case index3 (player1Units game) (unat (targetUnit move2)) of Inl e \<Rightarrow> Inl e
                | Inr defender \<Rightarrow>
                  (case processAttack attacker defender of Inl e \<Rightarrow> Inl e
                   | Inr defender' \<Rightarrow>
                     (case store3 (player1Units game) (unat (targetUnit move2)) defender' of
                        Inl e \<Rightarrow> Inl e
                      | Inr units \<Rightarrow> Inr (game\<lparr>player1Units := units\<rparr>)))))
          else Inr game))"

definition BD_endGame ::
  "ctx \<Rightarrow> address \<Rightarrow> uint256 \<Rightarrow> BD_Game \<Rightarrow> address \<Rightarrow> error + (BD_Game \<times> BD_effect list)" where
  "BD_endGame c own gameId game0 winner =
    (let game = game0\<lparr>BD_state := BD_Finished\<rparr> in
     (case checked_mul (BD_totalPrize game) GAME_FEE_PERCENTAGE of Inl e \<Rightarrow> Inl e
      | Inr x \<Rightarrow>
        let fee = x div 100 in
        (case checked_sub (BD_totalPrize game) fee of Inl e \<Rightarrow> Inl e
         | Inr winnerPrize \<Rightarrow>
           if \<not> call_succeeds c winner winnerPrize then Inl (Revert ''Prize transfer failed'') else
           if \<not> call_succeeds c own fee then Inl (Revert ''Fee transfer failed'') else
           Inr (game, [BD_CallValue winner winnerPrize, BD_CallValue own fee,
                       BD_EmitGameFinished gameId winner winnerPrize]))))"

definition BD_refundPlayers :: "ctx \<Rightarrow> uint256 \<Rightarrow> BD_Game \<Rightarrow> error + (BD_Game \<times> BD_effect list)" where
  "BD_refundPlayers c gameId game0 =
    (let game = game0\<lparr>BD_state := BD_Finished\<rparr> in
     if \<not> call_succeeds c (BD_player1 game) (BD_stake game)
     then Inl (Revert ''Player 1 refund failed'') else
     if \<not> call_succeeds c (BD_player2 game) (BD_stake game)
     then Inl (Revert ''Player 2 refund failed'') else
     Inr (game, [BD_CallValue (BD_player1 game) (BD_stake game),
                 BD_CallValue (BD_player2 game) (BD_stake game)]))"

text \<open>The scan of both rosters in \<open>_resolveRound\<close>, returning (player1Lost, player2Lost).\<close>

function lostLoop :: "BD_Game \<Rightarrow> nat \<Rightarrow> bool \<times> bool \<Rightarrow> error + (bool \<times> bool)" where
  "lostLoop game i lost =
    (if i < UNITS_PER_PLAYER then
       (case index3 (player1Units game) i of Inl e \<Rightarrow> Inl e
        | Inr u1 \<Rightarrow>
          (case index3 (player2Units game) i of Inl e \<Rightarrow> Inl e
           | Inr u2 \<Rightarrow>
             lostLoop game (Suc i)
               (if isAlive u1 then False else fst lost, if isAlive u2 then False else snd lost)))
     else Inr lost)"
  by pat_completeness auto
termination
  by (relation "measure (\<lambda>(g, i, l). UNITS_PER_PLAYER - i)") (auto simp: UNITS_PER_PLAYER_def)

declare lostLoop.simps [simp del]

definition resolveRound ::
  "ctx \<Rightarrow> address \<Rightarrow> uint256 \<Rightarrow> BD_Game \<Rightarrow> error + (BD_Game \<times> BD_effect list)" where
  "resolveRound c own gameId game0 =
    (case processMoves game0 of Inl e \<Rightarrow> Inl e
     | Inr game \<Rightarrow>
       (case lostLoop game 0 (True, True) of Inl e \<Rightarrow> Inl e
        | Inr (player1Lost, player2Lost) \<Rightarrow>
          if player1Lost \<or> player2Lost then
            BD_endGame c own gameId game (if player1Lost then BD_player2 game else BD_player1 game)
          else
            (case checked_add (currentRound game) 1 of Inl e \<Rightarrow> Inl e
             | Inr r \<Rightarrow>
               Inr (game\<lparr>moveCommitments := (moveCommitments game)(0 := 0, 1 := 0),
                         revealedMoves := (revealedMoves game)(0 := BD_zeroMove, 1 := BD_zeroMove),
                         BD_state := CommitPhase, currentRound := r,
                         BD_lastActionTimestamp := block_timestamp c\<rparr>, []))))"

text \<open>
  \<open>keccak t tu su ec salt\<close> stands for
  \<open>keccak256(abi.encodePacked(moveType, targetUnit, sourceUnit, energyCost, salt))\<close>.
\<close>

definition revealMove ::
  "(MoveType \<Rightarrow> uint256 \<Rightarrow> uint256 \<Rightarrow> uint256 \<Rightarrow> bytes32 \<Rightarrow> bytes32) \<Rightarrow> ctx \<Rightarrow> BlockDuel \<Rightarrow>
   uint256 \<Rightarrow> MoveType \<Rightarrow> uint256 \<Rightarrow> uint256 \<Rightarrow> uint256 \<Rightarrow> bytes32 \<Rightarrow>
   error + (BlockDuel \<times> BD_effect list)" where
  "revealMove keccak c s gameId mt tu su ec salt =
    (if msg_value c \<noteq> 0 then Inl NonPayable else
     if BD_paused s then Inl (Revert ''Pausable: paused'') else
     let game = BD_games s gameId in
     if BD_state game \<noteq> RevealPhase then Inl (Revert ''Not in reveal phase'') else
     if \<not> (msg_sender c = BD_player1 game \<or> msg_sender c = BD_player2 game)
     then Inl (Revert ''Not a player'') else
     let playerIndex = (if msg_sender c = BD_player1 game then 0 else 1) in
     if BD_isRevealed (revealedMoves game playerIndex) then Inl (Revert ''Move already revealed'') else
     let moveHash = keccak mt tu su ec salt in
     if moveHash \<noteq> moveCommitments game playerIndex then Inl (Revert ''Invalid move revelation'') else
     let game = game\<lparr>revealedMoves := (revealedMoves game)(playerIndex :=
                   \<lparr>moveType = mt, targetUnit = tu, sourceUnit = su, energyCost = ec,
                    BD_isRevealed = True\<rparr>)\<rparr>
     in
     if BD_isRevealed (revealedMoves game 0) \<and> BD_isRevealed (revealedMoves game 1) then
       (case resolveRound c (BD_owner s) gameId game of Inl e \<Rightarrow> Inl e
        | Inr (game', effs) \<Rightarrow>
          Inr (s\<lparr>BD_games := (BD_games s)(gameId := game')\<rparr>,
               EmitMoveRevealed gameId (msg_sender c) mt # effs))
     else Inr (s\<lparr>BD_games := (BD_games s)(gameId := game)\<rparr>,
               [EmitMoveRevealed gameId (msg_sender c) mt]))"

definition BD_claimTimeout :: "ctx \<Rightarrow> BlockDuel \<Rightarrow> uint256 \<Rightarrow> error + (BlockDuel \<times> BD_effect list)" where
  "BD_claimTimeout c s gameId =
    (if msg_value c \<noteq> 0 then Inl NonPayable else
     if BD_paused s then Inl (Revert ''Pausable: paused'') else
     let game = BD_games s gameId in
     if BD_state game \<noteq> RevealPhase then Inl (Revert ''Not in reveal phase'') else
     (case checked_add (BD_lastActionTimestamp game) BD_REVEAL_TIMEOUT of Inl e \<Rightarrow> Inl e
      | Inr deadline \<Rightarrow>
        if \<not> (block_timestamp c > deadline) then Inl (Revert ''Timeout not reached'') else
        (case (if \<not> BD_isRevealed (revealedMoves game 0) \<and> \<not> BD_isRevealed (revealedMoves game 1)
               then BD_refundPlayers c gameId game
               else if \<not> BD_isRevealed (revealedMoves game 0)
               then BD_endGame c (BD_owner s) gameId game (BD_player2 game)
               else BD_endGame c (BD_owner s) gameId game (BD_player1 game)) of
           Inl e \<Rightarrow> Inl e
         | Inr (game', effs) \<Rightarrow> Inr (s\<lparr>BD_games := (BD_games s)(gameId := game')\<rparr>, effs))))"

definition BD_getGameState ::
  "BlockDuel \<Rightarrow> uint256 \<Rightarrow> address \<times> address \<times> uint256 \<times> BD_GameState \<times> uint256" where
  "BD_getGameState s gameId =
    (let game = BD_games s gameId in
     (BD_player1 game, BD_player2 game, BD_stake game, BD_state game, currentRound game))"

definition getUnitStats ::
  "BlockDuel \<Rightarrow> uint256 \<Rightarrow> bool \<Rightarrow> uint256 \<Rightarrow> error + (uint256 \<times> uint256 \<times> uint256 \<times> uint256 \<times> bool)" where
  "getUnitStats s gameId isPlayer1 unitId =
    (let game = BD_games s gameId in
     (case (if isPlayer1 then index3 (player1Units game) (unat unitId)
            else index3 (player2Units game) (unat unitId)) of
        Inl e \<Rightarrow> Inl e
      | Inr unit \<Rightarrow> Inr (health unit, attack unit, defense unit, energy unit, isAlive unit)))"

definition BD_pause :: "ctx \<Rightarrow> BlockDuel \<Rightarrow> error + (BlockDuel \<times> BD_effect list)" where
  "BD_pause c s =
    (if msg_value c \<noteq> 0 then Inl NonPayable else
     if msg_sender c \<noteq> BD_owner s then Inl (Revert ''Ownable: caller is not the owner'') else
     if BD_paused s then Inl (Revert ''Pausable: paused'') else
     Inr (s\<lparr>BD_paused := True\<rparr>, []))"

definition BD_unpause :: "ctx \<Rightarrow> BlockDuel \<Rightarrow> error + (BlockDuel \<times> BD_effect list)" where
  "BD_unpause c s =
    (if msg_value c \<noteq> 0 then Inl NonPayable else
     if msg_sender c \<noteq> BD_owner s then Inl (Revert ''Ownable: caller is not the owner'') else
     if \<not> BD_paused s then Inl (Revert ''Pausable: not paused'') else
     Inr (s\<lparr>BD_paused := False\<rparr>, []))"

definition BD_transferOwnership ::
  "ctx \<Rightarrow> BlockDuel \<Rightarrow> address \<Rightarrow> error + (BlockDuel \<times> BD_effect list)" where
  "BD_transferOwnership c s newOwner =
    (if msg_value c \<noteq> 0 then Inl NonPayable else
     if msg_sender c \<noteq> BD_owner s then Inl (Revert ''Ownable: caller is not the owner'') else
     if newOwner = 0 then Inl (Revert ''Ownable: new owner is the zero address'') else
     Inr (s\<lparr>BD_owner := newOwner\<rparr>, []))"

definition BD_renounceOwnership :: "ctx \<Rightarrow> BlockDuel \<Rightarrow> error + (BlockDuel \<times> BD_effect list)" where
  "BD_renounceOwnership c s =
    (if msg_value c \<noteq> 0 then Inl NonPayable else
     if msg_sender c \<noteq> BD_owner s then Inl (Revert ''Ownable: caller is not the owner'') else
     Inr (s\<lparr>BD_owner := 0\<rparr>, []))"

datatype BD_call =
    BD_CreateGame
  | BD_JoinGame uint256
  | CommitMove uint256 bytes32
  | RevealMove uint256 MoveType uint256 uint256 uint256 bytes32
  | BD_ClaimTimeout uint256
  | BD_Pause
  | BD_Unpause
  | BD_TransferOwnership address
  | BD_RenounceOwnership

definition BD_settle ::
  "BlockDuel \<Rightarrow> error + (BlockDuel \<times> BD_effect list) \<Rightarrow> BlockDuel \<times> (error + BD_effect list)" where
  "BD_settle s r = (case r of Inl e \<Rightarrow> (s, Inl e) | Inr (s', effs) \<Rightarrow> (s', Inr effs))"

fun BD_exec ::
  "(MoveType \<Rightarrow> uint256 \<Rightarrow> uint256 \<Rightarrow> uint256 \<Rightarrow> bytes32 \<Rightarrow> bytes32) \<Rightarrow> ctx \<Rightarrow> BD_call \<Rightarrow>
   BlockDuel \<Rightarrow> BlockDuel \<times> (error + BD_effect list)" where
  "BD_exec keccak c BD_CreateGame s =
     (case BD_createGame c s of Inl e \<Rightarrow> (s, Inl e) | Inr (s', effs, gameId) \<Rightarrow> (s', Inr effs))"
| "BD_exec keccak c (BD_JoinGame gameId) s = BD_settle s (BD_joinGame c s gameId)"
| "BD_exec keccak c (CommitMove gameId moveHash) s = BD_settle s (commitMove c s gameId moveHash)"
| "BD_exec keccak c (RevealMove gameId mt tu su ec salt) s =
     BD_settle s (revealMove keccak c s gameId mt tu su ec salt)"
| "BD_exec keccak c (BD_ClaimTimeout gameId) s = BD_settle s (BD_claimTimeout c s gameId)"
| "BD_exec keccak c BD_Pause s = BD_settle s (BD_pause c s)"
| "BD_exec keccak c BD_Unpause s = BD_settle s (BD_unpause c s)"
| "BD_exec keccak c (BD_TransferOwnership newOwner) s = BD_settle s (BD_transferOwnership c s newOwner)"
| "BD_exec keccak c BD_RenounceOwnership s = BD_settle s (BD_renounceOwnership c s)"

fun BD_run ::
  "(MoveType \<Rightarrow> uint256 \<Rightarrow> uint256 \<Rightarrow> uint256 \<Rightarrow> bytes32 \<Rightarrow> bytes32) \<Rightarrow> (ctx \<times> BD_call) list \<Rightarrow>
   BlockDuel \<Rightarrow> BlockDuel" where
  "BD_run keccak [] s = s"
| "BD_run keccak ((c, cl) # rest) s = BD_run keccak rest (fst (BD_exec keccak c cl s))"

fun BD_trace ::
  "(MoveType \<Rightarrow> uint256 \<Rightarrow> uint256 \<Rightarrow> uint256 \<Rightarrow> bytes32 \<Rightarrow> bytes32) \<Rightarrow> (ctx \<times> BD_call) list \<Rightarrow>
   BlockDuel \<Rightarrow> (error + BD_effect list) list" where
  "BD_trace keccak [] s = []"
| "BD_trace keccak ((c, cl) # rest) s =
     snd (BD_exec keccak c cl s) # BD_trace keccak rest (fst (BD_exec keccak c cl s))"


section \<open>Notions used in the statements\<close>

text \<open>
  The dominance cycle in the specification's words (and the code's own comment): Fire
  beats Air, Water beats Fire, Earth beats Water, Air beats Earth.
\<close>

definition beats :: "Element \<Rightarrow> Element \<Rightarrow> bool" where
  "beats a b =
     ((a = Fire \<and> b = Air) \<or> (a = Water \<and> b = Fire) \<or>
      (a = Earth \<and> b = Water) \<or> (a = Air \<and> b = Earth))"

text \<open>A transaction context in which every value transfer goes through.\<close>

definition tx :: "address \<Rightarrow> uint256 \<Rightarrow> uint256 \<Rightarrow> ctx" where
  "tx sender val now =
     \<lparr>msg_sender = sender, msg_value = val, block_timestamp = now, call_succeeds = (\<lambda>_ _. True)\<rparr>"

text \<open>Whether a player's three move slots are all marked revealed, or none of them is.\<close>

definition allRevealed :: "Move arr3 \<Rightarrow> bool" where
  "allRevealed moves =
     (isRevealed (elem0 moves) \<and> isRevealed (elem1 moves) \<and> isRevealed (elem2 moves))"

definition noneRevealed :: "Move arr3 \<Rightarrow> bool" where
  "noneRevealed moves =
     (\<not> isRevealed (elem0 moves) \<and> \<not> isRevealed (elem1 moves) \<and> \<not> isRevealed (elem2 moves))"

text \<open>Whether every unit of a roster is not alive, and whether some unit is alive.\<close>

definition allDead :: "BattleUnit arr3 \<Rightarrow> bool" where
  "allDead units = (\<not> isAlive (elem0 units) \<and> \<not> isAlive (elem1 units) \<and> \<not> isAlive (elem2 units))"







text \<open>The elements a player's three slots hold, in order.\<close>

definition elementsOf :: "Move arr3 \<Rightarrow> Element list" where
  "elementsOf moves = [element (elem0 moves), element (elem1 moves), element (elem2 moves)]"

text \<open>
  \<open>untouched g g'\<close>: the two games agree on everything but the phase and the two round
  counters, which is all that resolution and settlement write.
\<close>

definition untouched :: "Game \<Rightarrow> Game \<Rightarrow> bool" where
  "untouched g g' =
     (player1 g' = player1 g \<and> player2 g' = player2 g \<and> stake g' = stake g \<and>
      totalPrize g' = totalPrize g \<and> player1Commitments g' = player1Commitments g \<and>
      player2Commitments g' = player2Commitments g \<and> player1Moves g' = player1Moves g \<and>
      player2Moves g' = player2Moves g \<and> lastActionTimestamp g' = lastActionTimestamp g \<and>
      isInitialized g' = isInitialized g)"

text \<open>
  Counting settlements: \<open>addresses cl gameId\<close> says that the call names the game,
  \<open>pays r\<close> that the transaction went through and transferred value, and \<open>settlements\<close>
  counts the transactions of a sequence that name the game and transfer value.
\<close>

fun addresses :: "call \<Rightarrow> uint256 \<Rightarrow> bool" where
  "addresses (JoinGame g) gameId = (g = gameId)"
| "addresses (CommitMoves g hs) gameId = (g = gameId)"
| "addresses (RevealMoves g es ss) gameId = (g = gameId)"
| "addresses (ClaimTimeout g) gameId = (g = gameId)"
| "addresses cl gameId = False"

fun isCallValue :: "effect \<Rightarrow> bool" where
  "isCallValue (CallValue a v) = True"
| "isCallValue e = False"

definition pays :: "error + effect list \<Rightarrow> bool" where
  "pays r = (case r of Inl e \<Rightarrow> False | Inr effs \<Rightarrow> list_ex isCallValue effs)"

fun settlements ::
  "(Element \<Rightarrow> bytes32 \<Rightarrow> bytes32) \<Rightarrow> uint256 \<Rightarrow> (ctx \<times> call) list \<Rightarrow> ElementalDuel \<Rightarrow> nat" where
  "settlements keccak gameId [] s = 0"
| "settlements keccak gameId ((c, cl) # rest) s =
     (if addresses cl gameId \<and> pays (snd (exec keccak c cl s)) then 1 else 0) +
     settlements keccak gameId rest (fst (exec keccak c cl s))"

definition allOrNone :: "Move arr3 \<Rightarrow> bool" where
  "allOrNone moves = (allRevealed moves \<or> noneRevealed moves)"

text \<open>
  What the storage holds under an identifier that \<open>createGame\<close> has not handed out yet,
  as far as the proofs below need it.
\<close>

definition unborn :: "Game \<Rightarrow> bool" where
  "unborn g =
     (player1 g = 0 \<and> player2 g = 0 \<and> elem0 (player2Commitments g) = 0 \<and>
      \<not> isInitialized g \<and> state g = Created)"

text \<open>
  A stand-in for keccak256 in the concrete examples: any function will do there, as long
  as the hashes that are committed are not zero.
\<close>

fun elementCode :: "Element \<Rightarrow> uint256" where
  "elementCode Fire = 0"
| "elementCode Water = 1"
| "elementCode Earth = 2"
| "elementCode Air = 3"

definition toyHash :: "Element \<Rightarrow> bytes32 \<Rightarrow> bytes32" where
  "toyHash e salt = 4 * salt + elementCode e + 1"

definition toyMoveHash :: "MoveType \<Rightarrow> uint256 \<Rightarrow> uint256 \<Rightarrow> uint256 \<Rightarrow> bytes32 \<Rightarrow> bytes32" where
  "toyMoveHash mt tu su ec salt =
     (case mt of Attack \<Rightarrow> 1 | Defend \<Rightarrow> 2 | Bluff \<Rightarrow> 3) + 4 * tu + 16 * su + 64 * ec + 256 * salt"

fun BD_addresses :: "BD_call \<Rightarrow> uint256 \<Rightarrow> bool" where
  "BD_addresses (BD_JoinGame g) gameId = (g = gameId)"
| "BD_addresses (CommitMove g h) gameId = (g = gameId)"
| "BD_addresses (RevealMove g mt tu su ec salt) gameId = (g = gameId)"
| "BD_addresses (BD_ClaimTimeout g) gameId = (g = gameId)"
| "BD_addresses cl gameId = False"

text \<open>
  The transactions of the examples: player 1 creates game 0 with stake 5, player 2 joins,
  both commit three moves.
\<close>

definition committedCalls :: "(ctx \<times> call) list" where
  "committedCalls =
     [(tx 1 5 10, CreateGame), (tx 2 5 20, JoinGame 0),
      (tx 1 0 30, CommitMoves 0 (Arr3 (toyHash Fire 11) (toyHash Water 12) (toyHash Earth 13))),
      (tx 2 0 40, CommitMoves 0 (Arr3 (toyHash Air 21) (toyHash Fire 22) (toyHash Water 23)))]"

text \<open>
  \<open>BD_untouched g g'\<close>: the two combat games agree on everything but the two rosters.
\<close>

definition BD_untouched :: "BD_Game \<Rightarrow> BD_Game \<Rightarrow> bool" where
  "BD_untouched g g' =
     (BD_player1 g' = BD_player1 g \<and> BD_player2 g' = BD_player2 g \<and> BD_stake g' = BD_stake g \<and>
      BD_totalPrize g' = BD_totalPrize g \<and> BD_state g' = BD_state g \<and>
      currentRound g' = currentRound g \<and> moveCommitments g' = moveCommitments g \<and>
      revealedMoves g' = revealedMoves g \<and> BD_lastActionTimestamp g' = BD_lastActionTimestamp g \<and>
      BD_isInitialized g' = BD_isInitialized g)"

text \<open>
  The combat game 0 after player 1 (address 1) created it with stake 5, player 2
  (address 2) joined and both committed the non-zero hashes \<open>h1\<close> and \<open>h2\<close>, and the
  storage that holds it.
\<close>

definition committedCombat :: "bytes32 \<Rightarrow> bytes32 \<Rightarrow> BD_Game" where
  "committedCombat h1 h2 =
     \<lparr>BD_player1 = 1, BD_player2 = 2, BD_stake = 5, BD_totalPrize = 10, BD_state = RevealPhase,
      currentRound = 0, moveCommitments = (\<lambda>_. 0)(0 := h1, 1 := h2),
      revealedMoves = (\<lambda>_. BD_zeroMove), BD_lastActionTimestamp = 40,
      player1Units = Arr3 baselineUnit baselineUnit baselineUnit,
      player2Units = Arr3 baselineUnit baselineUnit baselineUnit, BD_isInitialized = True\<rparr>"

definition combatStorage :: "BD_Game \<Rightarrow> BlockDuel" where
  "combatStorage g =
     \<lparr>BD_games = (\<lambda>_. BD_zeroGame)(0 := g), BD_nextGameId = 1, BD_paused = False, BD_owner = 9\<rparr>"

definition combatCalls :: "bytes32 \<Rightarrow> bytes32 \<Rightarrow> (ctx \<times> BD_call) list" where
  "combatCalls h1 h2 =
     [(tx 1 5 10, BD_CreateGame), (tx 2 5 20, BD_JoinGame 0),
      (tx 1 0 30, CommitMove 0 h1), (tx 2 0 40, CommitMove 0 h2)]"

text \<open>
  The elemental game 0 after player 1 (address 1) created it with stake 5 and player 2
  (address 2) joined, the same game after both committed (\<open>committedCalls\<close>), and the
  storage that holds it.
\<close>

definition joinedDuel :: Game where
  "joinedDuel =
     zeroGame\<lparr>player1 := 1, player2 := 2, stake := 5, totalPrize := 10, state := Created,
       lastActionTimestamp := 20, isInitialized := True\<rparr>"

definition committedDuel :: Game where
  "committedDuel =
     joinedDuel\<lparr>state := MovesCommitted,
       player1Commitments := Arr3 (toyHash Fire 11) (toyHash Water 12) (toyHash Earth 13),
       player2Commitments := Arr3 (toyHash Air 21) (toyHash Fire 22) (toyHash Water 23),
       lastActionTimestamp := 40\<rparr>"

definition duelStorage :: "Game \<Rightarrow> ElementalDuel" where
  "duelStorage g = \<lparr>games = (\<lambda>_. zeroGame)(0 := g), nextGameId = 1, paused = False, owner = 9\<rparr>"

definition revealedMoves3 :: "Element \<Rightarrow> Element \<Rightarrow> Element \<Rightarrow> Move arr3" where
  "revealedMoves3 a b c =
     Arr3 \<lparr>element = a, isRevealed = True\<rparr> \<lparr>element = b, isRevealed = True\<rparr>
          \<lparr>element = c, isRevealed = True\<rparr>"

text \<open>The combat game 0 after creation and join, before any commitment.\<close>

definition joinedCombat :: BD_Game where
  "joinedCombat =
     \<lparr>BD_player1 = 1, BD_player2 = 2, BD_stake = 5, BD_totalPrize = 10, BD_state = CommitPhase,
      currentRound = 0, moveCommitments = (\<lambda>_. 0), revealedMoves = (\<lambda>_. BD_zeroMove),
      BD_lastActionTimestamp = 20,
      player1Units = Arr3 baselineUnit baselineUnit baselineUnit,
      player2Units = Arr3 baselineUnit baselineUnit baselineUnit, BD_isInitialized = True\<rparr>"



text \<open>The same count of settlements for the combat duel.\<close>

fun BD_isCallValue :: "BD_effect \<Rightarrow> bool" where
  "BD_isCallValue (BD_CallValue a v) = True"
| "BD_isCallValue e = False"

definition BD_pays :: "error + BD_effect list \<Rightarrow> bool" where
  "BD_pays r = (case r of Inl e \<Rightarrow> False | Inr effs \<Rightarrow> list_ex BD_isCallValue effs)"

fun BD_settlements ::
  "(MoveType \<Rightarrow> uint256 \<Rightarrow> uint256 \<Rightarrow> uint256 \<Rightarrow> bytes32 \<Rightarrow> bytes32) \<Rightarrow> uint256 \<Rightarrow>
   (ctx \<times> BD_call) list \<Rightarrow> BlockDuel \<Rightarrow> nat" where
  "BD_settlements keccak gameId [] s = 0"
| "BD_settlements keccak gameId ((c, cl) # rest) s =
     (if BD_addresses cl gameId \<and> BD_pays (snd (BD_exec keccak c cl s)) then 1 else 0) +
     BD_settlements keccak gameId rest (fst (BD_exec keccak c cl s))"

definition BD_unborn :: "BD_Game \<Rightarrow> bool" where
  "BD_unborn g = (\<not> BD_isInitialized g \<and> BD_state g = BD_Created)"

text \<open>
  The pairs of elements that the cycle decides: equal elements, and the pairs in which
  one element beats the other. The pairs it leaves open are Fire/Earth and Water/Air.
\<close>

definition decided :: "Element \<Rightarrow> Element \<Rightarrow> bool" where
  "decided a b = (a = b \<or> beats a b \<or> beats b a)"














section \<open>Fee arithmetic\<close>

lemma fee_arith:
  assumes "unat (t::uint256) * 2 < 2 ^ 256"
  shows "unat (t * 2 div 100) = unat t * 2 div 100"
    and "unat (t - t * 2 div 100) = unat t - unat t * 2 div 100"
    and "unat (t - t * 2 div 100) + unat (t * 2 div 100) = unat t"
proof -
  have m: "unat (t * 2) = unat t * 2"
    using assms by (simp add: unat_word_ariths)
  show f: "unat (t * 2 div 100) = unat t * 2 div 100"
    by (simp add: unat_div m)
  have "t * 2 div 100 \<le> t"
    by (simp add: word_le_nat_alt f)
  then show s: "unat (t - t * 2 div 100) = unat t - unat t * 2 div 100"
    using f by (simp add: unat_sub)
  show "unat (t - t * 2 div 100) + unat (t * 2 div 100) = unat t"
    using s f by simp
qed

lemma endGame_Inr:
  assumes "endGame c own gameId game winner = Inr (game', effs)"
  shows "unat (totalPrize game) * 2 < 2 ^ 256"
    and "game' = game\<lparr>state := Finished\<rparr>"
    and "effs = [CallValue winner (totalPrize game - totalPrize game * 2 div 100),
                 CallValue own (totalPrize game * 2 div 100),
                 EmitGameFinished gameId winner (totalPrize game - totalPrize game * 2 div 100)]"
  using assms
  by (auto simp: endGame_def checked_mul_def checked_sub_def PLATFORM_FEE_PERCENTAGE_def Let_def
      split: if_splits)

lemma BD_endGame_Inr:
  assumes "BD_endGame c own gameId game winner = Inr (game', effs)"
  shows "unat (BD_totalPrize game) * 2 < 2 ^ 256"
    and "game' = game\<lparr>BD_state := BD_Finished\<rparr>"
    and "effs = [BD_CallValue winner (BD_totalPrize game - BD_totalPrize game * 2 div 100),
                 BD_CallValue own (BD_totalPrize game * 2 div 100),
                 BD_EmitGameFinished gameId winner (BD_totalPrize game - BD_totalPrize game * 2 div 100)]"
  using assms
  by (auto simp: BD_endGame_def checked_mul_def checked_sub_def GAME_FEE_PERCENTAGE_def Let_def
      split: if_splits)

lemma endGame_succeeds:
  assumes "unat (totalPrize game) * 2 < 2 ^ 256"
    and "call_succeeds c winner (totalPrize game - totalPrize game * 2 div 100)"
    and "call_succeeds c own (totalPrize game * 2 div 100)"
  shows "endGame c own gameId game winner =
           Inr (game\<lparr>state := Finished\<rparr>,
                [CallValue winner (totalPrize game - totalPrize game * 2 div 100),
                 CallValue own (totalPrize game * 2 div 100),
                 EmitGameFinished gameId winner (totalPrize game - totalPrize game * 2 div 100)])"
proof -
  have "unat (totalPrize game * 2 div 100) \<le> unat (totalPrize game)"
    using fee_arith(1) [OF assms(1)] by simp
  then show ?thesis
    using assms
    by (simp add: endGame_def checked_mul_def checked_sub_def PLATFORM_FEE_PERCENTAGE_def Let_def)
qed

lemma BD_endGame_succeeds:
  assumes "unat (BD_totalPrize game) * 2 < 2 ^ 256"
    and "call_succeeds c winner (BD_totalPrize game - BD_totalPrize game * 2 div 100)"
    and "call_succeeds c own (BD_totalPrize game * 2 div 100)"
  shows "BD_endGame c own gameId game winner =
           Inr (game\<lparr>BD_state := BD_Finished\<rparr>,
                [BD_CallValue winner (BD_totalPrize game - BD_totalPrize game * 2 div 100),
                 BD_CallValue own (BD_totalPrize game * 2 div 100),
                 BD_EmitGameFinished gameId winner
                   (BD_totalPrize game - BD_totalPrize game * 2 div 100)])"
proof -
  have "unat (BD_totalPrize game * 2 div 100) \<le> unat (BD_totalPrize game)"
    using fee_arith(1) [OF assms(1)] by simp
  then show ?thesis
    using assms
    by (simp add: BD_endGame_def checked_mul_def checked_sub_def GAME_FEE_PERCENTAGE_def Let_def)
qed

text \<open>
  C6. Every winner settlement that goes through, in either contract, pays the winner
  \<open>totalPrize - fee\<close> and the owner \<open>fee\<close>, where \<open>fee\<close> is \<open>totalPrize * 2 / 100\<close> rounded
  down, and the two amounts add up to \<open>totalPrize\<close> exactly. With \<open>totalPrize = 100\<close> the
  amounts are 98 and 2, with \<open>totalPrize = 101\<close> they are 99 and 2.
\<close>

theorem settlement_fee_split:
  "(endGame c own gameId game winner = Inr (game', effs) \<longrightarrow>
      (\<exists>fee winnerPrize.
         effs = [CallValue winner winnerPrize, CallValue own fee,
                 EmitGameFinished gameId winner winnerPrize] \<and>
         unat fee = unat (totalPrize game) * 2 div 100 \<and>
         unat winnerPrize = unat (totalPrize game) - unat fee \<and>
         unat winnerPrize + unat fee = unat (totalPrize game))) \<and>
   (BD_endGame c own gameId bgame winner = Inr (bgame', beffs) \<longrightarrow>
      (\<exists>fee winnerPrize.
         beffs = [BD_CallValue winner winnerPrize, BD_CallValue own fee,
                  BD_EmitGameFinished gameId winner winnerPrize] \<and>
         unat fee = unat (BD_totalPrize bgame) * 2 div 100 \<and>
         unat winnerPrize = unat (BD_totalPrize bgame) - unat fee \<and>
         unat winnerPrize + unat fee = unat (BD_totalPrize bgame))) \<and>
   (call_succeeds c winner 98 \<and> call_succeeds c winner 99 \<and> call_succeeds c own 2 \<longrightarrow>
      endGame c own gameId (game\<lparr>totalPrize := 100\<rparr>) winner =
        Inr (game\<lparr>totalPrize := 100, state := Finished\<rparr>,
             [CallValue winner 98, CallValue own 2, EmitGameFinished gameId winner 98]) \<and>
      endGame c own gameId (game\<lparr>totalPrize := 101\<rparr>) winner =
        Inr (game\<lparr>totalPrize := 101, state := Finished\<rparr>,
             [CallValue winner 99, CallValue own 2, EmitGameFinished gameId winner 99]) \<and>
      BD_endGame c own gameId (bgame\<lparr>BD_totalPrize := 100\<rparr>) winner =
        Inr (bgame\<lparr>BD_totalPrize := 100, BD_state := BD_Finished\<rparr>,
             [BD_CallValue winner 98, BD_CallValue own 2, BD_EmitGameFinished gameId winner 98]) \<and>
      BD_endGame c own gameId (bgame\<lparr>BD_totalPrize := 101\<rparr>) winner =
        Inr (bgame\<lparr>BD_totalPrize := 101, BD_state := BD_Finished\<rparr>,
             [BD_CallValue winner 99, BD_CallValue own 2, BD_EmitGameFinished gameId winner 99]))"
proof (intro conjI impI)
  assume a: "endGame c own gameId game winner = Inr (game', effs)"
  show "\<exists>fee winnerPrize.
         effs = [CallValue winner winnerPrize, CallValue own fee,
                 EmitGameFinished gameId winner winnerPrize] \<and>
         unat fee = unat (totalPrize game) * 2 div 100 \<and>
         unat winnerPrize = unat (totalPrize game) - unat fee \<and>
         unat winnerPrize + unat fee = unat (totalPrize game)"
    using endGame_Inr(3) [OF a] fee_arith [OF endGame_Inr(1) [OF a]] by simp
next
  assume a: "BD_endGame c own gameId bgame winner = Inr (bgame', beffs)"
  show "\<exists>fee winnerPrize.
         beffs = [BD_CallValue winner winnerPrize, BD_CallValue own fee,
                  BD_EmitGameFinished gameId winner winnerPrize] \<and>
         unat fee = unat (BD_totalPrize bgame) * 2 div 100 \<and>
         unat winnerPrize = unat (BD_totalPrize bgame) - unat fee \<and>
         unat winnerPrize + unat fee = unat (BD_totalPrize bgame)"
    using BD_endGame_Inr(3) [OF a] fee_arith [OF BD_endGame_Inr(1) [OF a]] by simp
next
  assume "call_succeeds c winner 98 \<and> call_succeeds c winner 99 \<and> call_succeeds c own 2"
  then show "endGame c own gameId (game\<lparr>totalPrize := 100\<rparr>) winner =
        Inr (game\<lparr>totalPrize := 100, state := Finished\<rparr>,
             [CallValue winner 98, CallValue own 2, EmitGameFinished gameId winner 98])"
    by (simp add: endGame_succeeds)
next
  assume "call_succeeds c winner 98 \<and> call_succeeds c winner 99 \<and> call_succeeds c own 2"
  then show "endGame c own gameId (game\<lparr>totalPrize := 101\<rparr>) winner =
        Inr (game\<lparr>totalPrize := 101, state := Finished\<rparr>,
             [CallValue winner 99, CallValue own 2, EmitGameFinished gameId winner 99])"
    by (simp add: endGame_succeeds)
next
  assume "call_succeeds c winner 98 \<and> call_succeeds c winner 99 \<and> call_succeeds c own 2"
  then show "BD_endGame c own gameId (bgame\<lparr>BD_totalPrize := 100\<rparr>) winner =
        Inr (bgame\<lparr>BD_totalPrize := 100, BD_state := BD_Finished\<rparr>,
             [BD_CallValue winner 98, BD_CallValue own 2, BD_EmitGameFinished gameId winner 98])"
    by (simp add: BD_endGame_succeeds)
next
  assume "call_succeeds c winner 98 \<and> call_succeeds c winner 99 \<and> call_succeeds c own 2"
  then show "BD_endGame c own gameId (bgame\<lparr>BD_totalPrize := 101\<rparr>) winner =
        Inr (bgame\<lparr>BD_totalPrize := 101, BD_state := BD_Finished\<rparr>,
             [BD_CallValue winner 99, BD_CallValue own 2, BD_EmitGameFinished gameId winner 99])"
    by (simp add: BD_endGame_succeeds)
qed

theorem settlement_fee_split_witness:
  "endGame (tx 7 0 0) 9 0 (zeroGame\<lparr>totalPrize := 100\<rparr>) 1 =
     Inr (zeroGame\<lparr>totalPrize := 100, state := Finished\<rparr>,
          [CallValue 1 98, CallValue 9 2, EmitGameFinished 0 1 98]) \<and>
   endGame (tx 7 0 0) 9 0 (zeroGame\<lparr>totalPrize := 101\<rparr>) 1 =
     Inr (zeroGame\<lparr>totalPrize := 101, state := Finished\<rparr>,
          [CallValue 1 99, CallValue 9 2, EmitGameFinished 0 1 99]) \<and>
   BD_endGame (tx 7 0 0) 9 0 (BD_zeroGame\<lparr>BD_totalPrize := 100\<rparr>) 1 =
     Inr (BD_zeroGame\<lparr>BD_totalPrize := 100, BD_state := BD_Finished\<rparr>,
          [BD_CallValue 1 98, BD_CallValue 9 2, BD_EmitGameFinished 0 1 98]) \<and>
   (\<exists>fee winnerPrize.
      unat fee = unat (100 :: uint256) * 2 div 100 \<and> unat winnerPrize + unat fee = unat (100 :: uint256) \<and>
      snd (projr (endGame (tx 7 0 0) 9 0 (zeroGame\<lparr>totalPrize := 100\<rparr>) 1)) =
        [CallValue 1 winnerPrize, CallValue 9 fee, EmitGameFinished 0 1 winnerPrize])"
proof -
  have ok: "call_succeeds (tx 7 0 0) 1 98 \<and> call_succeeds (tx 7 0 0) 1 99 \<and> call_succeeds (tx 7 0 0) 9 2"
    by (simp add: tx_def)
  note th = settlement_fee_split [of "tx 7 0 0" 9 0 "zeroGame\<lparr>totalPrize := 100\<rparr>" 1
      "zeroGame\<lparr>totalPrize := 100, state := Finished\<rparr>"
      "[CallValue 1 98, CallValue 9 2, EmitGameFinished 0 1 98]" BD_zeroGame]
  have e: "endGame (tx 7 0 0) 9 0 (zeroGame\<lparr>totalPrize := 100\<rparr>) 1 =
      Inr (zeroGame\<lparr>totalPrize := 100, state := Finished\<rparr>,
           [CallValue 1 98, CallValue 9 2, EmitGameFinished 0 1 98])"
    using th ok by simp
  show ?thesis
    using th ok e by auto
qed

section \<open>The round winner of the elemental duel\<close>

text \<open>
  C10, as amended. \<open>determineRoundWinner\<close> is a total function, and between two distinct,
  non-zero players it answers every pair of elements in exactly one of three ways:
  player 1, player 2, or the zero address for a tie. Equal elements tie, an element that
  beats the other in the cycle wins the round for its player, and on the pairs the cycle
  decides these are equivalences: the result is a tie exactly when the elements are
  equal, player 1 wins exactly when \<open>e1\<close> beats \<open>e2\<close>, player 2 wins exactly when \<open>e2\<close> beats
  \<open>e1\<close>, and exchanging the two elements exchanges the winner. For the pairs the cycle
  leaves open, Fire/Earth and Water/Air, the statement says only that the answer is one
  of the three.
\<close>

theorem determineRoundWinner_decides:
  assumes "p1 \<noteq> p2" and "p1 \<noteq> 0" and "p2 \<noteq> 0"
  shows "(determineRoundWinner p1 p2 e1 e2 = 0 \<or> determineRoundWinner p1 p2 e1 e2 = p1 \<or>
          determineRoundWinner p1 p2 e1 e2 = p2) \<and>
         (e1 = e2 \<longrightarrow> determineRoundWinner p1 p2 e1 e2 = 0) \<and>
         (beats e1 e2 \<longrightarrow> determineRoundWinner p1 p2 e1 e2 = p1) \<and>
         (beats e2 e1 \<longrightarrow> determineRoundWinner p1 p2 e1 e2 = p2) \<and>
         (decided e1 e2 \<longrightarrow>
            (determineRoundWinner p1 p2 e1 e2 = 0) = (e1 = e2) \<and>
            (determineRoundWinner p1 p2 e1 e2 = p1) = beats e1 e2 \<and>
            (determineRoundWinner p1 p2 e1 e2 = p2) = beats e2 e1 \<and>
            (determineRoundWinner p1 p2 e1 e2 = p1) = (determineRoundWinner p1 p2 e2 e1 = p2) \<and>
            (determineRoundWinner p1 p2 e1 e2 = p2) = (determineRoundWinner p1 p2 e2 e1 = p1))"
  using assms by (cases e1; cases e2; simp add: determineRoundWinner_def beats_def decided_def)

theorem determineRoundWinner_decides_witness:
  "(1 :: address) \<noteq> 2 \<and> (1 :: address) \<noteq> 0 \<and> (2 :: address) \<noteq> 0 \<and>
   beats Water Fire \<and> decided Water Fire \<and> decided Fire Water \<and> decided Air Air \<and>
   determineRoundWinner 1 2 Water Fire = 1 \<and> determineRoundWinner 1 2 Fire Water = 2 \<and>
   determineRoundWinner 1 2 Air Air = 0"
  using determineRoundWinner_decides [of 1 2 Water Fire]
    determineRoundWinner_decides [of 1 2 Fire Water]
    determineRoundWinner_decides [of 1 2 Air Air]
  by (simp add: beats_def decided_def)

text \<open>
  The claim as stated fails on the pairs the cycle leaves open: with Fire against Earth
  player 2 wins, and with Earth against Fire player 2 wins again, although neither
  element beats the other in the cycle. So the wins are not exactly those of the cycle,
  and between Fire and Earth the win relation is not asymmetric: the answer follows the
  seat, not the element.
\<close>

theorem determineRoundWinner_cycle_counterexample:
  "determineRoundWinner 1 2 Fire Earth = 2 \<and> \<not> beats Earth Fire \<and>
   determineRoundWinner 1 2 Earth Fire = 2 \<and> \<not> beats Fire Earth"
  by (simp add: determineRoundWinner_def beats_def)


section \<open>The loops, unrolled\<close>

lemma revealLoop_0:
  "revealLoop k (Arr3 e0 e1 e2) (Arr3 s0 s1 s2) (Arr3 c0 c1 c2) 0 (Arr3 m0 m1 m2) =
    (if isRevealed m0 then Inl (Revert ''Moves already revealed'') else
     if k e0 s0 \<noteq> c0 then Inl (Revert ''Invalid move revelation'') else
     if isRevealed m1 then Inl (Revert ''Moves already revealed'') else
     if k e1 s1 \<noteq> c1 then Inl (Revert ''Invalid move revelation'') else
     if isRevealed m2 then Inl (Revert ''Moves already revealed'') else
     if k e2 s2 \<noteq> c2 then Inl (Revert ''Invalid move revelation'') else
     Inr (Arr3 (m0\<lparr>element := e0, isRevealed := True\<rparr>) (m1\<lparr>element := e1, isRevealed := True\<rparr>)
            (m2\<lparr>element := e2, isRevealed := True\<rparr>)))"
  by (simp add: revealLoop.simps [of _ _ _ _ 0] revealLoop.simps [of _ _ _ _ "Suc 0"]
      revealLoop.simps [of _ _ _ _ "Suc (Suc 0)"] revealLoop.simps [of _ _ _ _ "Suc (Suc (Suc 0))"]
      TOTAL_MOVES_def)

lemma revealLoop_Inr:
  assumes "revealLoop k es ss cs 0 ms = Inr ms'"
  shows "noneRevealed ms" and "allRevealed ms'"
    and "elementsOf ms' = [elem0 es, elem1 es, elem2 es]"
    and "k (elem0 es) (elem0 ss) = elem0 cs \<and> k (elem1 es) (elem1 ss) = elem1 cs \<and>
         k (elem2 es) (elem2 ss) = elem2 cs"
  using assms
  by (cases es; cases ss; cases cs; cases ms;
      simp add: revealLoop_0 noneRevealed_def allRevealed_def elementsOf_def split: if_splits; auto)+

lemma Move_written: "m\<lparr>element := e, isRevealed := True\<rparr> = \<lparr>element = e, isRevealed = True\<rparr>"
  by (cases m) simp


lemma revealLoop_stores:
  assumes "revealLoop k es ss cs 0 ms = Inr ms'"
  shows "ms' = revealedMoves3 (elem0 es) (elem1 es) (elem2 es)"
  using assms
  by (cases es; cases ss; cases cs; cases ms)
     (auto simp add: revealLoop_0 revealedMoves3_def Move_written split: if_splits)

lemma areAllMovesRevealed_eq:
  "areAllMovesRevealed game = Inr (allRevealed (player1Moves game) \<and> allRevealed (player2Moves game))"
  by (cases "player1Moves game"; cases "player2Moves game")
     (auto simp add: areAllMovesRevealed_def areAllMovesRevealedLoop.simps [of _ 0]
      areAllMovesRevealedLoop.simps [of _ "Suc 0"] areAllMovesRevealedLoop.simps [of _ "Suc (Suc 0)"]
      areAllMovesRevealedLoop.simps [of _ "Suc (Suc (Suc 0))"] TOTAL_MOVES_def allRevealed_def)







lemma emitting_Inr:
  "emitting es r = Inr (g', effs) \<Longrightarrow> \<exists>effs'. r = Inr (g', effs') \<and> effs = es @ effs'"
  by (auto simp: emitting_def split: sum.splits)


lemma initUnitsLoop_0:
  "initUnitsLoop units 0 = Inr (Arr3 baselineUnit baselineUnit baselineUnit)"
  by (cases units)
     (simp add: initUnitsLoop.simps [of _ 0] initUnitsLoop.simps [of _ "Suc 0"]
      initUnitsLoop.simps [of _ "Suc (Suc 0)"] initUnitsLoop.simps [of _ "Suc (Suc (Suc 0))"]
      UNITS_PER_PLAYER_def)

lemma lostLoop_0:
  "lostLoop game 0 (True, True) = Inr (allDead (player1Units game), allDead (player2Units game))"
  by (cases "player1Units game"; cases "player2Units game")
     (auto simp add: lostLoop.simps [of _ 0] lostLoop.simps [of _ "Suc 0"]
      lostLoop.simps [of _ "Suc (Suc 0)"] lostLoop.simps [of _ "Suc (Suc (Suc 0))"]
      UNITS_PER_PLAYER_def allDead_def)

section \<open>Scoring the three rounds\<close>




section \<open>What a successful call of the elemental duel does\<close>

lemma scoreRound_untouched: "scoreRound g i = Inr (g', w) \<Longrightarrow> untouched g g' \<and> state g' = state g"
  by (auto simp: scoreRound_def untouched_def Let_def split: sum.splits if_splits)

lemma endGame_untouched: "endGame c own gid g w = Inr (g', effs) \<Longrightarrow> untouched g g' \<and> state g' = Finished"
  by (auto simp: endGame_def untouched_def Let_def split: sum.splits if_splits)

lemma refundPlayers_untouched: "refundPlayers c gid g = Inr (g', effs) \<Longrightarrow> untouched g g' \<and> state g' = Finished"
  by (auto simp: refundPlayers_def untouched_def Let_def split: sum.splits if_splits)

lemma untouched_trans: "untouched a b \<Longrightarrow> untouched b c \<Longrightarrow> untouched a c"
  by (simp add: untouched_def)

lemma untouched_refl: "untouched g g"
  by (simp add: untouched_def)

lemma resolveLoop_untouched:
  "resolveLoop c own gid i g = Inr (g', effs) \<Longrightarrow> untouched g g' \<and> state g' = Finished"
proof (induction c own gid i g arbitrary: effs rule: resolveLoop.induct)
  case (1 c own gameId i game)
  show ?case
  proof (cases "i < TOTAL_MOVES")
    case False
    with "1.prems" show ?thesis
      by (subst (asm) resolveLoop.simps)
         (auto split: if_splits dest: endGame_untouched refundPlayers_untouched)
  next
    case True
    from "1.prems" True obtain game1 w where sr: "scoreRound game i = Inr (game1, w)"
      by (subst (asm) resolveLoop.simps) (auto split: sum.splits)
    from "1.prems" True sr obtain effs' where
      r: "(if player1Wins game1 = ROUNDS_TO_WIN then endGame c own gameId game1 (player1 game1)
             else if player2Wins game1 = ROUNDS_TO_WIN then endGame c own gameId game1 (player2 game1)
             else resolveLoop c own gameId (Suc i) game1) = Inr (g', effs')"
      by (subst (asm) resolveLoop.simps) (auto dest: emitting_Inr)
    have u1: "untouched game game1" using scoreRound_untouched [OF sr] by simp
    have "untouched game1 g' \<and> state g' = Finished"
    proof (cases "player1Wins game1 = ROUNDS_TO_WIN")
      case True
      with r show ?thesis by (auto dest: endGame_untouched)
    next
      case a: False
      show ?thesis
      proof (cases "player2Wins game1 = ROUNDS_TO_WIN")
        case True
        with r a show ?thesis by (auto dest: endGame_untouched)
      next
        case False
        with r a have "resolveLoop c own gameId (Suc i) game1 = Inr (g', effs')" by simp
        from "1.IH" [OF True sr refl a False this] show ?thesis .
      qed
    qed
    with u1 show ?thesis by (auto intro: untouched_trans)
  qed
qed

lemma resolveGame_untouched:
  "resolveGame c own gid g = Inr (g', effs) \<Longrightarrow> untouched g g' \<and> state g' = Finished"
  unfolding resolveGame_def by (rule resolveLoop_untouched)

lemma createGame_Inr:
  assumes "createGame c s = Inr (s', effs, gid)"
  shows "gid = nextGameId s" and "unat (nextGameId s') = unat (nextGameId s) + 1"
    and "games s' = (games s)(gid := (games s gid)\<lparr>player1 := msg_sender c, stake := msg_value c,
                      state := Created, isInitialized := True\<rparr>)"
    and "paused s' = paused s" and "owner s' = owner s"
  using assms
  by (auto simp: createGame_def checked_add_def Let_def unat_word_ariths split: if_splits)

lemma joinGame_Inr:
  assumes "joinGame c s gid = Inr (s', effs)"
  shows "state (games s gid) = Created" and "isInitialized (games s gid)"
    and "msg_sender c \<noteq> player1 (games s gid)" and "msg_value c = stake (games s gid)"
    and "unat (stake (games s gid)) * 2 < 2 ^ 256"
    and "s' = s\<lparr>games := (games s)(gid := (games s gid)\<lparr>player2 := msg_sender c,
                      totalPrize := stake (games s gid) * 2,
                      lastActionTimestamp := block_timestamp c\<rparr>)\<rparr>"
    and "effs = [EmitPlayerJoined gid (msg_sender c)]"
  using assms
  by (auto simp: joinGame_def checked_mul_def Let_def split: if_splits)

lemma commitMoves_Inr:
  assumes "commitMoves c s gid hs = Inr (s', effs)"
  shows "state (games s gid) = Created"
    and "msg_sender c = player1 (games s gid) \<or> msg_sender c = player2 (games s gid)"
    and "s' = s\<lparr>games := (games s)(gid := games s' gid)\<rparr>"
    and "untouched ((games s gid)\<lparr>player1Commitments := player1Commitments (games s' gid),
            player2Commitments := player2Commitments (games s' gid),
            lastActionTimestamp := lastActionTimestamp (games s' gid)\<rparr>) (games s' gid)"
    and "player1Wins (games s' gid) = player1Wins (games s gid)"
    and "player2Wins (games s' gid) = player2Wins (games s gid)"
    and "if msg_sender c = player1 (games s gid)
         then elem0 (player1Commitments (games s gid)) = 0 \<and> player1Commitments (games s' gid) = hs \<and>
              player2Commitments (games s' gid) = player2Commitments (games s gid)
         else elem0 (player2Commitments (games s gid)) = 0 \<and> player2Commitments (games s' gid) = hs \<and>
              player1Commitments (games s' gid) = player1Commitments (games s gid)"
    and "state (games s' gid) =
           (if elem0 (player1Commitments (games s' gid)) \<noteq> 0 \<and> elem0 (player2Commitments (games s' gid)) \<noteq> 0
            then MovesCommitted else Created)"
    and "effs = [EmitMovesCommitted gid (msg_sender c)]"
proof -
  have v: "msg_value c = 0" and p: "\<not> paused s"
    using assms by (simp_all add: commitMoves_def split: if_splits)
  show st: "state (games s gid) = Created"
    using assms v p by (simp add: commitMoves_def Let_def split: if_splits)
  show pl: "msg_sender c = player1 (games s gid) \<or> msg_sender c = player2 (games s gid)"
    using assms v p st by (simp add: commitMoves_def Let_def split: if_splits)
  show "s' = s\<lparr>games := (games s)(gid := games s' gid)\<rparr>"
    using assms v p st pl by (auto simp add: commitMoves_def Let_def split: if_splits)
  show "untouched ((games s gid)\<lparr>player1Commitments := player1Commitments (games s' gid),
            player2Commitments := player2Commitments (games s' gid),
            lastActionTimestamp := lastActionTimestamp (games s' gid)\<rparr>) (games s' gid)"
    using assms v p st pl by (auto simp add: commitMoves_def Let_def untouched_def split: if_splits)
  show "player1Wins (games s' gid) = player1Wins (games s gid)"
    using assms v p st pl by (auto simp add: commitMoves_def Let_def split: if_splits)
  show "player2Wins (games s' gid) = player2Wins (games s gid)"
    using assms v p st pl by (auto simp add: commitMoves_def Let_def split: if_splits)
  show "if msg_sender c = player1 (games s gid)
         then elem0 (player1Commitments (games s gid)) = 0 \<and> player1Commitments (games s' gid) = hs \<and>
              player2Commitments (games s' gid) = player2Commitments (games s gid)
         else elem0 (player2Commitments (games s gid)) = 0 \<and> player2Commitments (games s' gid) = hs \<and>
              player1Commitments (games s' gid) = player1Commitments (games s gid)"
    using assms v p st pl by (auto simp add: commitMoves_def Let_def split: if_splits)
  show "state (games s' gid) =
           (if elem0 (player1Commitments (games s' gid)) \<noteq> 0 \<and> elem0 (player2Commitments (games s' gid)) \<noteq> 0
            then MovesCommitted else Created)"
    using assms v p st pl by (auto simp add: commitMoves_def Let_def split: if_splits)
  show "effs = [EmitMovesCommitted gid (msg_sender c)]"
    using assms v p st pl by (auto simp add: commitMoves_def Let_def split: if_splits)
qed

lemma claimTimeout_Inr:
  assumes "claimTimeout c s gid = Inr (s', effs)"
  shows "state (games s gid) = MovesCommitted"
    and "s' = s\<lparr>games := (games s)(gid := (games s gid)\<lparr>state := Finished\<rparr>)\<rparr>"
    and "unat (block_timestamp c) > unat (lastActionTimestamp (games s gid)) + unat REVEAL_TIMEOUT"
  using assms
  by (auto simp: claimTimeout_def Let_def checked_add_def endGame_def refundPlayers_def word_less_nat_alt unat_word_ariths
       split: if_splits sum.splits)


lemma endGame_pays: "endGame c own gid g w = Inr (g', effs) \<Longrightarrow> list_ex isCallValue effs"
  by (auto simp: endGame_def Let_def split: sum.splits if_splits)

lemma refundPlayers_pays: "refundPlayers c gid g = Inr (g', effs) \<Longrightarrow> list_ex isCallValue effs"
  by (auto simp: refundPlayers_def Let_def split: sum.splits if_splits)

lemma resolveLoop_pays:
  "resolveLoop c own gid i g = Inr (g', effs) \<Longrightarrow> list_ex isCallValue effs"
proof (induction c own gid i g arbitrary: effs rule: resolveLoop.induct)
  case (1 c own gameId i game)
  show ?case
  proof (cases "i < TOTAL_MOVES")
    case False
    with "1.prems" show ?thesis
      by (subst (asm) resolveLoop.simps)
         (auto split: if_splits dest: endGame_pays refundPlayers_pays)
  next
    case True
    from "1.prems" True obtain game1 w where sr: "scoreRound game i = Inr (game1, w)"
      by (subst (asm) resolveLoop.simps) (auto split: sum.splits)
    from "1.prems" True sr obtain effs' where
      r: "(if player1Wins game1 = ROUNDS_TO_WIN then endGame c own gameId game1 (player1 game1)
             else if player2Wins game1 = ROUNDS_TO_WIN then endGame c own gameId game1 (player2 game1)
             else resolveLoop c own gameId (Suc i) game1) = Inr (g', effs')"
      and e: "effs = [EmitRoundResult gameId (of_nat i) w] @ effs'"
      by (subst (asm) resolveLoop.simps) (auto dest: emitting_Inr)
    have "list_ex isCallValue effs'"
    proof (cases "player1Wins game1 = ROUNDS_TO_WIN")
      case True
      with r show ?thesis by (auto dest: endGame_pays)
    next
      case a: False
      show ?thesis
      proof (cases "player2Wins game1 = ROUNDS_TO_WIN")
        case True
        with r a show ?thesis by (auto dest: endGame_pays)
      next
        case False
        with r a have "resolveLoop c own gameId (Suc i) game1 = Inr (g', effs')" by simp
        from "1.IH" [OF True sr refl a False this] show ?thesis .
      qed
    qed
    with e show ?thesis by simp
  qed
qed

lemma revealMoves_Inr:
  assumes "revealMoves k c s gid es ss = Inr (s', effs)"
  shows "state (games s gid) = MovesCommitted"
    and "msg_sender c = player1 (games s gid) \<or> msg_sender c = player2 (games s gid)"
    and "s' = s\<lparr>games := (games s)(gid := games s' gid)\<rparr>"
    and "if msg_sender c = player1 (games s gid)
         then revealLoop k es ss (player1Commitments (games s gid)) 0 (player1Moves (games s gid)) =
                Inr (player1Moves (games s' gid)) \<and>
              player2Moves (games s' gid) = player2Moves (games s gid)
         else revealLoop k es ss (player2Commitments (games s gid)) 0 (player2Moves (games s gid)) =
                Inr (player2Moves (games s' gid)) \<and>
              player1Moves (games s' gid) = player1Moves (games s gid)"
    and "untouched ((games s gid)\<lparr>player1Moves := player1Moves (games s' gid),
            player2Moves := player2Moves (games s' gid)\<rparr>) (games s' gid)"
    and "state (games s' gid) = (if pays (Inr effs) then Finished else MovesCommitted)"
    and "pays (Inr effs) \<or>
         (player1Wins (games s' gid) = player1Wins (games s gid) \<and>
          player2Wins (games s' gid) = player2Wins (games s gid))"
proof -
  let ?g = "games s gid"
  let ?p1 = "msg_sender c = player1 ?g"
  have v: "msg_value c = 0" and p: "\<not> paused s"
    using assms by (simp_all add: revealMoves_def split: if_splits)
  show st: "state ?g = MovesCommitted"
    using assms v p by (simp add: revealMoves_def Let_def split: if_splits)
  show pl: "msg_sender c = player1 ?g \<or> msg_sender c = player2 ?g"
    using assms v p st by (simp add: revealMoves_def Let_def split: if_splits)
  obtain ms' where rl: "revealLoop k es ss (if ?p1 then player1Commitments ?g else player2Commitments ?g) 0
      (if ?p1 then player1Moves ?g else player2Moves ?g) = Inr ms'"
    using assms v p st pl by (auto simp add: revealMoves_def Let_def split: if_splits sum.splits)
  define gm where "gm = (if ?p1 then ?g\<lparr>player1Moves := ms'\<rparr> else ?g\<lparr>player2Moves := ms'\<rparr>)"
  have rest: "(if allRevealed (player1Moves gm) \<and> allRevealed (player2Moves gm) then
             (case resolveGame c (owner s) gid gm of Inl e \<Rightarrow> Inl e
              | Inr (game', effs) \<Rightarrow>
                Inr (s\<lparr>games := (games s)(gid := game')\<rparr>,
                     EmitMovesRevealed gid (msg_sender c) # effs))
           else Inr (s\<lparr>games := (games s)(gid := gm)\<rparr>,
                     [EmitMovesRevealed gid (msg_sender c)])) = Inr (s', effs)"
    using assms v p st pl rl unfolding gm_def
    by (auto simp add: revealMoves_def Let_def areAllMovesRevealed_eq split: if_splits)
  have fin: "s' = s\<lparr>games := (games s)(gid := games s' gid)\<rparr> \<and> untouched gm (games s' gid) \<and>
     state (games s' gid) = (if pays (Inr effs) then Finished else MovesCommitted) \<and>
     (pays (Inr effs) \<or>
      (player1Wins (games s' gid) = player1Wins gm \<and> player2Wins (games s' gid) = player2Wins gm))"
  proof (cases "allRevealed (player1Moves gm) \<and> allRevealed (player2Moves gm)")
    case True
    with rest obtain g' effs' where rg: "resolveGame c (owner s) gid gm = Inr (g', effs')"
      and s': "s' = s\<lparr>games := (games s)(gid := g')\<rparr>"
      and e: "effs = EmitMovesRevealed gid (msg_sender c) # effs'"
      by (auto split: sum.splits)
    from rg have "list_ex isCallValue effs'"
      unfolding resolveGame_def by (rule resolveLoop_pays)
    with resolveGame_untouched [OF rg] s' e show ?thesis
      by (simp add: pays_def)
  next
    case False
    with rest have "s' = s\<lparr>games := (games s)(gid := gm)\<rparr>" "effs = [EmitMovesRevealed gid (msg_sender c)]"
      by auto
    then show ?thesis
      using st by (simp add: pays_def untouched_def gm_def)
  qed
  then show "s' = s\<lparr>games := (games s)(gid := games s' gid)\<rparr>" by simp
  from fin have u: "untouched gm (games s' gid)" by simp
  from u rl show "if msg_sender c = player1 (games s gid)
         then revealLoop k es ss (player1Commitments (games s gid)) 0 (player1Moves (games s gid)) =
                Inr (player1Moves (games s' gid)) \<and>
              player2Moves (games s' gid) = player2Moves (games s gid)
         else revealLoop k es ss (player2Commitments (games s gid)) 0 (player2Moves (games s gid)) =
                Inr (player2Moves (games s' gid)) \<and>
              player1Moves (games s' gid) = player1Moves (games s gid)"
    by (auto simp: untouched_def gm_def split: if_splits)
  from u show "untouched ((games s gid)\<lparr>player1Moves := player1Moves (games s' gid),
            player2Moves := player2Moves (games s' gid)\<rparr>) (games s' gid)"
    by (auto simp: untouched_def gm_def split: if_splits)
  from fin show "state (games s' gid) = (if pays (Inr effs) then Finished else MovesCommitted)"
    by simp
  from fin show "pays (Inr effs) \<or>
         (player1Wins (games s' gid) = player1Wins (games s gid) \<and>
          player2Wins (games s' gid) = player2Wins (games s gid))"
    by (auto simp: gm_def split: if_splits)
qed



section \<open>One transaction of the elemental duel, seen from one game\<close>

lemma admin_games:
  "pause c s = Inr (s', effs) \<Longrightarrow> games s' = games s \<and> nextGameId s' = nextGameId s \<and> effs = []"
  "unpause c s = Inr (s', effs) \<Longrightarrow> games s' = games s \<and> nextGameId s' = nextGameId s \<and> effs = []"
  "transferOwnership c s a = Inr (s', effs) \<Longrightarrow> games s' = games s \<and> nextGameId s' = nextGameId s \<and> effs = []"
  "renounceOwnership c s = Inr (s', effs) \<Longrightarrow> games s' = games s \<and> nextGameId s' = nextGameId s \<and> effs = []"
  by (auto simp: pause_def unpause_def transferOwnership_def renounceOwnership_def split: if_splits)

text \<open>A step of the contract, seen from one game.\<close>

lemma exec_game_cases:
  fixes k c cl s gid
  defines "s' \<equiv> fst (exec k c cl s)" and "r \<equiv> snd (exec k c cl s)"
  shows "(s' = s \<and> isl r) \<or>
     (games s' gid = games s gid \<and> unat (nextGameId s) \<le> unat (nextGameId s') \<and> \<not> (addresses cl gid \<and> pays r) \<and> (cl = CreateGame \<longrightarrow> gid \<noteq> nextGameId s)) \<or>
     (cl = CreateGame \<and> gid = nextGameId s \<and> unat (nextGameId s') = unat (nextGameId s) + 1 \<and>
        games s' gid = (games s gid)\<lparr>player1 := msg_sender c, stake := msg_value c, state := Created, isInitialized := True\<rparr>) \<or>
     (cl = JoinGame gid \<and> joinGame c s gid = Inr (s', projr r)) \<or>
     (\<exists>hs. cl = CommitMoves gid hs \<and> commitMoves c s gid hs = Inr (s', projr r)) \<or>
     (\<exists>es ss. cl = RevealMoves gid es ss \<and> revealMoves k c s gid es ss = Inr (s', projr r)) \<or>
     (cl = ClaimTimeout gid \<and> claimTimeout c s gid = Inr (s', projr r))"
proof (cases cl)
  case CreateGame
  show ?thesis
  proof (cases "createGame c s")
    case (Inl e)
    then show ?thesis unfolding s'_def r_def CreateGame by simp
  next
    case (Inr x)
    then obtain s1 effs g0 where x: "createGame c s = Inr (s1, effs, g0)" by (cases x) auto
    note f = createGame_Inr [OF x]
    have "s' = s1" "r = Inr effs" unfolding s'_def r_def CreateGame using x by simp_all
    then show ?thesis using f CreateGame by (cases "gid = nextGameId s") (auto simp: pays_def)
  qed
next
  case (JoinGame g)
  show ?thesis
  proof (cases "joinGame c s g")
    case (Inl e)
    then show ?thesis unfolding s'_def r_def JoinGame by (simp add: settle_def)
  next
    case (Inr x)
    then obtain s1 effs where x: "joinGame c s g = Inr (s1, effs)" by (cases x) auto
    have e: "s' = s1" "r = Inr effs" unfolding s'_def r_def JoinGame using x by (simp_all add: settle_def)
    show ?thesis
    proof (cases "g = gid")
      case True
      then show ?thesis using x e JoinGame by simp
    next
      case False
      then show ?thesis using joinGame_Inr(6) [OF x] e JoinGame by simp
    qed
  qed
next
  case (CommitMoves g hs)
  show ?thesis
  proof (cases "commitMoves c s g hs")
    case (Inl e)
    then show ?thesis unfolding s'_def r_def CommitMoves by (simp add: settle_def)
  next
    case (Inr x)
    then obtain s1 effs where x: "commitMoves c s g hs = Inr (s1, effs)" by (cases x) auto
    have e: "s' = s1" "r = Inr effs" unfolding s'_def r_def CommitMoves using x by (simp_all add: settle_def)
    show ?thesis
    proof (cases "g = gid")
      case True
      then show ?thesis using x e CommitMoves by simp
    next
      case False
      have "games s1 gid = games s gid \<and> nextGameId s1 = nextGameId s"
        using False by (subst commitMoves_Inr(3) [OF x], simp, subst commitMoves_Inr(3) [OF x], simp)
      then show ?thesis using False e CommitMoves by simp
    qed
  qed
next
  case (RevealMoves g es ss)
  show ?thesis
  proof (cases "revealMoves k c s g es ss")
    case (Inl e)
    then show ?thesis unfolding s'_def r_def RevealMoves by (simp add: settle_def)
  next
    case (Inr x)
    then obtain s1 effs where x: "revealMoves k c s g es ss = Inr (s1, effs)" by (cases x) auto
    have e: "s' = s1" "r = Inr effs" unfolding s'_def r_def RevealMoves using x by (simp_all add: settle_def)
    show ?thesis
    proof (cases "g = gid")
      case True
      then show ?thesis using x e RevealMoves by simp
    next
      case False
      have "games s1 gid = games s gid \<and> nextGameId s1 = nextGameId s"
        using False by (subst revealMoves_Inr(3) [OF x], simp, subst revealMoves_Inr(3) [OF x], simp)
      then show ?thesis using False e RevealMoves by simp
    qed
  qed
next
  case (ClaimTimeout g)
  show ?thesis
  proof (cases "claimTimeout c s g")
    case (Inl e)
    then show ?thesis unfolding s'_def r_def ClaimTimeout by (simp add: settle_def)
  next
    case (Inr x)
    then obtain s1 effs where x: "claimTimeout c s g = Inr (s1, effs)" by (cases x) auto
    have e: "s' = s1" "r = Inr effs" unfolding s'_def r_def ClaimTimeout using x by (simp_all add: settle_def)
    show ?thesis
    proof (cases "g = gid")
      case True
      then show ?thesis using x e ClaimTimeout by simp
    next
      case False
      then show ?thesis using claimTimeout_Inr(2) [OF x] e ClaimTimeout by simp
    qed
  qed
next
  case Pause
  show ?thesis
    unfolding s'_def r_def Pause
    by (cases "pause c s") (auto simp: settle_def pays_def dest: admin_games)
next
  case Unpause
  show ?thesis
    unfolding s'_def r_def Unpause
    by (cases "unpause c s") (auto simp: settle_def pays_def dest: admin_games)
next
  case (TransferOwnership a)
  show ?thesis
    unfolding s'_def r_def TransferOwnership
    by (cases "transferOwnership c s a") (auto simp: settle_def pays_def dest: admin_games)
next
  case RenounceOwnership
  show ?thesis
    unfolding s'_def r_def RenounceOwnership
    by (cases "renounceOwnership c s") (auto simp: settle_def pays_def dest: admin_games)
qed


lemma exec_allOrNone:
  assumes "allOrNone (player1Moves (games s gid))" and "allOrNone (player2Moves (games s gid))"
  shows "allOrNone (player1Moves (games (fst (exec k c cl s)) gid)) \<and>
         allOrNone (player2Moves (games (fst (exec k c cl s)) gid))"
proof -
  let ?s' = "fst (exec k c cl s)" and ?r = "snd (exec k c cl s)"
  consider (same) "games ?s' gid = games s gid"
    | (create) "games ?s' gid = (games s gid)\<lparr>player1 := msg_sender c, stake := msg_value c,
         state := Created, isInitialized := True\<rparr>"
    | (join) "joinGame c s gid = Inr (?s', projr ?r)"
    | (commit) hs where "commitMoves c s gid hs = Inr (?s', projr ?r)"
    | (reveal) es ss where "revealMoves k c s gid es ss = Inr (?s', projr ?r)"
    | (timeout) "claimTimeout c s gid = Inr (?s', projr ?r)"
    using exec_game_cases [of k c cl s gid] by auto
  then show ?thesis
  proof cases
    case same
    then show ?thesis using assms by simp
  next
    case create
    then show ?thesis using assms by simp
  next
    case join
    show ?thesis using assms by (subst joinGame_Inr(6) [OF join], simp, subst joinGame_Inr(6) [OF join], simp)
  next
    case commit
    from commitMoves_Inr(4) [OF commit] show ?thesis using assms by (simp add: untouched_def)
  next
    case reveal
    from revealMoves_Inr(4) [OF reveal] show ?thesis
      using assms by (auto simp: allOrNone_def split: if_splits dest: revealLoop_Inr(2))
  next
    case timeout
    show ?thesis using assms by (subst claimTimeout_Inr(2) [OF timeout], simp, subst claimTimeout_Inr(2) [OF timeout], simp)
  qed
qed

lemma run_allOrNone:
  assumes "\<forall>gid. allOrNone (player1Moves (games s gid)) \<and> allOrNone (player2Moves (games s gid))"
  shows "allOrNone (player1Moves (games (run k calls s) gid)) \<and>
         allOrNone (player2Moves (games (run k calls s) gid))"
  using assms
proof (induction calls arbitrary: s)
  case Nil
  then show ?case by simp
next
  case (Cons a calls)
  obtain c cl where a: "a = (c, cl)" by (cases a)
  have "\<forall>gid. allOrNone (player1Moves (games (fst (exec k c cl s)) gid)) \<and>
      allOrNone (player2Moves (games (fst (exec k c cl s)) gid))"
    using Cons.prems exec_allOrNone by blast
  from Cons.IH [OF this] show ?case by (simp add: a)
qed

lemma exec_commitments_kept:
  "elem0 (player1Commitments (games s gid)) \<noteq> 0 \<Longrightarrow>
     player1Commitments (games (fst (exec k c cl s)) gid) = player1Commitments (games s gid)"
  "elem0 (player2Commitments (games s gid)) \<noteq> 0 \<Longrightarrow>
     player2Commitments (games (fst (exec k c cl s)) gid) = player2Commitments (games s gid)"
proof -
  let ?s' = "fst (exec k c cl s)" and ?r = "snd (exec k c cl s)"
  have cases: "games ?s' gid = games s gid \<or>
      games ?s' gid = (games s gid)\<lparr>player1 := msg_sender c, stake := msg_value c,
         state := Created, isInitialized := True\<rparr> \<or>
      joinGame c s gid = Inr (?s', projr ?r) \<or>
      (\<exists>hs. commitMoves c s gid hs = Inr (?s', projr ?r)) \<or>
      (\<exists>es ss. revealMoves k c s gid es ss = Inr (?s', projr ?r)) \<or>
      claimTimeout c s gid = Inr (?s', projr ?r)"
    using exec_game_cases [of k c cl s gid] by auto
  have j: "joinGame c s gid = Inr (?s', projr ?r) \<Longrightarrow>
     player1Commitments (games ?s' gid) = player1Commitments (games s gid) \<and>
     player2Commitments (games ?s' gid) = player2Commitments (games s gid)"
    by (drule joinGame_Inr(6), erule ssubst) simp
  have t: "claimTimeout c s gid = Inr (?s', projr ?r) \<Longrightarrow>
     player1Commitments (games ?s' gid) = player1Commitments (games s gid) \<and>
     player2Commitments (games ?s' gid) = player2Commitments (games s gid)"
    by (drule claimTimeout_Inr(2), erule ssubst) simp
  have rv: "\<And>es ss. revealMoves k c s gid es ss = Inr (?s', projr ?r) \<Longrightarrow>
     player1Commitments (games ?s' gid) = player1Commitments (games s gid) \<and>
     player2Commitments (games ?s' gid) = player2Commitments (games s gid)"
    by (drule revealMoves_Inr(5)) (simp add: untouched_def)
  have cm1: "\<And>hs. commitMoves c s gid hs = Inr (?s', projr ?r) \<Longrightarrow>
     elem0 (player1Commitments (games s gid)) \<noteq> 0 \<Longrightarrow>
     player1Commitments (games ?s' gid) = player1Commitments (games s gid)"
    by (drule commitMoves_Inr(7)) (auto split: if_splits)
  have cm2: "\<And>hs. commitMoves c s gid hs = Inr (?s', projr ?r) \<Longrightarrow>
     elem0 (player2Commitments (games s gid)) \<noteq> 0 \<Longrightarrow>
     player2Commitments (games ?s' gid) = player2Commitments (games s gid)"
    by (drule commitMoves_Inr(7)) (auto split: if_splits)
  show "elem0 (player1Commitments (games s gid)) \<noteq> 0 \<Longrightarrow>
     player1Commitments (games ?s' gid) = player1Commitments (games s gid)"
    using cases j t rv cm1 by auto
  show "elem0 (player2Commitments (games s gid)) \<noteq> 0 \<Longrightarrow>
     player2Commitments (games ?s' gid) = player2Commitments (games s gid)"
    using cases j t rv cm2 by auto
qed

lemma run_commitments_kept:
  "elem0 (player1Commitments (games s gid)) \<noteq> 0 \<Longrightarrow>
     player1Commitments (games (run k calls s) gid) = player1Commitments (games s gid)"
  "elem0 (player2Commitments (games s gid)) \<noteq> 0 \<Longrightarrow>
     player2Commitments (games (run k calls s) gid) = player2Commitments (games s gid)"
proof (induction calls arbitrary: s)
  case Nil
  { case 1 then show ?case by simp }
  { case 2 then show ?case by simp }
next
  case (Cons a calls)
  {
    case 1
    obtain c cl where a: "a = (c, cl)" by (cases a)
    have e: "player1Commitments (games (fst (exec k c cl s)) gid) = player1Commitments (games s gid)"
      using exec_commitments_kept(1) [OF 1] .
    then have "elem0 (player1Commitments (games (fst (exec k c cl s)) gid)) \<noteq> 0" using 1 by simp
    from Cons.IH(1) [OF this] e show ?case by (simp add: a)
  }
  {
    case 2
    obtain c cl where a: "a = (c, cl)" by (cases a)
    have e: "player2Commitments (games (fst (exec k c cl s)) gid) = player2Commitments (games s gid)"
      using exec_commitments_kept(2) [OF 2] .
    then have "elem0 (player2Commitments (games (fst (exec k c cl s)) gid)) \<noteq> 0" using 2 by simp
    from Cons.IH(2) [OF this] e show ?case by (simp add: a)
  }
qed


lemma exec_Finished:
  assumes "state (games s gid) = Finished" and "unat gid < unat (nextGameId s)"
  shows "games (fst (exec k c cl s)) gid = games s gid"
    and "unat gid < unat (nextGameId (fst (exec k c cl s)))"
    and "\<not> (addresses cl gid \<and> pays (snd (exec k c cl s)))"
proof -
  let ?s' = "fst (exec k c cl s)" and ?r = "snd (exec k c cl s)"
  have ne: "gid \<noteq> nextGameId s" using assms(2) by auto
  have "(?s' = s \<and> isl ?r) \<or>
     (games ?s' gid = games s gid \<and> unat (nextGameId s) \<le> unat (nextGameId ?s') \<and>
      \<not> (addresses cl gid \<and> pays ?r))"
    using exec_game_cases [of k c cl s gid] assms(1) ne
    by (auto dest: joinGame_Inr(1) commitMoves_Inr(1) revealMoves_Inr(1) claimTimeout_Inr(1))
  then have "games ?s' gid = games s gid \<and> unat gid < unat (nextGameId ?s') \<and>
      \<not> (addresses cl gid \<and> pays ?r)"
    using assms(2) by (cases ?r) (auto simp: pays_def)
  then show "games ?s' gid = games s gid" "unat gid < unat (nextGameId ?s')"
    "\<not> (addresses cl gid \<and> pays ?r)" by simp_all
qed

lemma run_Finished:
  assumes "state (games s gid) = Finished" and "unat gid < unat (nextGameId s)"
  shows "games (run k calls s) gid = games s gid \<and> settlements k gid calls s = 0"
  using assms
proof (induction calls arbitrary: s)
  case Nil
  then show ?case by simp
next
  case (Cons a calls)
  obtain c cl where a: "a = (c, cl)" by (cases a)
  note f = exec_Finished [OF Cons.prems, where k = k and c = c and cl = cl]
  have "state (games (fst (exec k c cl s)) gid) = Finished" using f(1) Cons.prems(1) by simp
  from Cons.IH [OF this f(2)] f(1) f(3) show ?case by (simp add: a)
qed

lemma exec_unborn:
  assumes "\<forall>g. unat (nextGameId s) \<le> unat g \<longrightarrow> unborn (games s g)"
    and "unat (nextGameId (fst (exec k c cl s))) \<le> unat gid"
  shows "unborn (games (fst (exec k c cl s)) gid)"
proof -
  let ?s' = "fst (exec k c cl s)" and ?r = "snd (exec k c cl s)"
  note cs = exec_game_cases [of k c cl s gid]
  have nj: "joinGame c s gid = Inr (?s', projr ?r) \<Longrightarrow> nextGameId ?s' = nextGameId s"
    by (drule joinGame_Inr(6), erule ssubst) simp
  have nc: "\<And>hs. commitMoves c s gid hs = Inr (?s', projr ?r) \<Longrightarrow> nextGameId ?s' = nextGameId s"
    by (drule commitMoves_Inr(3), erule ssubst) simp
  have nr: "\<And>es ss. revealMoves k c s gid es ss = Inr (?s', projr ?r) \<Longrightarrow> nextGameId ?s' = nextGameId s"
    by (drule revealMoves_Inr(3), erule ssubst) simp
  have nt: "claimTimeout c s gid = Inr (?s', projr ?r) \<Longrightarrow> nextGameId ?s' = nextGameId s"
    by (drule claimTimeout_Inr(2), erule ssubst) simp
  have cm: "\<And>hs. commitMoves c s gid hs = Inr (?s', projr ?r) \<Longrightarrow> unborn (games s gid) \<Longrightarrow>
      unborn (games ?s' gid)"
  proof -
    fix hs assume x: "commitMoves c s gid hs = Inr (?s', projr ?r)" and u: "unborn (games s gid)"
    from commitMoves_Inr(2) [OF x] u have p1: "msg_sender c = player1 (games s gid)"
      by (auto simp: unborn_def)
    from commitMoves_Inr(7) [OF x] p1 u have "elem0 (player2Commitments (games ?s' gid)) = 0"
      by (simp add: unborn_def)
    with commitMoves_Inr(4) [OF x] commitMoves_Inr(8) [OF x] u show "unborn (games ?s' gid)"
      by (simp add: unborn_def untouched_def)
  qed
  from cs show ?thesis
  proof (elim disjE conjE exE)
    assume "?s' = s"
    then show ?thesis using assms by simp
  next
    assume "games ?s' gid = games s gid" "unat (nextGameId s) \<le> unat (nextGameId ?s')"
    then show ?thesis using assms by simp
  next
    assume "gid = nextGameId s" "unat (nextGameId ?s') = unat (nextGameId s) + 1"
    then show ?thesis using assms(2) by simp
  next
    assume x: "joinGame c s gid = Inr (?s', projr ?r)"
    from joinGame_Inr(2) [OF x] nj [OF x] assms show ?thesis by (auto simp: unborn_def)
  next
    fix hs assume x: "commitMoves c s gid hs = Inr (?s', projr ?r)"
    from cm [OF x] nc [OF x] assms show ?thesis by auto
  next
    fix es ss assume x: "revealMoves k c s gid es ss = Inr (?s', projr ?r)"
    from revealMoves_Inr(1) [OF x] nr [OF x] assms show ?thesis by (auto simp: unborn_def)
  next
    assume x: "claimTimeout c s gid = Inr (?s', projr ?r)"
    from claimTimeout_Inr(1) [OF x] nt [OF x] assms show ?thesis by (auto simp: unborn_def)
  qed
qed

lemma exec_pays:
  assumes "addresses cl gid" and "pays (snd (exec k c cl s))"
  shows "state (games s gid) = MovesCommitted"
    and "state (games (fst (exec k c cl s)) gid) = Finished"
    and "nextGameId (fst (exec k c cl s)) = nextGameId s"
proof -
  let ?s' = "fst (exec k c cl s)" and ?r = "snd (exec k c cl s)"
  obtain effs where r: "?r = Inr effs" and cv: "list_ex isCallValue effs"
    using assms(2) by (cases ?r) (auto simp: pays_def)
  have nj: "joinGame c s gid \<noteq> Inr (?s', effs)"
    using cv by (auto dest: joinGame_Inr(7))
  have nc: "\<And>hs. commitMoves c s gid hs \<noteq> Inr (?s', effs)"
    using cv by (auto dest: commitMoves_Inr(9))
  have "(\<exists>es ss. revealMoves k c s gid es ss = Inr (?s', projr ?r)) \<or>
        claimTimeout c s gid = Inr (?s', projr ?r)"
    using exec_game_cases [of k c cl s gid] assms nj nc
    by (auto simp: r)
  then have "state (games s gid) = MovesCommitted \<and> state (games ?s' gid) = Finished \<and>
     nextGameId ?s' = nextGameId s"
  proof (elim disjE exE)
    fix es ss assume x: "revealMoves k c s gid es ss = Inr (?s', projr ?r)"
    have "nextGameId ?s' = nextGameId s"
      by (rule ssubst [OF revealMoves_Inr(3) [OF x]]) simp
    with revealMoves_Inr(1) [OF x] revealMoves_Inr(6) [OF x] assms(2) show ?thesis by (simp add: r)
  next
    assume x: "claimTimeout c s gid = Inr (?s', projr ?r)"
    have "nextGameId ?s' = nextGameId s \<and> state (games ?s' gid) = Finished"
      by (rule ssubst [OF claimTimeout_Inr(2) [OF x]]) simp
    with claimTimeout_Inr(1) [OF x] show ?thesis by simp
  qed
  then show "state (games s gid) = MovesCommitted" "state (games ?s' gid) = Finished"
    "nextGameId ?s' = nextGameId s" by simp_all
qed

lemma settlements_le_1:
  assumes "\<forall>g. unat (nextGameId s) \<le> unat g \<longrightarrow> unborn (games s g)"
  shows "settlements k gid calls s \<le> 1"
  using assms
proof (induction calls arbitrary: s)
  case Nil
  then show ?case by simp
next
  case (Cons a calls)
  obtain c cl where a: "a = (c, cl)" by (cases a)
  let ?s' = "fst (exec k c cl s)"
  show ?case
  proof (cases "addresses cl gid \<and> pays (snd (exec k c cl s))")
    case True
    note p = exec_pays [where cl = cl and gid = gid and k = k and c = c and s = s]
    have "unat gid < unat (nextGameId s)"
    proof (rule ccontr)
      assume "\<not> unat gid < unat (nextGameId s)"
      then have "unborn (games s gid)" using Cons.prems by simp
      then show False using p(1) True by (simp add: unborn_def)
    qed
    then have "unat gid < unat (nextGameId ?s')" using p(3) True by simp
    from run_Finished [OF _ this, of k calls] p(2) True have "settlements k gid calls ?s' = 0" by simp
    then show ?thesis using True by (simp add: a)
  next
    case False
    have "\<forall>g. unat (nextGameId ?s') \<le> unat g \<longrightarrow> unborn (games ?s' g)"
      using exec_unborn [OF Cons.prems] by blast
    from Cons.IH [OF this] False show ?thesis by (auto simp: a)
  qed
qed

lemma deploy_unborn: "unborn (games (deploy d) g)"
  by (simp add: deploy_def zeroGame_def unborn_def)



section \<open>Concrete runs\<close>

lemmas ed_eval = deploy_def createGame_def joinGame_def commitMoves_def claimTimeout_def revealMoves_def tx_def
  checked_add_def checked_mul_def checked_sub_def settle_def Let_def zeroGame_def zeroMove_def
  revealLoop_0 areAllMovesRevealed_eq allRevealed_def noneRevealed_def toyHash_def committedCalls_def
  refundPlayers_def endGame_def REVEAL_TIMEOUT_def PLATFORM_FEE_PERCENTAGE_def

lemma run_append: "run k (xs @ ys) s = run k ys (run k xs s)"
  by (induction xs arbitrary: s) auto

section \<open>Joining\<close>

lemma joinGame_phase:
  assumes "joinGame c s gameId = Inr (s', effs)"
  shows "player2 (games s' gameId) = msg_sender c"
    and "unat (totalPrize (games s' gameId)) = 2 * unat (stake (games s gameId))"
    and "state (games s' gameId) = Created"
proof -
  note j = joinGame_Inr [OF assms]
  show "player2 (games s' gameId) = msg_sender c" by (subst j(6)) simp
  show "state (games s' gameId) = Created" using j(1) by (subst j(6)) simp
  have "unat (stake (games s gameId) * 2) = unat (stake (games s gameId)) * 2"
    using j(5) by (simp add: unat_word_ariths)
  then show "unat (totalPrize (games s' gameId)) = 2 * unat (stake (games s gameId))"
    by (subst j(6)) simp
qed

lemma BD_joinGame_phase:
  assumes "BD_joinGame c s gameId = Inr (s', effs)"
  shows "BD_player2 (BD_games s' gameId) = msg_sender c"
    and "unat (BD_totalPrize (BD_games s' gameId)) = 2 * unat (BD_stake (BD_games s gameId))"
    and "BD_state (BD_games s' gameId) = CommitPhase"
    and "BD_state (BD_games s gameId) = BD_Created"
  using assms
  by (auto simp: BD_joinGame_def checked_mul_def Let_def initUnitsLoop_0 unat_word_ariths
      split: if_splits)

text \<open>
  C1. A successful \<open>joinGame\<close> sets \<open>player2\<close> to the caller and \<open>totalPrize\<close> to twice the
  stake in both contracts (the two lemmas above), and BlockDuel moves the game to
  CommitPhase. ElementalDuel does not: its \<open>joinGame\<close> never writes \<open>state\<close>. Here player 1
  creates game 0 with stake 5 and player 2 joins with 5; the game is still in phase
  Created, so the guard of \<open>joinGame\<close> (``Game already started'') lets a third address join
  the same game again, and \<open>player2\<close> is overwritten.
\<close>

theorem joinGame_stays_Created:
  "(let s = run toyHash [(tx 1 5 10, CreateGame), (tx 2 5 20, JoinGame 0)] (deploy 9);
        s' = fst (exec toyHash (tx 3 5 30) (JoinGame 0) s)
    in trace toyHash [(tx 1 5 10, CreateGame), (tx 2 5 20, JoinGame 0)] (deploy 9) =
         [Inr [EmitGameCreated 0 1 5], Inr [EmitPlayerJoined 0 2]] \<and>
       player1 (games s 0) = 1 \<and> player2 (games s 0) = 2 \<and> totalPrize (games s 0) = 10 \<and>
       state (games s 0) = Created \<and>
       snd (exec toyHash (tx 3 5 30) (JoinGame 0) s) = Inr [EmitPlayerJoined 0 3] \<and>
       player2 (games s' 0) = 3 \<and> totalPrize (games s' 0) = 10 \<and> state (games s' 0) = Created)"
  by (simp add: ed_eval)

section \<open>Revealing is all or nothing\<close>

text \<open>
  C9. In every state the elemental duel reaches from deployment, by any sequence of
  transactions and with any hash function, each player of each game has either all three
  move slots marked revealed or none, so the flag of slot 0 says whether the player has
  revealed. A \<open>revealMoves\<close> that goes through has checked each of the three revealed
  elements with its salt against the caller's commitment of the same slot, found the
  caller's three slots unrevealed, stored the three elements marked as revealed and left
  the other player's slots alone. If the hash of any one of the three slots differs from
  the commitment the call is rejected, and a rejected call changes nothing.
\<close>

theorem reveal_all_or_none:
  "(let g = games (run keccak calls (deploy d)) gameId in
      allOrNone (player1Moves g) \<and> allOrNone (player2Moves g) \<and>
      isRevealed (elem0 (player1Moves g)) = allRevealed (player1Moves g) \<and>
      isRevealed (elem0 (player2Moves g)) = allRevealed (player2Moves g) \<and>
      (\<not> isRevealed (elem0 (player1Moves g))) = noneRevealed (player1Moves g) \<and>
      (\<not> isRevealed (elem0 (player2Moves g))) = noneRevealed (player2Moves g)) \<and>
   (revealMoves keccak c s gameId elements salts = Inr (s', effs) \<longrightarrow>
      (if msg_sender c = player1 (games s gameId)
       then keccak (elem0 elements) (elem0 salts) = elem0 (player1Commitments (games s gameId)) \<and>
            keccak (elem1 elements) (elem1 salts) = elem1 (player1Commitments (games s gameId)) \<and>
            keccak (elem2 elements) (elem2 salts) = elem2 (player1Commitments (games s gameId)) \<and>
            noneRevealed (player1Moves (games s gameId)) \<and>
            allRevealed (player1Moves (games s' gameId)) \<and>
            player1Moves (games s' gameId) =
              revealedMoves3 (elem0 elements) (elem1 elements) (elem2 elements) \<and>
            player2Moves (games s' gameId) = player2Moves (games s gameId)
       else keccak (elem0 elements) (elem0 salts) = elem0 (player2Commitments (games s gameId)) \<and>
            keccak (elem1 elements) (elem1 salts) = elem1 (player2Commitments (games s gameId)) \<and>
            keccak (elem2 elements) (elem2 salts) = elem2 (player2Commitments (games s gameId)) \<and>
            noneRevealed (player2Moves (games s gameId)) \<and>
            allRevealed (player2Moves (games s' gameId)) \<and>
            player2Moves (games s' gameId) =
              revealedMoves3 (elem0 elements) (elem1 elements) (elem2 elements) \<and>
            player1Moves (games s' gameId) = player1Moves (games s gameId))) \<and>
   ((if msg_sender c = player1 (games s gameId)
     then keccak (elem0 elements) (elem0 salts) \<noteq> elem0 (player1Commitments (games s gameId)) \<or>
          keccak (elem1 elements) (elem1 salts) \<noteq> elem1 (player1Commitments (games s gameId)) \<or>
          keccak (elem2 elements) (elem2 salts) \<noteq> elem2 (player1Commitments (games s gameId))
     else keccak (elem0 elements) (elem0 salts) \<noteq> elem0 (player2Commitments (games s gameId)) \<or>
          keccak (elem1 elements) (elem1 salts) \<noteq> elem1 (player2Commitments (games s gameId)) \<or>
          keccak (elem2 elements) (elem2 salts) \<noteq> elem2 (player2Commitments (games s gameId))) \<longrightarrow>
      isl (revealMoves keccak c s gameId elements salts)) \<and>
   (isl (revealMoves keccak c s gameId elements salts) \<longrightarrow>
      fst (exec keccak c (RevealMoves gameId elements salts) s) = s \<and>
      isl (snd (exec keccak c (RevealMoves gameId elements salts) s)))"
proof (intro conjI impI)
  have "\<forall>gid. allOrNone (player1Moves (games (deploy d) gid)) \<and>
      allOrNone (player2Moves (games (deploy d) gid))"
    by (simp add: deploy_def zeroGame_def zeroMove_def allOrNone_def noneRevealed_def)
  from run_allOrNone [OF this, of keccak calls gameId]
  show "let g = games (run keccak calls (deploy d)) gameId in
      allOrNone (player1Moves g) \<and> allOrNone (player2Moves g) \<and>
      isRevealed (elem0 (player1Moves g)) = allRevealed (player1Moves g) \<and>
      isRevealed (elem0 (player2Moves g)) = allRevealed (player2Moves g) \<and>
      (\<not> isRevealed (elem0 (player1Moves g))) = noneRevealed (player1Moves g) \<and>
      (\<not> isRevealed (elem0 (player2Moves g))) = noneRevealed (player2Moves g)"
    by (auto simp: Let_def allOrNone_def allRevealed_def noneRevealed_def)
next
  assume x: "revealMoves keccak c s gameId elements salts = Inr (s', effs)"
  show "if msg_sender c = player1 (games s gameId)
       then keccak (elem0 elements) (elem0 salts) = elem0 (player1Commitments (games s gameId)) \<and>
            keccak (elem1 elements) (elem1 salts) = elem1 (player1Commitments (games s gameId)) \<and>
            keccak (elem2 elements) (elem2 salts) = elem2 (player1Commitments (games s gameId)) \<and>
            noneRevealed (player1Moves (games s gameId)) \<and>
            allRevealed (player1Moves (games s' gameId)) \<and>
            player1Moves (games s' gameId) =
              revealedMoves3 (elem0 elements) (elem1 elements) (elem2 elements) \<and>
            player2Moves (games s' gameId) = player2Moves (games s gameId)
       else keccak (elem0 elements) (elem0 salts) = elem0 (player2Commitments (games s gameId)) \<and>
            keccak (elem1 elements) (elem1 salts) = elem1 (player2Commitments (games s gameId)) \<and>
            keccak (elem2 elements) (elem2 salts) = elem2 (player2Commitments (games s gameId)) \<and>
            noneRevealed (player2Moves (games s gameId)) \<and>
            allRevealed (player2Moves (games s' gameId)) \<and>
            player2Moves (games s' gameId) =
              revealedMoves3 (elem0 elements) (elem1 elements) (elem2 elements) \<and>
            player1Moves (games s' gameId) = player1Moves (games s gameId)"
  proof (cases "msg_sender c = player1 (games s gameId)")
    case True
    from revealMoves_Inr(4) [OF x] True
    have rl: "revealLoop keccak elements salts (player1Commitments (games s gameId)) 0
        (player1Moves (games s gameId)) = Inr (player1Moves (games s' gameId))"
      and o: "player2Moves (games s' gameId) = player2Moves (games s gameId)"
      by simp_all
    from revealLoop_Inr(1) [OF rl] revealLoop_Inr(2) [OF rl] revealLoop_Inr(4) [OF rl]
      revealLoop_stores [OF rl] o True
    show ?thesis by simp
  next
    case False
    from revealMoves_Inr(4) [OF x] False
    have rl: "revealLoop keccak elements salts (player2Commitments (games s gameId)) 0
        (player2Moves (games s gameId)) = Inr (player2Moves (games s' gameId))"
      and o: "player1Moves (games s' gameId) = player1Moves (games s gameId)"
      by simp_all
    from revealLoop_Inr(1) [OF rl] revealLoop_Inr(2) [OF rl] revealLoop_Inr(4) [OF rl]
      revealLoop_stores [OF rl] o False
    show ?thesis by simp
  qed
next
  assume m: "if msg_sender c = player1 (games s gameId)
     then keccak (elem0 elements) (elem0 salts) \<noteq> elem0 (player1Commitments (games s gameId)) \<or>
          keccak (elem1 elements) (elem1 salts) \<noteq> elem1 (player1Commitments (games s gameId)) \<or>
          keccak (elem2 elements) (elem2 salts) \<noteq> elem2 (player1Commitments (games s gameId))
     else keccak (elem0 elements) (elem0 salts) \<noteq> elem0 (player2Commitments (games s gameId)) \<or>
          keccak (elem1 elements) (elem1 salts) \<noteq> elem1 (player2Commitments (games s gameId)) \<or>
          keccak (elem2 elements) (elem2 salts) \<noteq> elem2 (player2Commitments (games s gameId))"
  show "isl (revealMoves keccak c s gameId elements salts)"
  proof (cases "revealMoves keccak c s gameId elements salts")
    case (Inl e)
    then show ?thesis by simp
  next
    case (Inr y)
    obtain s1 effs1 where x: "revealMoves keccak c s gameId elements salts = Inr (s1, effs1)"
      using Inr by (cases y) simp
    show ?thesis
    proof (cases "msg_sender c = player1 (games s gameId)")
      case True
      from revealMoves_Inr(4) [OF x] True
      have rl: "revealLoop keccak elements salts (player1Commitments (games s gameId)) 0
          (player1Moves (games s gameId)) = Inr (player1Moves (games s1 gameId))"
        by simp
      from revealLoop_Inr(4) [OF rl] m True show ?thesis by simp
    next
      case False
      from revealMoves_Inr(4) [OF x] False
      have rl: "revealLoop keccak elements salts (player2Commitments (games s gameId)) 0
          (player2Moves (games s gameId)) = Inr (player2Moves (games s1 gameId))"
        by simp
      from revealLoop_Inr(4) [OF rl] m False show ?thesis by simp
    qed
  qed
next
  assume "isl (revealMoves keccak c s gameId elements salts)"
  then show "fst (exec keccak c (RevealMoves gameId elements salts) s) = s"
    by (cases "revealMoves keccak c s gameId elements salts") (simp_all add: settle_def)
next
  assume "isl (revealMoves keccak c s gameId elements salts)"
  then show "isl (snd (exec keccak c (RevealMoves gameId elements salts) s))"
    by (cases "revealMoves keccak c s gameId elements salts") (simp_all add: settle_def)
qed


theorem reveal_all_or_none_witness:
  "(let s = run toyHash committedCalls (deploy 9);
        good = RevealMoves 0 (Arr3 Fire Water Earth) (Arr3 11 12 13);
        bad0 = RevealMoves 0 (Arr3 Fire Water Earth) (Arr3 10 12 13);
        bad1 = RevealMoves 0 (Arr3 Fire Earth Earth) (Arr3 11 12 13);
        bad2 = RevealMoves 0 (Arr3 Fire Water Earth) (Arr3 11 12 14);
        s' = fst (exec toyHash (tx 1 0 50) good s)
    in noneRevealed (player1Moves (games s 0)) \<and> noneRevealed (player2Moves (games s 0)) \<and>
       player1Commitments (games s 0) = Arr3 (toyHash Fire 11) (toyHash Water 12) (toyHash Earth 13) \<and>
       toyHash Fire 10 \<noteq> toyHash Fire 11 \<and> toyHash Earth 12 \<noteq> toyHash Water 12 \<and>
       toyHash Earth 14 \<noteq> toyHash Earth 13 \<and>
       fst (exec toyHash (tx 1 0 50) bad0 s) = s \<and> isl (snd (exec toyHash (tx 1 0 50) bad0 s)) \<and>
       fst (exec toyHash (tx 1 0 50) bad1 s) = s \<and> isl (snd (exec toyHash (tx 1 0 50) bad1 s)) \<and>
       fst (exec toyHash (tx 1 0 50) bad2 s) = s \<and> isl (snd (exec toyHash (tx 1 0 50) bad2 s)) \<and>
       snd (exec toyHash (tx 1 0 50) good s) = Inr [EmitMovesRevealed 0 1] \<and>
       allRevealed (player1Moves (games s' 0)) \<and>
       player1Moves (games s' 0) = revealedMoves3 Fire Water Earth \<and>
       noneRevealed (player2Moves (games s' 0)) \<and>
       allOrNone (player1Moves (games s' 0)) \<and> allOrNone (player2Moves (games s' 0)))"
proof -
  define s where "s = run toyHash committedCalls (deploy 9)"
  define s' where
    "s' = fst (exec toyHash (tx 1 0 50) (RevealMoves 0 (Arr3 Fire Water Earth) (Arr3 11 12 13)) s)"
  have ok: "revealMoves toyHash (tx 1 0 50) s 0 (Arr3 Fire Water Earth) (Arr3 11 12 13) =
      Inr (s', [EmitMovesRevealed 0 1])"
    and p1: "msg_sender (tx 1 0 50) = player1 (games s 0)"
    and n1: "noneRevealed (player1Moves (games s 0))"
    and n2: "noneRevealed (player2Moves (games s 0))"
    and cm: "player1Commitments (games s 0) =
      Arr3 (toyHash Fire 11) (toyHash Water 12) (toyHash Earth 13)"
    unfolding s'_def s_def by (simp_all add: ed_eval)
  have ne: "toyHash Fire 10 \<noteq> toyHash Fire 11" "toyHash Earth 12 \<noteq> toyHash Water 12"
    "toyHash Earth 14 \<noteq> toyHash Earth 13"
    by (simp_all add: toyHash_def)
  have m0: "if msg_sender (tx 1 0 50) = player1 (games s 0)
     then toyHash (elem0 (Arr3 Fire Water Earth)) (elem0 (Arr3 10 12 13)) \<noteq> elem0 (player1Commitments (games s 0)) \<or>
          toyHash (elem1 (Arr3 Fire Water Earth)) (elem1 (Arr3 10 12 13)) \<noteq> elem1 (player1Commitments (games s 0)) \<or>
          toyHash (elem2 (Arr3 Fire Water Earth)) (elem2 (Arr3 10 12 13)) \<noteq> elem2 (player1Commitments (games s 0))
     else toyHash (elem0 (Arr3 Fire Water Earth)) (elem0 (Arr3 10 12 13)) \<noteq> elem0 (player2Commitments (games s 0)) \<or>
          toyHash (elem1 (Arr3 Fire Water Earth)) (elem1 (Arr3 10 12 13)) \<noteq> elem1 (player2Commitments (games s 0)) \<or>
          toyHash (elem2 (Arr3 Fire Water Earth)) (elem2 (Arr3 10 12 13)) \<noteq> elem2 (player2Commitments (games s 0))"
    using ne by (simp add: p1 cm)
  have m1: "if msg_sender (tx 1 0 50) = player1 (games s 0)
     then toyHash (elem0 (Arr3 Fire Earth Earth)) (elem0 (Arr3 11 12 13)) \<noteq> elem0 (player1Commitments (games s 0)) \<or>
          toyHash (elem1 (Arr3 Fire Earth Earth)) (elem1 (Arr3 11 12 13)) \<noteq> elem1 (player1Commitments (games s 0)) \<or>
          toyHash (elem2 (Arr3 Fire Earth Earth)) (elem2 (Arr3 11 12 13)) \<noteq> elem2 (player1Commitments (games s 0))
     else toyHash (elem0 (Arr3 Fire Earth Earth)) (elem0 (Arr3 11 12 13)) \<noteq> elem0 (player2Commitments (games s 0)) \<or>
          toyHash (elem1 (Arr3 Fire Earth Earth)) (elem1 (Arr3 11 12 13)) \<noteq> elem1 (player2Commitments (games s 0)) \<or>
          toyHash (elem2 (Arr3 Fire Earth Earth)) (elem2 (Arr3 11 12 13)) \<noteq> elem2 (player2Commitments (games s 0))"
    using ne by (simp add: p1 cm)
  have m2: "if msg_sender (tx 1 0 50) = player1 (games s 0)
     then toyHash (elem0 (Arr3 Fire Water Earth)) (elem0 (Arr3 11 12 14)) \<noteq> elem0 (player1Commitments (games s 0)) \<or>
          toyHash (elem1 (Arr3 Fire Water Earth)) (elem1 (Arr3 11 12 14)) \<noteq> elem1 (player1Commitments (games s 0)) \<or>
          toyHash (elem2 (Arr3 Fire Water Earth)) (elem2 (Arr3 11 12 14)) \<noteq> elem2 (player1Commitments (games s 0))
     else toyHash (elem0 (Arr3 Fire Water Earth)) (elem0 (Arr3 11 12 14)) \<noteq> elem0 (player2Commitments (games s 0)) \<or>
          toyHash (elem1 (Arr3 Fire Water Earth)) (elem1 (Arr3 11 12 14)) \<noteq> elem1 (player2Commitments (games s 0)) \<or>
          toyHash (elem2 (Arr3 Fire Water Earth)) (elem2 (Arr3 11 12 14)) \<noteq> elem2 (player2Commitments (games s 0))"
    using ne by (simp add: p1 cm)
  note th = reveal_all_or_none [where keccak = toyHash and c = "tx 1 0 50" and s = s
      and gameId = 0 and elements = "Arr3 Fire Water Earth" and salts = "Arr3 11 12 13"
      and s' = s' and effs = "[EmitMovesRevealed 0 1]"
      and calls = "committedCalls @ [(tx 1 0 50, RevealMoves 0 (Arr3 Fire Water Earth) (Arr3 11 12 13))]"
      and d = 9]
  note th0 = reveal_all_or_none [where keccak = toyHash and c = "tx 1 0 50" and s = s
      and gameId = 0 and elements = "Arr3 Fire Water Earth" and salts = "Arr3 10 12 13"
      and s' = s and effs = "[]" and calls = "[]" and d = 9]
  note th1 = reveal_all_or_none [where keccak = toyHash and c = "tx 1 0 50" and s = s
      and gameId = 0 and elements = "Arr3 Fire Earth Earth" and salts = "Arr3 11 12 13"
      and s' = s and effs = "[]" and calls = "[]" and d = 9]
  note th2 = reveal_all_or_none [where keccak = toyHash and c = "tx 1 0 50" and s = s
      and gameId = 0 and elements = "Arr3 Fire Water Earth" and salts = "Arr3 11 12 14"
      and s' = s and effs = "[]" and calls = "[]" and d = 9]
  note r0 = th0 [THEN conjunct2, THEN conjunct2, THEN conjunct2, THEN mp,
      OF th0 [THEN conjunct2, THEN conjunct2, THEN conjunct1, THEN mp, OF m0]]
  note r1 = th1 [THEN conjunct2, THEN conjunct2, THEN conjunct2, THEN mp,
      OF th1 [THEN conjunct2, THEN conjunct2, THEN conjunct1, THEN mp, OF m1]]
  note r2 = th2 [THEN conjunct2, THEN conjunct2, THEN conjunct2, THEN mp,
      OF th2 [THEN conjunct2, THEN conjunct2, THEN conjunct1, THEN mp, OF m2]]
  note a = th [THEN conjunct2, THEN conjunct1, THEN mp, OF ok, unfolded if_P [OF p1]]
  have c: "snd (exec toyHash (tx 1 0 50) (RevealMoves 0 (Arr3 Fire Water Earth) (Arr3 11 12 13)) s) =
      Inr [EmitMovesRevealed 0 1]"
    by (simp only: exec.simps ok settle_def sum.case prod.case snd_conv)
  have st: "player1Moves (games s' 0) = revealedMoves3 Fire Water Earth"
    using a by simp
  have d: "noneRevealed (player2Moves (games s' 0))"
    using a n2 by (simp only:)
  have run': "run toyHash (committedCalls @
      [(tx 1 0 50, RevealMoves 0 (Arr3 Fire Water Earth) (Arr3 11 12 13))]) (deploy 9) = s'"
    unfolding s'_def s_def by (simp add: run_append)
  note inv = th [THEN conjunct1, unfolded Let_def run']
  show ?thesis
    unfolding Let_def s_def [symmetric] s'_def [symmetric]
    by (intro conjI n1 n2 cm ne r0 [THEN conjunct1] r0 [THEN conjunct2] r1 [THEN conjunct1]
        r1 [THEN conjunct2] r2 [THEN conjunct1] r2 [THEN conjunct2] c
        a [THEN conjunct2, THEN conjunct2, THEN conjunct2, THEN conjunct2, THEN conjunct1] st d
        inv [THEN conjunct1] inv [THEN conjunct2, THEN conjunct1])
qed



section \<open>The combat duel: rosters, rounds and commitments\<close>

lemma index3_Inr: "index3 a i = Inr x \<Longrightarrow> i < 3 \<and> (x = elem0 a \<or> x = elem1 a \<or> x = elem2 a)"
  by (cases a) (auto split: if_splits)

lemma index3_range: "index3 a i = (if i < 3 then Inr (if i = 0 then elem0 a else if i = 1 then elem1 a else elem2 a) else Inl Panic)"
  by (cases a) auto


lemma processAttack_Inr:
  assumes "processAttack a d = Inr d'"
  shows "isAlive d' \<longrightarrow> isAlive d" and "\<not> isAlive a \<longrightarrow> d' = d"
  using assms by (auto simp: processAttack_def Let_def checked_sub_def split: if_splits)

lemma processMoves_untouched: "processMoves g = Inr g' \<Longrightarrow> BD_untouched g g'"
  by (auto simp: processMoves_def BD_untouched_def Let_def split: if_splits sum.splits)



lemma BD_endGame_untouched:
  "BD_endGame c own gid g w = Inr (g', effs) \<Longrightarrow> g' = g\<lparr>BD_state := BD_Finished\<rparr>"
  by (auto simp: BD_endGame_def Let_def split: sum.splits if_splits)

lemma BD_refundPlayers_untouched:
  "BD_refundPlayers c gid g = Inr (g', effs) \<Longrightarrow> g' = g\<lparr>BD_state := BD_Finished\<rparr>"
  by (auto simp: BD_refundPlayers_def Let_def split: sum.splits if_splits)

lemma resolveRound_Inr:
  assumes "resolveRound c own gid g = Inr (g', effs)"
  shows "(moveCommitments g' = moveCommitments g \<and> currentRound g' = currentRound g \<and>
          BD_state g' = BD_Finished) \<or>
         (unat (currentRound g') = unat (currentRound g) + 1 \<and> BD_state g' = CommitPhase \<and> effs = [])"
proof -
  obtain g1 where pm: "processMoves g = Inr g1"
    using assms by (auto simp: resolveRound_def split: sum.splits)
  note u = processMoves_untouched [OF pm]
  show ?thesis
    using assms pm u
    by (auto simp: resolveRound_def lostLoop_0 BD_untouched_def checked_add_def unat_word_ariths
        split: if_splits dest!: BD_endGame_untouched)
qed

lemma BD_exec_round:
  fixes k c cl s gid
  defines "g \<equiv> BD_games s gid" and "g' \<equiv> BD_games (fst (BD_exec k c cl s)) gid"
  shows "(moveCommitments g' = moveCommitments g \<and> currentRound g' = currentRound g) \<or>
         (\<exists>h idx. moveCommitments g idx = 0 \<and> moveCommitments g' = (moveCommitments g)(idx := h) \<and>
                   currentRound g' = currentRound g) \<or>
         unat (currentRound g') = unat (currentRound g) + 1"
proof (cases cl)
  case BD_CreateGame
  show ?thesis unfolding g_def g'_def BD_CreateGame
    by (auto simp: BD_createGame_def Let_def initUnitsLoop_0 checked_add_def split: if_splits)
next
  case (BD_JoinGame x)
  show ?thesis unfolding g_def g'_def BD_JoinGame
    by (auto simp: BD_joinGame_def Let_def initUnitsLoop_0 checked_mul_def BD_settle_def split: if_splits)
next
  case (CommitMove x h)
  show ?thesis unfolding g_def g'_def CommitMove
    by (auto simp: commitMove_def Let_def BD_settle_def split: if_splits)
next
  case (RevealMove x mt tu su ec salt)
  show ?thesis
  proof (cases "revealMove k c s x mt tu su ec salt")
    case (Inl e)
    then show ?thesis unfolding g_def g'_def RevealMove by (simp add: BD_settle_def)
  next
    case (Inr y)
    then obtain s1 effs where y: "revealMove k c s x mt tu su ec salt = Inr (s1, effs)" by (cases y) auto
    have e: "fst (BD_exec k c cl s) = s1" unfolding RevealMove using y by (simp add: BD_settle_def)
    from y show ?thesis unfolding g_def g'_def e
      by (auto simp: revealMove_def Let_def split: if_splits sum.splits dest!: resolveRound_Inr)
  qed
next
  case (BD_ClaimTimeout x)
  show ?thesis unfolding g_def g'_def BD_ClaimTimeout
    by (auto simp: BD_claimTimeout_def Let_def BD_settle_def split: if_splits sum.splits
        dest!: BD_endGame_untouched BD_refundPlayers_untouched)
next
  case BD_Pause
  show ?thesis unfolding g_def g'_def BD_Pause
    by (auto simp: BD_pause_def BD_settle_def split: if_splits)
next
  case BD_Unpause
  show ?thesis unfolding g_def g'_def BD_Unpause
    by (auto simp: BD_unpause_def BD_settle_def split: if_splits)
next
  case (BD_TransferOwnership x)
  show ?thesis unfolding g_def g'_def BD_TransferOwnership
    by (auto simp: BD_transferOwnership_def BD_settle_def split: if_splits)
next
  case BD_RenounceOwnership
  show ?thesis unfolding g_def g'_def BD_RenounceOwnership
    by (auto simp: BD_renounceOwnership_def BD_settle_def split: if_splits)
qed

lemma BD_run_mono:
  "unat (currentRound (BD_games s gid)) \<le> unat (currentRound (BD_games (BD_run k calls s) gid))"
proof (induction calls arbitrary: s)
  case Nil
  then show ?case by simp
next
  case (Cons a calls)
  obtain c cl where a: "a = (c, cl)" by (cases a)
  have "unat (currentRound (BD_games s gid)) \<le> unat (currentRound (BD_games (fst (BD_exec k c cl s)) gid))"
    using BD_exec_round [of k c cl s gid] by auto
  also have "\<dots> \<le> unat (currentRound (BD_games (BD_run k calls (fst (BD_exec k c cl s))) gid))"
    by (rule Cons.IH)
  finally show ?case by (simp add: a)
qed

lemma BD_run_round:
  assumes "moveCommitments (BD_games s gid) i \<noteq> 0"
  shows "unat (currentRound (BD_games s gid)) < unat (currentRound (BD_games (BD_run k calls s) gid)) \<or>
         (currentRound (BD_games (BD_run k calls s) gid) = currentRound (BD_games s gid) \<and>
          moveCommitments (BD_games (BD_run k calls s) gid) i = moveCommitments (BD_games s gid) i)"
  using assms
proof (induction calls arbitrary: s)
  case Nil
  then show ?case by simp
next
  case (Cons a calls)
  obtain c cl where a: "a = (c, cl)" by (cases a)
  let ?s' = "fst (BD_exec k c cl s)"
  note st = BD_exec_round [of k c cl s gid]
  show ?case
  proof (cases "moveCommitments (BD_games ?s' gid) i = moveCommitments (BD_games s gid) i \<and>
                currentRound (BD_games ?s' gid) = currentRound (BD_games s gid)")
    case True
    then have "moveCommitments (BD_games ?s' gid) i \<noteq> 0" using Cons.prems by simp
    from Cons.IH [OF this] True show ?thesis by (simp add: a)
  next
    case False
    with st Cons.prems have up: "unat (currentRound (BD_games ?s' gid)) = unat (currentRound (BD_games s gid)) + 1"
      by (auto simp: fun_upd_def split: if_splits)
    have mono: "unat (currentRound (BD_games ?s' gid)) \<le> unat (currentRound (BD_games (BD_run k calls ?s') gid))"
      by (rule BD_run_mono)
    with up show ?thesis by (simp add: a)
  qed
qed


lemmas bd_eval = BD_deploy_def BD_createGame_def BD_joinGame_def commitMove_def revealMove_def
  BD_claimTimeout_def tx_def checked_add_def checked_mul_def checked_sub_def BD_settle_def Let_def
  BD_zeroGame_def BD_zeroMove_def initUnitsLoop_0 BD_refundPlayers_def BD_endGame_def
  BD_REVEAL_TIMEOUT_def GAME_FEE_PERCENTAGE_def

section \<open>Runs of the combat duel\<close>

lemma combat_setup:
  assumes "h1 \<noteq> 0" and "h2 \<noteq> 0"
  shows "BD_run keccak (combatCalls h1 h2) (BD_deploy 9) = combatStorage (committedCombat h1 h2)"
    and "BD_trace keccak (combatCalls h1 h2) (BD_deploy 9) =
           [Inr [BD_EmitGameCreated 0 1 5], Inr [BD_EmitPlayerJoined 0 2],
            Inr [EmitMoveCommitted 0 1], Inr [EmitMoveCommitted 0 2]]"
  using assms
  by (simp_all add: combatCalls_def combatStorage_def committedCombat_def bd_eval)

lemma BD_run_append: "BD_run k (xs @ ys) s = BD_run k ys (BD_run k xs s)"
  by (induction xs arbitrary: s) auto

lemma BD_trace_append: "BD_trace k (xs @ ys) s = BD_trace k xs s @ BD_trace k ys (BD_run k xs s)"
  by (induction xs arbitrary: s) auto

section \<open>Unit indices are not validated\<close>

text \<open>
  C7. In the combat duel \<open>revealMove\<close> checks the revealed move against the commitment
  only. Player 1 commits and reveals an Attack whose \<open>sourceUnit\<close> or \<open>targetUnit\<close> is 3 or
  more, and the reveal is accepted. When player 2 then reveals the move it committed,
  the check of the hash passes, resolution runs, \<open>_processMoves\<close> indexes a roster of three
  out of bounds, and the reveal fails with a Panic (not with one of the \<open>require\<close>
  messages), leaving the storage as it was. This holds for every hash function that
  gives the two commitments a non-zero value.
\<close>

theorem revealMove_out_of_bounds:
  assumes "3 \<le> unat su \<or> 3 \<le> unat tu"
    and "keccak Attack tu su ec salt1 \<noteq> 0" and "keccak mt2 tu2 su2 ec2 salt2 \<noteq> 0"
  shows "(let calls = combatCalls (keccak Attack tu su ec salt1) (keccak mt2 tu2 su2 ec2 salt2) @
                        [(tx 1 0 50, RevealMove 0 Attack tu su ec salt1)];
              s = BD_run keccak calls (BD_deploy 9)
          in BD_trace keccak calls (BD_deploy 9) =
               [Inr [BD_EmitGameCreated 0 1 5], Inr [BD_EmitPlayerJoined 0 2],
                Inr [EmitMoveCommitted 0 1], Inr [EmitMoveCommitted 0 2],
                Inr [EmitMoveRevealed 0 1 Attack]] \<and>
             BD_state (BD_games s 0) = RevealPhase \<and>
             revealedMoves (BD_games s 0) 0 =
               \<lparr>moveType = Attack, targetUnit = tu, sourceUnit = su, energyCost = ec,
                BD_isRevealed = True\<rparr> \<and>
             keccak mt2 tu2 su2 ec2 salt2 = moveCommitments (BD_games s 0) 1 \<and>
             \<not> BD_isRevealed (revealedMoves (BD_games s 0) 1) \<and>
             revealMove keccak (tx 2 0 60) s 0 mt2 tu2 su2 ec2 salt2 = Inl Panic \<and>
             BD_exec keccak (tx 2 0 60) (RevealMove 0 mt2 tu2 su2 ec2 salt2) s = (s, Inl Panic))"
proof -
  let ?h1 = "keccak Attack tu su ec salt1" and ?h2 = "keccak mt2 tu2 su2 ec2 salt2"
  let ?g4 = "committedCombat ?h1 ?h2"
  let ?g5 = "?g4\<lparr>revealedMoves := (revealedMoves ?g4)(0 :=
      \<lparr>moveType = Attack, targetUnit = tu, sourceUnit = su, energyCost = ec, BD_isRevealed = True\<rparr>)\<rparr>"
  note cs = combat_setup [OF assms(2) assms(3), where keccak = keccak]
  have r1: "revealMove keccak (tx 1 0 50) (combatStorage ?g4) 0 Attack tu su ec salt1 =
      Inr (combatStorage ?g5, [EmitMoveRevealed 0 1 Attack])"
    by (simp add: revealMove_def combatStorage_def committedCombat_def tx_def BD_zeroMove_def Let_def)
  have s5: "BD_run keccak (combatCalls ?h1 ?h2 @ [(tx 1 0 50, RevealMove 0 Attack tu su ec salt1)])
      (BD_deploy 9) = combatStorage ?g5"
    by (simp add: BD_run_append cs r1 BD_settle_def)
  have t5: "BD_trace keccak (combatCalls ?h1 ?h2 @ [(tx 1 0 50, RevealMove 0 Attack tu su ec salt1)])
      (BD_deploy 9) =
               [Inr [BD_EmitGameCreated 0 1 5], Inr [BD_EmitPlayerJoined 0 2],
                Inr [EmitMoveCommitted 0 1], Inr [EmitMoveCommitted 0 2],
                Inr [EmitMoveRevealed 0 1 Attack]]"
    by (simp add: BD_trace_append cs r1 BD_settle_def)
  have pm: "processMoves (?g5\<lparr>revealedMoves := (revealedMoves ?g5)(1 :=
      \<lparr>moveType = mt2, targetUnit = tu2, sourceUnit = su2, energyCost = ec2, BD_isRevealed = True\<rparr>)\<rparr>) =
      Inl Panic"
    using assms(1)
    by (auto simp: processMoves_def committedCombat_def index3_range Let_def)
  have r2: "revealMove keccak (tx 2 0 60) (combatStorage ?g5) 0 mt2 tu2 su2 ec2 salt2 = Inl Panic"
    using pm
    by (simp add: revealMove_def combatStorage_def committedCombat_def tx_def BD_zeroMove_def Let_def
        resolveRound_def)
  have facts: "BD_state (BD_games (combatStorage ?g5) 0) = RevealPhase"
    "revealedMoves (BD_games (combatStorage ?g5) 0) 0 =
       \<lparr>moveType = Attack, targetUnit = tu, sourceUnit = su, energyCost = ec, BD_isRevealed = True\<rparr>"
    "?h2 = moveCommitments (BD_games (combatStorage ?g5) 0) 1"
    "\<not> BD_isRevealed (revealedMoves (BD_games (combatStorage ?g5) 0) 1)"
    by (simp_all add: combatStorage_def committedCombat_def BD_zeroMove_def)
  show ?thesis
    unfolding Let_def s5 t5 using r2 facts by (simp add: BD_settle_def)
qed

theorem revealMove_out_of_bounds_witness:
  "(let calls = combatCalls (toyMoveHash Attack 0 3 0 7) (toyMoveHash Defend 0 0 0 8) @
                  [(tx 1 0 50, RevealMove 0 Attack 0 3 0 7)];
        s = BD_run toyMoveHash calls (BD_deploy 9)
    in (3::nat) \<le> unat (3::uint256) \<and> toyMoveHash Attack 0 3 0 7 \<noteq> 0 \<and>
       toyMoveHash Defend 0 0 0 8 \<noteq> 0 \<and>
       BD_state (BD_games s 0) = RevealPhase \<and>
       revealMove toyMoveHash (tx 2 0 60) s 0 Defend 0 0 0 8 = Inl Panic)"
proof -
  have h: "3 \<le> unat (3::uint256) \<or> 3 \<le> unat (0::uint256)"
    "toyMoveHash Attack 0 3 0 7 \<noteq> 0" "toyMoveHash Defend 0 0 0 8 \<noteq> 0"
    by (simp_all add: toyMoveHash_def)
  have h3: "(3::nat) \<le> unat (3::uint256)"
    by simp
  note th = revealMove_out_of_bounds [where keccak = toyMoveHash and su = 3 and tu = 0 and ec = 0
      and ?salt1.0 = 7 and ?mt2.0 = Defend and ?tu2.0 = 0 and ?su2.0 = 0 and ?ec2.0 = 0
      and ?salt2.0 = 8, OF h, unfolded Let_def]
  show ?thesis
    unfolding Let_def
    by (intro conjI h3 h(2) h(3) th [THEN conjunct2, THEN conjunct1]
        th [THEN conjunct2, THEN conjunct2, THEN conjunct2, THEN conjunct2, THEN conjunct2, THEN conjunct1])
qed



section \<open>Claiming a timeout\<close>

lemma deadline_passed:
  assumes "unat t0 + unat T < unat now"
  shows "checked_add t0 T = Inr (t0 + T)" and "t0 + T < (now :: uint256)"
proof -
  have "unat now < 2 ^ LENGTH(256)"
    by (rule unsigned_less)
  then have "unat now < 2 ^ 256"
    by simp
  then have b: "unat t0 + unat T < 2 ^ 256"
    using assms by linarith
  then show "checked_add t0 T = Inr (t0 + T)"
    by (simp add: checked_add_def)
  have "unat (t0 + T) = unat t0 + unat T"
    using b by (simp add: unat_word_ariths)
  then show "t0 + T < now"
    using assms by (simp add: word_less_nat_alt)
qed

lemma deadline_not_passed:
  assumes "unat now \<le> unat t0 + unat T"
  shows "checked_add t0 T = Inl Panic \<or> (checked_add t0 T = Inr (t0 + T) \<and> \<not> t0 + T < (now :: uint256))"
proof (cases "unat t0 + unat T < 2 ^ 256")
  case True
  then have "unat (t0 + T) = unat t0 + unat T"
    by (simp add: unat_word_ariths)
  then show ?thesis using assms True by (simp add: checked_add_def word_less_nat_alt)
next
  case False
  then show ?thesis by (simp add: checked_add_def)
qed

lemma claimTimeout_refund:
  assumes "msg_value c = 0" and "\<not> paused s" and "state (games s gameId) = MovesCommitted"
    and "unat (lastActionTimestamp (games s gameId)) + unat REVEAL_TIMEOUT < unat (block_timestamp c)"
    and "\<not> isRevealed (elem0 (player1Moves (games s gameId)))"
    and "\<not> isRevealed (elem0 (player2Moves (games s gameId)))"
    and "call_succeeds c (player1 (games s gameId)) (stake (games s gameId))"
    and "call_succeeds c (player2 (games s gameId)) (stake (games s gameId))"
  shows "claimTimeout c s gameId =
     Inr (s\<lparr>games := (games s)(gameId := (games s gameId)\<lparr>state := Finished\<rparr>)\<rparr>,
          [CallValue (player1 (games s gameId)) (stake (games s gameId)),
           CallValue (player2 (games s gameId)) (stake (games s gameId)),
           EmitGameFinished gameId 0 0])"
  using assms(1-3,5-8) deadline_passed [OF assms(4)]
  by (simp add: claimTimeout_def refundPlayers_def Let_def)

lemma claimTimeout_winner:
  assumes "msg_value c = 0" and "\<not> paused s" and "state (games s gameId) = MovesCommitted"
    and "unat (lastActionTimestamp (games s gameId)) + unat REVEAL_TIMEOUT < unat (block_timestamp c)"
    and "isRevealed (elem0 (player1Moves (games s gameId))) \<noteq> isRevealed (elem0 (player2Moves (games s gameId)))"
    and "w = (if isRevealed (elem0 (player1Moves (games s gameId))) then player1 (games s gameId)
              else player2 (games s gameId))"
    and "unat (totalPrize (games s gameId)) * 2 < 2 ^ 256"
    and "call_succeeds c w (totalPrize (games s gameId) - totalPrize (games s gameId) * 2 div 100)"
    and "call_succeeds c (owner s) (totalPrize (games s gameId) * 2 div 100)"
  shows "claimTimeout c s gameId =
     Inr (s\<lparr>games := (games s)(gameId := (games s gameId)\<lparr>state := Finished\<rparr>)\<rparr>,
          [CallValue w (totalPrize (games s gameId) - totalPrize (games s gameId) * 2 div 100),
           CallValue (owner s) (totalPrize (games s gameId) * 2 div 100),
           EmitGameFinished gameId w (totalPrize (games s gameId) - totalPrize (games s gameId) * 2 div 100)])"
  using assms(1-3,5-6) deadline_passed [OF assms(4)]
    endGame_succeeds [OF assms(7) assms(8) assms(9), of gameId]
  by (auto simp add: claimTimeout_def Let_def)

lemma claimTimeout_rejected:
  assumes "state (games s gameId) \<noteq> MovesCommitted \<or>
     unat (block_timestamp c) \<le> unat (lastActionTimestamp (games s gameId)) + unat REVEAL_TIMEOUT"
  shows "isl (claimTimeout c s gameId)"
  using assms deadline_not_passed [of "block_timestamp c" "lastActionTimestamp (games s gameId)" REVEAL_TIMEOUT]
  by (auto simp: claimTimeout_def Let_def)

lemma BD_claimTimeout_refund:
  assumes "msg_value c = 0" and "\<not> BD_paused s" and "BD_state (BD_games s gameId) = RevealPhase"
    and "unat (BD_lastActionTimestamp (BD_games s gameId)) + unat BD_REVEAL_TIMEOUT < unat (block_timestamp c)"
    and "\<not> BD_isRevealed (revealedMoves (BD_games s gameId) 0)"
    and "\<not> BD_isRevealed (revealedMoves (BD_games s gameId) 1)"
    and "call_succeeds c (BD_player1 (BD_games s gameId)) (BD_stake (BD_games s gameId))"
    and "call_succeeds c (BD_player2 (BD_games s gameId)) (BD_stake (BD_games s gameId))"
  shows "BD_claimTimeout c s gameId =
     Inr (s\<lparr>BD_games := (BD_games s)(gameId := (BD_games s gameId)\<lparr>BD_state := BD_Finished\<rparr>)\<rparr>,
          [BD_CallValue (BD_player1 (BD_games s gameId)) (BD_stake (BD_games s gameId)),
           BD_CallValue (BD_player2 (BD_games s gameId)) (BD_stake (BD_games s gameId))])"
  using assms(1-3,5-8) deadline_passed [OF assms(4)]
  by (simp add: BD_claimTimeout_def BD_refundPlayers_def Let_def)

lemma BD_claimTimeout_winner:
  assumes "msg_value c = 0" and "\<not> BD_paused s" and "BD_state (BD_games s gameId) = RevealPhase"
    and "unat (BD_lastActionTimestamp (BD_games s gameId)) + unat BD_REVEAL_TIMEOUT < unat (block_timestamp c)"
    and "BD_isRevealed (revealedMoves (BD_games s gameId) 0) \<noteq> BD_isRevealed (revealedMoves (BD_games s gameId) 1)"
    and "w = (if BD_isRevealed (revealedMoves (BD_games s gameId) 0) then BD_player1 (BD_games s gameId)
              else BD_player2 (BD_games s gameId))"
    and "unat (BD_totalPrize (BD_games s gameId)) * 2 < 2 ^ 256"
    and "call_succeeds c w (BD_totalPrize (BD_games s gameId) - BD_totalPrize (BD_games s gameId) * 2 div 100)"
    and "call_succeeds c (BD_owner s) (BD_totalPrize (BD_games s gameId) * 2 div 100)"
  shows "BD_claimTimeout c s gameId =
     Inr (s\<lparr>BD_games := (BD_games s)(gameId := (BD_games s gameId)\<lparr>BD_state := BD_Finished\<rparr>)\<rparr>,
          [BD_CallValue w (BD_totalPrize (BD_games s gameId) - BD_totalPrize (BD_games s gameId) * 2 div 100),
           BD_CallValue (BD_owner s) (BD_totalPrize (BD_games s gameId) * 2 div 100),
           BD_EmitGameFinished gameId w
             (BD_totalPrize (BD_games s gameId) - BD_totalPrize (BD_games s gameId) * 2 div 100)])"
  using assms(1-3,5-6) deadline_passed [OF assms(4)]
    BD_endGame_succeeds [OF assms(7) assms(8) assms(9), of gameId]
  by (auto simp add: BD_claimTimeout_def Let_def)

lemma BD_claimTimeout_rejected:
  assumes "BD_state (BD_games s gameId) \<noteq> RevealPhase \<or>
     unat (block_timestamp c) \<le> unat (BD_lastActionTimestamp (BD_games s gameId)) + unat BD_REVEAL_TIMEOUT"
  shows "isl (BD_claimTimeout c s gameId)"
  using assms deadline_not_passed [of "block_timestamp c" "BD_lastActionTimestamp (BD_games s gameId)" BD_REVEAL_TIMEOUT]
  by (auto simp: BD_claimTimeout_def Let_def)


text \<open>
  C4. In both contracts, for a game that waits for reveals (MovesCommitted in the
  elemental duel, RevealPhase in the combat duel) and whose \<open>lastActionTimestamp\<close> lies
  more than the reveal timeout back, \<open>claimTimeout\<close> from any caller, sent without value
  while the contract is not paused, does this: when neither player has revealed, it
  finishes the game and sends each player exactly the stake, with no fee; when exactly one
  player has revealed, it finishes the game and settles that player as winner
  (\<open>totalPrize - fee\<close> to the player, \<open>fee\<close> to the owner). The transfers are taken to go
  through and \<open>totalPrize * 2\<close> to fit 256 bits. In any other phase, or when the window has
  not elapsed, the call is rejected and the storage stays as it was.
\<close>

theorem claimTimeout_policy:
  "(let g = games s gameId; fee = totalPrize g * 2 div 100; prize = totalPrize g - fee;
        fin = s\<lparr>games := (games s)(gameId := g\<lparr>state := Finished\<rparr>)\<rparr>
    in (msg_value c = 0 \<and> \<not> paused s \<and> state g = MovesCommitted \<and>
        unat (lastActionTimestamp g) + unat REVEAL_TIMEOUT < unat (block_timestamp c) \<longrightarrow>
          (noneRevealed (player1Moves g) \<and> noneRevealed (player2Moves g) \<and>
           call_succeeds c (player1 g) (stake g) \<and> call_succeeds c (player2 g) (stake g) \<longrightarrow>
             claimTimeout c s gameId =
               Inr (fin, [CallValue (player1 g) (stake g), CallValue (player2 g) (stake g),
                          EmitGameFinished gameId 0 0])) \<and>
          (allRevealed (player1Moves g) \<and> noneRevealed (player2Moves g) \<and>
           unat (totalPrize g) * 2 < 2 ^ 256 \<and>
           call_succeeds c (player1 g) prize \<and> call_succeeds c (owner s) fee \<longrightarrow>
             claimTimeout c s gameId =
               Inr (fin, [CallValue (player1 g) prize, CallValue (owner s) fee,
                          EmitGameFinished gameId (player1 g) prize])) \<and>
          (noneRevealed (player1Moves g) \<and> allRevealed (player2Moves g) \<and>
           unat (totalPrize g) * 2 < 2 ^ 256 \<and>
           call_succeeds c (player2 g) prize \<and> call_succeeds c (owner s) fee \<longrightarrow>
             claimTimeout c s gameId =
               Inr (fin, [CallValue (player2 g) prize, CallValue (owner s) fee,
                          EmitGameFinished gameId (player2 g) prize]))) \<and>
       (state g \<noteq> MovesCommitted \<or>
        unat (block_timestamp c) \<le> unat (lastActionTimestamp g) + unat REVEAL_TIMEOUT \<longrightarrow>
          isl (claimTimeout c s gameId) \<and> fst (exec keccak c (ClaimTimeout gameId) s) = s)) \<and>
   (let g = BD_games bs gameId; fee = BD_totalPrize g * 2 div 100; prize = BD_totalPrize g - fee;
        fin = bs\<lparr>BD_games := (BD_games bs)(gameId := g\<lparr>BD_state := BD_Finished\<rparr>)\<rparr>
    in (msg_value c = 0 \<and> \<not> BD_paused bs \<and> BD_state g = RevealPhase \<and>
        unat (BD_lastActionTimestamp g) + unat BD_REVEAL_TIMEOUT < unat (block_timestamp c) \<longrightarrow>
          (\<not> BD_isRevealed (revealedMoves g 0) \<and> \<not> BD_isRevealed (revealedMoves g 1) \<and>
           call_succeeds c (BD_player1 g) (BD_stake g) \<and> call_succeeds c (BD_player2 g) (BD_stake g) \<longrightarrow>
             BD_claimTimeout c bs gameId =
               Inr (fin, [BD_CallValue (BD_player1 g) (BD_stake g),
                          BD_CallValue (BD_player2 g) (BD_stake g)])) \<and>
          (BD_isRevealed (revealedMoves g 0) \<and> \<not> BD_isRevealed (revealedMoves g 1) \<and>
           unat (BD_totalPrize g) * 2 < 2 ^ 256 \<and>
           call_succeeds c (BD_player1 g) prize \<and> call_succeeds c (BD_owner bs) fee \<longrightarrow>
             BD_claimTimeout c bs gameId =
               Inr (fin, [BD_CallValue (BD_player1 g) prize, BD_CallValue (BD_owner bs) fee,
                          BD_EmitGameFinished gameId (BD_player1 g) prize])) \<and>
          (\<not> BD_isRevealed (revealedMoves g 0) \<and> BD_isRevealed (revealedMoves g 1) \<and>
           unat (BD_totalPrize g) * 2 < 2 ^ 256 \<and>
           call_succeeds c (BD_player2 g) prize \<and> call_succeeds c (BD_owner bs) fee \<longrightarrow>
             BD_claimTimeout c bs gameId =
               Inr (fin, [BD_CallValue (BD_player2 g) prize, BD_CallValue (BD_owner bs) fee,
                          BD_EmitGameFinished gameId (BD_player2 g) prize]))) \<and>
       (BD_state g \<noteq> RevealPhase \<or>
        unat (block_timestamp c) \<le> unat (BD_lastActionTimestamp g) + unat BD_REVEAL_TIMEOUT \<longrightarrow>
          isl (BD_claimTimeout c bs gameId) \<and>
          fst (BD_exec bkeccak c (BD_ClaimTimeout gameId) bs) = bs))"
proof -
  have rej: "\<And>r. isl r \<Longrightarrow> fst (settle s r) = s"
    by (case_tac r) (simp_all add: settle_def)
  have brej: "\<And>r. isl r \<Longrightarrow> fst (BD_settle bs r) = bs"
    by (case_tac r) (simp_all add: BD_settle_def)
  show ?thesis
    unfolding Let_def
  proof (intro conjI impI; (elim conjE)?)
    assume "msg_value c = 0" "\<not> paused s" "state (games s gameId) = MovesCommitted"
      "unat (lastActionTimestamp (games s gameId)) + unat REVEAL_TIMEOUT < unat (block_timestamp c)"
      "noneRevealed (player1Moves (games s gameId))" "noneRevealed (player2Moves (games s gameId))"
      "call_succeeds c (player1 (games s gameId)) (stake (games s gameId))"
      "call_succeeds c (player2 (games s gameId)) (stake (games s gameId))"
    then show "claimTimeout c s gameId =
       Inr (s\<lparr>games := (games s)(gameId := (games s gameId)\<lparr>state := Finished\<rparr>)\<rparr>,
            [CallValue (player1 (games s gameId)) (stake (games s gameId)),
             CallValue (player2 (games s gameId)) (stake (games s gameId)),
             EmitGameFinished gameId 0 0])"
      by (intro claimTimeout_refund) (simp_all add: noneRevealed_def)
  next
    assume "msg_value c = 0" "\<not> paused s" "state (games s gameId) = MovesCommitted"
      "unat (lastActionTimestamp (games s gameId)) + unat REVEAL_TIMEOUT < unat (block_timestamp c)"
      "allRevealed (player1Moves (games s gameId))" "noneRevealed (player2Moves (games s gameId))"
      "unat (totalPrize (games s gameId)) * 2 < 2 ^ 256"
      "call_succeeds c (player1 (games s gameId))
        (totalPrize (games s gameId) - totalPrize (games s gameId) * 2 div 100)"
      "call_succeeds c (owner s) (totalPrize (games s gameId) * 2 div 100)"
    then show "claimTimeout c s gameId =
       Inr (s\<lparr>games := (games s)(gameId := (games s gameId)\<lparr>state := Finished\<rparr>)\<rparr>,
            [CallValue (player1 (games s gameId))
               (totalPrize (games s gameId) - totalPrize (games s gameId) * 2 div 100),
             CallValue (owner s) (totalPrize (games s gameId) * 2 div 100),
             EmitGameFinished gameId (player1 (games s gameId))
               (totalPrize (games s gameId) - totalPrize (games s gameId) * 2 div 100)])"
      by (intro claimTimeout_winner) (simp_all add: noneRevealed_def allRevealed_def)
  next
    assume "msg_value c = 0" "\<not> paused s" "state (games s gameId) = MovesCommitted"
      "unat (lastActionTimestamp (games s gameId)) + unat REVEAL_TIMEOUT < unat (block_timestamp c)"
      "noneRevealed (player1Moves (games s gameId))" "allRevealed (player2Moves (games s gameId))"
      "unat (totalPrize (games s gameId)) * 2 < 2 ^ 256"
      "call_succeeds c (player2 (games s gameId))
        (totalPrize (games s gameId) - totalPrize (games s gameId) * 2 div 100)"
      "call_succeeds c (owner s) (totalPrize (games s gameId) * 2 div 100)"
    then show "claimTimeout c s gameId =
       Inr (s\<lparr>games := (games s)(gameId := (games s gameId)\<lparr>state := Finished\<rparr>)\<rparr>,
            [CallValue (player2 (games s gameId))
               (totalPrize (games s gameId) - totalPrize (games s gameId) * 2 div 100),
             CallValue (owner s) (totalPrize (games s gameId) * 2 div 100),
             EmitGameFinished gameId (player2 (games s gameId))
               (totalPrize (games s gameId) - totalPrize (games s gameId) * 2 div 100)])"
      by (intro claimTimeout_winner) (simp_all add: noneRevealed_def allRevealed_def)
  next
    assume a: "state (games s gameId) \<noteq> MovesCommitted \<or>
      unat (block_timestamp c) \<le> unat (lastActionTimestamp (games s gameId)) + unat REVEAL_TIMEOUT"
    show "isl (claimTimeout c s gameId)"
      by (rule claimTimeout_rejected [OF a])
    then show "fst (exec keccak c (ClaimTimeout gameId) s) = s"
      by (simp add: rej)
  next
    assume "msg_value c = 0" "\<not> BD_paused bs" "BD_state (BD_games bs gameId) = RevealPhase"
      "unat (BD_lastActionTimestamp (BD_games bs gameId)) + unat BD_REVEAL_TIMEOUT < unat (block_timestamp c)"
      "\<not> BD_isRevealed (revealedMoves (BD_games bs gameId) 0)"
      "\<not> BD_isRevealed (revealedMoves (BD_games bs gameId) 1)"
      "call_succeeds c (BD_player1 (BD_games bs gameId)) (BD_stake (BD_games bs gameId))"
      "call_succeeds c (BD_player2 (BD_games bs gameId)) (BD_stake (BD_games bs gameId))"
    then show "BD_claimTimeout c bs gameId =
       Inr (bs\<lparr>BD_games := (BD_games bs)(gameId := (BD_games bs gameId)\<lparr>BD_state := BD_Finished\<rparr>)\<rparr>,
            [BD_CallValue (BD_player1 (BD_games bs gameId)) (BD_stake (BD_games bs gameId)),
             BD_CallValue (BD_player2 (BD_games bs gameId)) (BD_stake (BD_games bs gameId))])"
      by (intro BD_claimTimeout_refund)
  next
    assume "msg_value c = 0" "\<not> BD_paused bs" "BD_state (BD_games bs gameId) = RevealPhase"
      "unat (BD_lastActionTimestamp (BD_games bs gameId)) + unat BD_REVEAL_TIMEOUT < unat (block_timestamp c)"
      "BD_isRevealed (revealedMoves (BD_games bs gameId) 0)"
      "\<not> BD_isRevealed (revealedMoves (BD_games bs gameId) 1)"
      "unat (BD_totalPrize (BD_games bs gameId)) * 2 < 2 ^ 256"
      "call_succeeds c (BD_player1 (BD_games bs gameId))
        (BD_totalPrize (BD_games bs gameId) - BD_totalPrize (BD_games bs gameId) * 2 div 100)"
      "call_succeeds c (BD_owner bs) (BD_totalPrize (BD_games bs gameId) * 2 div 100)"
    then show "BD_claimTimeout c bs gameId =
       Inr (bs\<lparr>BD_games := (BD_games bs)(gameId := (BD_games bs gameId)\<lparr>BD_state := BD_Finished\<rparr>)\<rparr>,
            [BD_CallValue (BD_player1 (BD_games bs gameId))
               (BD_totalPrize (BD_games bs gameId) - BD_totalPrize (BD_games bs gameId) * 2 div 100),
             BD_CallValue (BD_owner bs) (BD_totalPrize (BD_games bs gameId) * 2 div 100),
             BD_EmitGameFinished gameId (BD_player1 (BD_games bs gameId))
               (BD_totalPrize (BD_games bs gameId) - BD_totalPrize (BD_games bs gameId) * 2 div 100)])"
      by (intro BD_claimTimeout_winner) simp_all
  next
    assume "msg_value c = 0" "\<not> BD_paused bs" "BD_state (BD_games bs gameId) = RevealPhase"
      "unat (BD_lastActionTimestamp (BD_games bs gameId)) + unat BD_REVEAL_TIMEOUT < unat (block_timestamp c)"
      "\<not> BD_isRevealed (revealedMoves (BD_games bs gameId) 0)"
      "BD_isRevealed (revealedMoves (BD_games bs gameId) 1)"
      "unat (BD_totalPrize (BD_games bs gameId)) * 2 < 2 ^ 256"
      "call_succeeds c (BD_player2 (BD_games bs gameId))
        (BD_totalPrize (BD_games bs gameId) - BD_totalPrize (BD_games bs gameId) * 2 div 100)"
      "call_succeeds c (BD_owner bs) (BD_totalPrize (BD_games bs gameId) * 2 div 100)"
    then show "BD_claimTimeout c bs gameId =
       Inr (bs\<lparr>BD_games := (BD_games bs)(gameId := (BD_games bs gameId)\<lparr>BD_state := BD_Finished\<rparr>)\<rparr>,
            [BD_CallValue (BD_player2 (BD_games bs gameId))
               (BD_totalPrize (BD_games bs gameId) - BD_totalPrize (BD_games bs gameId) * 2 div 100),
             BD_CallValue (BD_owner bs) (BD_totalPrize (BD_games bs gameId) * 2 div 100),
             BD_EmitGameFinished gameId (BD_player2 (BD_games bs gameId))
               (BD_totalPrize (BD_games bs gameId) - BD_totalPrize (BD_games bs gameId) * 2 div 100)])"
      by (intro BD_claimTimeout_winner) simp_all
  next
    assume a: "BD_state (BD_games bs gameId) \<noteq> RevealPhase \<or>
      unat (block_timestamp c) \<le> unat (BD_lastActionTimestamp (BD_games bs gameId)) + unat BD_REVEAL_TIMEOUT"
    show "isl (BD_claimTimeout c bs gameId)"
      by (rule BD_claimTimeout_rejected [OF a])
    then show "fst (BD_exec bkeccak c (BD_ClaimTimeout gameId) bs) = bs"
      by (simp add: brej)
  qed
qed


lemmas duel_defs = duelStorage_def committedDuel_def joinedDuel_def zeroGame_def zeroMove_def tx_def
  revealedMoves3_def toyHash_def REVEAL_TIMEOUT_def allRevealed_def noneRevealed_def

lemmas combat_defs = combatStorage_def committedCombat_def BD_zeroGame_def BD_zeroMove_def tx_def
  BD_REVEAL_TIMEOUT_def

lemma duel_setup:
  "run toyHash committedCalls (deploy 9) = duelStorage committedDuel"
  by (simp add: ed_eval duel_defs)

theorem claimTimeout_policy_witness:
  "run toyHash committedCalls (deploy 9) = duelStorage committedDuel \<and>
   claimTimeout (tx 3 0 90000) (duelStorage committedDuel) 0 =
     Inr (duelStorage (committedDuel\<lparr>state := Finished\<rparr>),
          [CallValue 1 5, CallValue 2 5, EmitGameFinished 0 0 0]) \<and>
   claimTimeout (tx 3 0 90000)
       (duelStorage (committedDuel\<lparr>player1Moves := revealedMoves3 Fire Water Earth\<rparr>)) 0 =
     Inr (duelStorage (committedDuel\<lparr>player1Moves := revealedMoves3 Fire Water Earth,
                                      state := Finished\<rparr>),
          [CallValue 1 10, CallValue 9 0, EmitGameFinished 0 1 10]) \<and>
   isl (claimTimeout (tx 3 0 100) (duelStorage committedDuel) 0) \<and>
   fst (exec toyHash (tx 3 0 100) (ClaimTimeout 0) (duelStorage committedDuel)) =
     duelStorage committedDuel \<and>
   BD_claimTimeout (tx 3 0 90000) (combatStorage (committedCombat 7 8)) 0 =
     Inr (combatStorage ((committedCombat 7 8)\<lparr>BD_state := BD_Finished\<rparr>),
          [BD_CallValue 1 5, BD_CallValue 2 5])"
proof -
  let ?s = "duelStorage committedDuel"
  let ?s1 = "duelStorage (committedDuel\<lparr>player1Moves := revealedMoves3 Fire Water Earth\<rparr>)"
  let ?bs = "combatStorage (committedCombat 7 8)"
  let ?c = "tx 3 0 90000"
  note th = claimTimeout_policy [where s = ?s and c = ?c and gameId = 0 and bs = ?bs
      and keccak = toyHash and bkeccak = toyMoveHash, unfolded Let_def]
  note th1 = claimTimeout_policy [where s = ?s1 and c = ?c and gameId = 0 and bs = ?bs
      and keccak = toyHash and bkeccak = toyMoveHash, unfolded Let_def]
  note th2 = claimTimeout_policy [where s = ?s and c = "tx 3 0 100" and gameId = 0 and bs = ?bs
      and keccak = toyHash and bkeccak = toyMoveHash, unfolded Let_def]
  have H: "msg_value ?c = 0 \<and> \<not> paused ?s \<and> state (games ?s 0) = MovesCommitted \<and>
      unat (lastActionTimestamp (games ?s 0)) + unat REVEAL_TIMEOUT < unat (block_timestamp ?c)"
    by (simp add: duel_defs)
  have HA: "noneRevealed (player1Moves (games ?s 0)) \<and> noneRevealed (player2Moves (games ?s 0)) \<and>
      call_succeeds ?c (player1 (games ?s 0)) (stake (games ?s 0)) \<and>
      call_succeeds ?c (player2 (games ?s 0)) (stake (games ?s 0))"
    by (simp add: duel_defs)
  have H1: "msg_value ?c = 0 \<and> \<not> paused ?s1 \<and> state (games ?s1 0) = MovesCommitted \<and>
      unat (lastActionTimestamp (games ?s1 0)) + unat REVEAL_TIMEOUT < unat (block_timestamp ?c)"
    by (simp add: duel_defs)
  have HB: "allRevealed (player1Moves (games ?s1 0)) \<and> noneRevealed (player2Moves (games ?s1 0)) \<and>
      unat (totalPrize (games ?s1 0)) * 2 < 2 ^ 256 \<and>
      call_succeeds ?c (player1 (games ?s1 0))
        (totalPrize (games ?s1 0) - totalPrize (games ?s1 0) * 2 div 100) \<and>
      call_succeeds ?c (owner ?s1) (totalPrize (games ?s1 0) * 2 div 100)"
    by (simp add: duel_defs)
  have HR: "state (games ?s 0) \<noteq> MovesCommitted \<or>
      unat (block_timestamp (tx 3 0 100)) \<le> unat (lastActionTimestamp (games ?s 0)) + unat REVEAL_TIMEOUT"
    by (simp add: duel_defs)
  have BH: "msg_value ?c = 0 \<and> \<not> BD_paused ?bs \<and> BD_state (BD_games ?bs 0) = RevealPhase \<and>
      unat (BD_lastActionTimestamp (BD_games ?bs 0)) + unat BD_REVEAL_TIMEOUT < unat (block_timestamp ?c)"
    by (simp add: combat_defs)
  have BA: "\<not> BD_isRevealed (revealedMoves (BD_games ?bs 0) 0) \<and>
      \<not> BD_isRevealed (revealedMoves (BD_games ?bs 0) 1) \<and>
      call_succeeds ?c (BD_player1 (BD_games ?bs 0)) (BD_stake (BD_games ?bs 0)) \<and>
      call_succeeds ?c (BD_player2 (BD_games ?bs 0)) (BD_stake (BD_games ?bs 0))"
    by (simp add: combat_defs)
  note a = th [THEN conjunct1, THEN conjunct1, THEN mp, OF H, THEN conjunct1, THEN mp, OF HA]
  note b = th1 [THEN conjunct1, THEN conjunct1, THEN mp, OF H1, THEN conjunct2, THEN conjunct1,
      THEN mp, OF HB]
  note r = th2 [THEN conjunct1, THEN conjunct2, THEN mp, OF HR]
  note ba = th [THEN conjunct2, THEN conjunct1, THEN mp, OF BH, THEN conjunct1, THEN mp, OF BA]
  have a': "claimTimeout ?c ?s 0 =
     Inr (duelStorage (committedDuel\<lparr>state := Finished\<rparr>),
          [CallValue 1 5, CallValue 2 5, EmitGameFinished 0 0 0])"
    by (subst a) (simp add: duel_defs)
  have b': "claimTimeout ?c ?s1 0 =
     Inr (duelStorage (committedDuel\<lparr>player1Moves := revealedMoves3 Fire Water Earth,
                                      state := Finished\<rparr>),
          [CallValue 1 10, CallValue 9 0, EmitGameFinished 0 1 10])"
    by (subst b) (simp add: duel_defs)
  have ba': "BD_claimTimeout ?c ?bs 0 =
     Inr (combatStorage ((committedCombat 7 8)\<lparr>BD_state := BD_Finished\<rparr>),
          [BD_CallValue 1 5, BD_CallValue 2 5])"
    by (subst ba) (simp add: combat_defs)
  show ?thesis
    by (intro conjI duel_setup a' b' ba' r [THEN conjunct1] r [THEN conjunct2])
qed



section \<open>One transaction of the combat duel, seen from one game\<close>

lemma BD_endGame_pays:
  "BD_endGame c own gid g w = Inr (g', effs) \<Longrightarrow>
     g' = g\<lparr>BD_state := BD_Finished\<rparr> \<and> list_ex BD_isCallValue effs"
  by (auto simp: BD_endGame_def Let_def split: sum.splits if_splits)

lemma BD_refundPlayers_pays:
  "BD_refundPlayers c gid g = Inr (g', effs) \<Longrightarrow>
     g' = g\<lparr>BD_state := BD_Finished\<rparr> \<and> list_ex BD_isCallValue effs"
  by (auto simp: BD_refundPlayers_def Let_def split: sum.splits if_splits)

lemma resolveRound_pays:
  assumes "resolveRound c own gid g = Inr (g', effs)"
  shows "BD_state g' = (if list_ex BD_isCallValue effs then BD_Finished else CommitPhase)"
    and "BD_isInitialized g' = BD_isInitialized g"
proof -
  obtain g1 where pm: "processMoves g = Inr g1"
    using assms by (auto simp: resolveRound_def split: sum.splits)
  note u = processMoves_untouched [OF pm]
  show "BD_state g' = (if list_ex BD_isCallValue effs then BD_Finished else CommitPhase)"
    using assms pm
    by (auto simp: resolveRound_def lostLoop_0 checked_add_def
        split: if_splits dest!: BD_endGame_pays)
  show "BD_isInitialized g' = BD_isInitialized g"
    using assms pm u
    by (auto simp: resolveRound_def lostLoop_0 checked_add_def BD_untouched_def
        split: if_splits dest!: BD_endGame_pays)
qed

lemma BD_createGame_Inr:
  assumes "BD_createGame c s = Inr (s', effs, gid)"
  shows "gid = BD_nextGameId s" and "unat (BD_nextGameId s') = unat (BD_nextGameId s) + 1"
    and "\<And>g. g \<noteq> gid \<Longrightarrow> BD_games s' g = BD_games s g"
  using assms
  by (auto simp: BD_createGame_def checked_add_def Let_def unat_word_ariths initUnitsLoop_0
      split: if_splits)

lemma BD_joinGame_Inr:
  assumes "BD_joinGame c s gid = Inr (s', effs)"
  shows "BD_state (BD_games s gid) = BD_Created" and "BD_isInitialized (BD_games s gid)"
    and "BD_state (BD_games s' gid) = CommitPhase" and "BD_isInitialized (BD_games s' gid)"
    and "BD_nextGameId s' = BD_nextGameId s"
    and "\<And>g. g \<noteq> gid \<Longrightarrow> BD_games s' g = BD_games s g"
    and "effs = [BD_EmitPlayerJoined gid (msg_sender c)]"
  using assms
  by (auto simp: BD_joinGame_def checked_mul_def Let_def initUnitsLoop_0 split: if_splits)

lemma commitMove_frame:
  assumes "commitMove c s gid h = Inr (s', effs)"
  shows "BD_state (BD_games s gid) = CommitPhase"
    and "BD_state (BD_games s' gid) = CommitPhase \<or> BD_state (BD_games s' gid) = RevealPhase"
    and "BD_nextGameId s' = BD_nextGameId s"
    and "\<And>g. g \<noteq> gid \<Longrightarrow> BD_games s' g = BD_games s g"
    and "effs = [EmitMoveCommitted gid (msg_sender c)]"
  using assms
  by (auto simp: commitMove_def Let_def split: if_splits)

lemma BD_claimTimeout_Inr:
  assumes "BD_claimTimeout c s gid = Inr (s', effs)"
  shows "BD_state (BD_games s gid) = RevealPhase"
    and "BD_state (BD_games s' gid) = BD_Finished"
    and "BD_nextGameId s' = BD_nextGameId s"
    and "\<And>g. g \<noteq> gid \<Longrightarrow> BD_games s' g = BD_games s g"
  using assms
  by (auto simp: BD_claimTimeout_def Let_def split: if_splits sum.splits
      dest!: BD_endGame_pays BD_refundPlayers_pays)

lemma revealMove_Inr:
  assumes "revealMove k c s gid mt tu su ec salt = Inr (s', effs)"
  shows "BD_state (BD_games s gid) = RevealPhase"
    and "BD_state (BD_games s' gid) \<noteq> BD_Created"
    and "BD_pays (Inr effs) \<longrightarrow> BD_state (BD_games s' gid) = BD_Finished"
    and "BD_nextGameId s' = BD_nextGameId s"
    and "\<And>g. g \<noteq> gid \<Longrightarrow> BD_games s' g = BD_games s g"
proof -
  let ?g = "BD_games s gid"
  have v: "msg_value c = 0" and p: "\<not> BD_paused s"
    using assms by (simp_all add: revealMove_def split: if_splits)
  show st: "BD_state ?g = RevealPhase"
    using assms v p by (simp add: revealMove_def Let_def split: if_splits)
  define idx :: uint256 where "idx = (if msg_sender c = BD_player1 ?g then 0 else 1)"
  define gm where "gm = ?g\<lparr>revealedMoves := (revealedMoves ?g)(idx :=
       \<lparr>moveType = mt, targetUnit = tu, sourceUnit = su, energyCost = ec, BD_isRevealed = True\<rparr>)\<rparr>"
  have rest: "(if BD_isRevealed (revealedMoves gm 0) \<and> BD_isRevealed (revealedMoves gm 1) then
       (case resolveRound c (BD_owner s) gid gm of Inl e \<Rightarrow> Inl e
        | Inr (game', effs) \<Rightarrow>
          Inr (s\<lparr>BD_games := (BD_games s)(gid := game')\<rparr>,
               EmitMoveRevealed gid (msg_sender c) mt # effs))
     else Inr (s\<lparr>BD_games := (BD_games s)(gid := gm)\<rparr>,
               [EmitMoveRevealed gid (msg_sender c) mt])) = Inr (s', effs)"
    using assms v p st unfolding gm_def idx_def
    by (simp add: revealMove_def Let_def split: if_splits)
  have fin: "BD_state (BD_games s' gid) \<noteq> BD_Created \<and>
      (BD_pays (Inr effs) \<longrightarrow> BD_state (BD_games s' gid) = BD_Finished) \<and>
      BD_nextGameId s' = BD_nextGameId s \<and> (\<forall>g. g \<noteq> gid \<longrightarrow> BD_games s' g = BD_games s g)"
  proof (cases "BD_isRevealed (revealedMoves gm 0) \<and> BD_isRevealed (revealedMoves gm 1)")
    case True
    with rest obtain g' effs' where rg: "resolveRound c (BD_owner s) gid gm = Inr (g', effs')"
      and s': "s' = s\<lparr>BD_games := (BD_games s)(gid := g')\<rparr>"
      and e: "effs = EmitMoveRevealed gid (msg_sender c) mt # effs'"
      by (auto split: sum.splits)
    from resolveRound_pays(1) [OF rg] s' e show ?thesis
      by (auto simp: BD_pays_def split: if_splits)
  next
    case False
    with rest have "s' = s\<lparr>BD_games := (BD_games s)(gid := gm)\<rparr>"
      "effs = [EmitMoveRevealed gid (msg_sender c) mt]"
      by auto
    then show ?thesis
      using st by (simp add: BD_pays_def gm_def)
  qed
  then show "BD_state (BD_games s' gid) \<noteq> BD_Created"
    "BD_pays (Inr effs) \<longrightarrow> BD_state (BD_games s' gid) = BD_Finished"
    "BD_nextGameId s' = BD_nextGameId s"
    "\<And>g. g \<noteq> gid \<Longrightarrow> BD_games s' g = BD_games s g"
    by simp_all
qed


lemma BD_admin_games:
  "BD_pause c s = Inr (s', effs) \<Longrightarrow> BD_games s' = BD_games s \<and> BD_nextGameId s' = BD_nextGameId s \<and> effs = []"
  "BD_unpause c s = Inr (s', effs) \<Longrightarrow> BD_games s' = BD_games s \<and> BD_nextGameId s' = BD_nextGameId s \<and> effs = []"
  "BD_transferOwnership c s a = Inr (s', effs) \<Longrightarrow> BD_games s' = BD_games s \<and> BD_nextGameId s' = BD_nextGameId s \<and> effs = []"
  "BD_renounceOwnership c s = Inr (s', effs) \<Longrightarrow> BD_games s' = BD_games s \<and> BD_nextGameId s' = BD_nextGameId s \<and> effs = []"
  by (auto simp: BD_pause_def BD_unpause_def BD_transferOwnership_def BD_renounceOwnership_def
      split: if_splits)

lemma BD_exec_game_cases:
  fixes k c cl s gid
  defines "s' \<equiv> fst (BD_exec k c cl s)" and "r \<equiv> snd (BD_exec k c cl s)"
  shows "(s' = s \<and> isl r) \<or>
     (BD_games s' gid = BD_games s gid \<and> unat (BD_nextGameId s) \<le> unat (BD_nextGameId s') \<and>
      \<not> (BD_addresses cl gid \<and> BD_pays r) \<and> (cl = BD_CreateGame \<longrightarrow> gid \<noteq> BD_nextGameId s)) \<or>
     (cl = BD_CreateGame \<and> gid = BD_nextGameId s \<and>
      unat (BD_nextGameId s') = unat (BD_nextGameId s) + 1) \<or>
     (cl = BD_JoinGame gid \<and> BD_joinGame c s gid = Inr (s', projr r)) \<or>
     (\<exists>h. cl = CommitMove gid h \<and> commitMove c s gid h = Inr (s', projr r)) \<or>
     (\<exists>mt tu su ec salt. cl = RevealMove gid mt tu su ec salt \<and>
        revealMove k c s gid mt tu su ec salt = Inr (s', projr r)) \<or>
     (cl = BD_ClaimTimeout gid \<and> BD_claimTimeout c s gid = Inr (s', projr r))"
proof (cases cl)
  case BD_CreateGame
  show ?thesis
  proof (cases "BD_createGame c s")
    case (Inl e)
    then show ?thesis unfolding s'_def r_def BD_CreateGame by simp
  next
    case (Inr x)
    then obtain s1 effs g0 where x: "BD_createGame c s = Inr (s1, effs, g0)" by (cases x) auto
    note f = BD_createGame_Inr [OF x]
    have e: "s' = s1" "r = Inr effs" unfolding s'_def r_def BD_CreateGame using x by simp_all
    show ?thesis
    proof (cases "gid = BD_nextGameId s")
      case True
      then show ?thesis using f e BD_CreateGame by simp
    next
      case False
      then have "BD_games s1 gid = BD_games s gid" using f(1) f(3) by simp
      then show ?thesis using False f(2) e BD_CreateGame by simp
    qed
  qed
next
  case (BD_JoinGame g)
  show ?thesis
  proof (cases "BD_joinGame c s g")
    case (Inl e)
    then show ?thesis unfolding s'_def r_def BD_JoinGame by (simp add: BD_settle_def)
  next
    case (Inr x)
    then obtain s1 effs where x: "BD_joinGame c s g = Inr (s1, effs)" by (cases x) auto
    have e: "s' = s1" "r = Inr effs" unfolding s'_def r_def BD_JoinGame using x
      by (simp_all add: BD_settle_def)
    show ?thesis
    proof (cases "g = gid")
      case True
      then show ?thesis using x e BD_JoinGame by simp
    next
      case False
      then show ?thesis using BD_joinGame_Inr(5) [OF x] BD_joinGame_Inr(6) [OF x, of gid] e BD_JoinGame
        by simp
    qed
  qed
next
  case (CommitMove g h)
  show ?thesis
  proof (cases "commitMove c s g h")
    case (Inl e)
    then show ?thesis unfolding s'_def r_def CommitMove by (simp add: BD_settle_def)
  next
    case (Inr x)
    then obtain s1 effs where x: "commitMove c s g h = Inr (s1, effs)" by (cases x) auto
    have e: "s' = s1" "r = Inr effs" unfolding s'_def r_def CommitMove using x
      by (simp_all add: BD_settle_def)
    show ?thesis
    proof (cases "g = gid")
      case True
      then show ?thesis using x e CommitMove by simp
    next
      case False
      then show ?thesis using commitMove_frame(3) [OF x] commitMove_frame(4) [OF x, of gid] e CommitMove
        by simp
    qed
  qed
next
  case (RevealMove g mt tu su ec salt)
  show ?thesis
  proof (cases "revealMove k c s g mt tu su ec salt")
    case (Inl e)
    then show ?thesis unfolding s'_def r_def RevealMove by (simp add: BD_settle_def)
  next
    case (Inr x)
    then obtain s1 effs where x: "revealMove k c s g mt tu su ec salt = Inr (s1, effs)"
      by (cases x) auto
    have e: "s' = s1" "r = Inr effs" unfolding s'_def r_def RevealMove using x
      by (simp_all add: BD_settle_def)
    show ?thesis
    proof (cases "g = gid")
      case True
      then show ?thesis using x e RevealMove by simp
    next
      case False
      then show ?thesis using revealMove_Inr(4) [OF x] revealMove_Inr(5) [OF x, of gid] e RevealMove
        by simp
    qed
  qed
next
  case (BD_ClaimTimeout g)
  show ?thesis
  proof (cases "BD_claimTimeout c s g")
    case (Inl e)
    then show ?thesis unfolding s'_def r_def BD_ClaimTimeout by (simp add: BD_settle_def)
  next
    case (Inr x)
    then obtain s1 effs where x: "BD_claimTimeout c s g = Inr (s1, effs)" by (cases x) auto
    have e: "s' = s1" "r = Inr effs" unfolding s'_def r_def BD_ClaimTimeout using x
      by (simp_all add: BD_settle_def)
    show ?thesis
    proof (cases "g = gid")
      case True
      then show ?thesis using x e BD_ClaimTimeout by simp
    next
      case False
      then show ?thesis
        using BD_claimTimeout_Inr(3) [OF x] BD_claimTimeout_Inr(4) [OF x, of gid] e BD_ClaimTimeout
        by simp
    qed
  qed
next
  case BD_Pause
  show ?thesis
    unfolding s'_def r_def BD_Pause
    by (cases "BD_pause c s") (auto simp: BD_settle_def BD_pays_def dest: BD_admin_games)
next
  case BD_Unpause
  show ?thesis
    unfolding s'_def r_def BD_Unpause
    by (cases "BD_unpause c s") (auto simp: BD_settle_def BD_pays_def dest: BD_admin_games)
next
  case (BD_TransferOwnership a)
  show ?thesis
    unfolding s'_def r_def BD_TransferOwnership
    by (cases "BD_transferOwnership c s a") (auto simp: BD_settle_def BD_pays_def dest: BD_admin_games)
next
  case BD_RenounceOwnership
  show ?thesis
    unfolding s'_def r_def BD_RenounceOwnership
    by (cases "BD_renounceOwnership c s") (auto simp: BD_settle_def BD_pays_def dest: BD_admin_games)
qed


lemma BD_exec_Finished:
  assumes "BD_state (BD_games s gid) = BD_Finished" and "unat gid < unat (BD_nextGameId s)"
  shows "BD_games (fst (BD_exec k c cl s)) gid = BD_games s gid"
    and "unat gid < unat (BD_nextGameId (fst (BD_exec k c cl s)))"
    and "\<not> (BD_addresses cl gid \<and> BD_pays (snd (BD_exec k c cl s)))"
proof -
  let ?s' = "fst (BD_exec k c cl s)" and ?r = "snd (BD_exec k c cl s)"
  have ne: "gid \<noteq> BD_nextGameId s" using assms(2) by auto
  have "(?s' = s \<and> isl ?r) \<or>
     (BD_games ?s' gid = BD_games s gid \<and> unat (BD_nextGameId s) \<le> unat (BD_nextGameId ?s') \<and>
      \<not> (BD_addresses cl gid \<and> BD_pays ?r))"
    using BD_exec_game_cases [of k c cl s gid] assms(1) ne
    by (auto dest: BD_joinGame_Inr(1) commitMove_frame(1) revealMove_Inr(1) BD_claimTimeout_Inr(1))
  then have "BD_games ?s' gid = BD_games s gid \<and> unat gid < unat (BD_nextGameId ?s') \<and>
      \<not> (BD_addresses cl gid \<and> BD_pays ?r)"
    using assms(2) by (cases ?r) (auto simp: BD_pays_def)
  then show "BD_games ?s' gid = BD_games s gid" "unat gid < unat (BD_nextGameId ?s')"
    "\<not> (BD_addresses cl gid \<and> BD_pays ?r)" by simp_all
qed

lemma BD_run_Finished:
  assumes "BD_state (BD_games s gid) = BD_Finished" and "unat gid < unat (BD_nextGameId s)"
  shows "BD_games (BD_run k calls s) gid = BD_games s gid \<and> BD_settlements k gid calls s = 0"
  using assms
proof (induction calls arbitrary: s)
  case Nil
  then show ?case by simp
next
  case (Cons a calls)
  obtain c cl where a: "a = (c, cl)" by (cases a)
  note f = BD_exec_Finished [OF Cons.prems, where k = k and c = c and cl = cl]
  have "BD_state (BD_games (fst (BD_exec k c cl s)) gid) = BD_Finished" using f(1) Cons.prems(1) by simp
  from Cons.IH [OF this f(2)] f(1) f(3) show ?case by (simp add: a)
qed

lemma BD_exec_unborn:
  assumes "\<forall>g. unat (BD_nextGameId s) \<le> unat g \<longrightarrow> BD_unborn (BD_games s g)"
    and "unat (BD_nextGameId (fst (BD_exec k c cl s))) \<le> unat gid"
  shows "BD_unborn (BD_games (fst (BD_exec k c cl s)) gid)"
proof -
  let ?s' = "fst (BD_exec k c cl s)" and ?r = "snd (BD_exec k c cl s)"
  note cs = BD_exec_game_cases [of k c cl s gid]
  from cs show ?thesis
  proof (elim disjE conjE exE)
    assume "?s' = s"
    then show ?thesis using assms by simp
  next
    assume "BD_games ?s' gid = BD_games s gid" "unat (BD_nextGameId s) \<le> unat (BD_nextGameId ?s')"
    then show ?thesis using assms by simp
  next
    assume "gid = BD_nextGameId s" "unat (BD_nextGameId ?s') = unat (BD_nextGameId s) + 1"
    then show ?thesis using assms(2) by simp
  next
    assume x: "BD_joinGame c s gid = Inr (?s', projr ?r)"
    from BD_joinGame_Inr(2) [OF x] BD_joinGame_Inr(5) [OF x] assms show ?thesis
      by (auto simp: BD_unborn_def)
  next
    fix h assume x: "commitMove c s gid h = Inr (?s', projr ?r)"
    from commitMove_frame(1) [OF x] commitMove_frame(3) [OF x] assms show ?thesis
      by (auto simp: BD_unborn_def)
  next
    fix mt tu su ec salt assume x: "revealMove k c s gid mt tu su ec salt = Inr (?s', projr ?r)"
    from revealMove_Inr(1) [OF x] revealMove_Inr(4) [OF x] assms show ?thesis
      by (auto simp: BD_unborn_def)
  next
    assume x: "BD_claimTimeout c s gid = Inr (?s', projr ?r)"
    from BD_claimTimeout_Inr(1) [OF x] BD_claimTimeout_Inr(3) [OF x] assms show ?thesis
      by (auto simp: BD_unborn_def)
  qed
qed

lemma BD_exec_pays:
  assumes "BD_addresses cl gid" and "BD_pays (snd (BD_exec k c cl s))"
  shows "BD_state (BD_games s gid) = RevealPhase"
    and "BD_state (BD_games (fst (BD_exec k c cl s)) gid) = BD_Finished"
    and "BD_nextGameId (fst (BD_exec k c cl s)) = BD_nextGameId s"
proof -
  let ?s' = "fst (BD_exec k c cl s)" and ?r = "snd (BD_exec k c cl s)"
  obtain effs where r: "?r = Inr effs" and cv: "list_ex BD_isCallValue effs"
    using assms(2) by (cases ?r) (auto simp: BD_pays_def)
  have nj: "BD_joinGame c s gid \<noteq> Inr (?s', effs)"
    using cv by (auto dest: BD_joinGame_Inr(7))
  have nc: "\<And>h. commitMove c s gid h \<noteq> Inr (?s', effs)"
    using cv by (auto dest: commitMove_frame(5))
  have pr: "projr ?r = effs" using r by simp
  have py: "BD_pays (Inr effs)" using assms(2) r by simp
  from BD_exec_game_cases [of k c cl s gid]
  have "BD_state (BD_games s gid) = RevealPhase \<and> BD_state (BD_games ?s' gid) = BD_Finished \<and>
     BD_nextGameId ?s' = BD_nextGameId s"
  proof (elim disjE conjE exE)
    assume "isl ?r"
    then show ?thesis by (simp add: r)
  next
    assume "\<not> (BD_addresses cl gid \<and> BD_pays ?r)"
    then show ?thesis using assms by simp
  next
    assume "cl = BD_CreateGame"
    then show ?thesis using assms(1) by simp
  next
    assume "BD_joinGame c s gid = Inr (?s', projr ?r)"
    then show ?thesis using nj pr by simp
  next
    fix h assume "commitMove c s gid h = Inr (?s', projr ?r)"
    then show ?thesis using nc pr by simp
  next
    fix mt tu su ec salt
    assume "revealMove k c s gid mt tu su ec salt = Inr (?s', projr ?r)"
    then have x: "revealMove k c s gid mt tu su ec salt = Inr (?s', effs)" by (simp only: pr)
    from revealMove_Inr(1) [OF x] revealMove_Inr(3) [OF x] revealMove_Inr(4) [OF x] py
    show ?thesis by simp
  next
    assume x: "BD_claimTimeout c s gid = Inr (?s', projr ?r)"
    from BD_claimTimeout_Inr(1) [OF x] BD_claimTimeout_Inr(2) [OF x] BD_claimTimeout_Inr(3) [OF x]
    show ?thesis by simp
  qed
  then show "BD_state (BD_games s gid) = RevealPhase" "BD_state (BD_games ?s' gid) = BD_Finished"
    "BD_nextGameId ?s' = BD_nextGameId s" by simp_all
qed

lemma BD_settlements_le_1:
  assumes "\<forall>g. unat (BD_nextGameId s) \<le> unat g \<longrightarrow> BD_unborn (BD_games s g)"
  shows "BD_settlements k gid calls s \<le> 1"
  using assms
proof (induction calls arbitrary: s)
  case Nil
  then show ?case by simp
next
  case (Cons a calls)
  obtain c cl where a: "a = (c, cl)" by (cases a)
  let ?s' = "fst (BD_exec k c cl s)"
  show ?case
  proof (cases "BD_addresses cl gid \<and> BD_pays (snd (BD_exec k c cl s))")
    case True
    note p = BD_exec_pays [where cl = cl and gid = gid and k = k and c = c and s = s]
    have "unat gid < unat (BD_nextGameId s)"
    proof (rule ccontr)
      assume "\<not> unat gid < unat (BD_nextGameId s)"
      then have "BD_unborn (BD_games s gid)" using Cons.prems by simp
      then show False using p(1) True by (simp add: BD_unborn_def)
    qed
    then have "unat gid < unat (BD_nextGameId ?s')" using p(3) True by simp
    from BD_run_Finished [OF _ this, of k calls] p(2) True have "BD_settlements k gid calls ?s' = 0"
      by simp
    then show ?thesis using True by (simp add: a)
  next
    case False
    have "\<forall>g. unat (BD_nextGameId ?s') \<le> unat g \<longrightarrow> BD_unborn (BD_games ?s' g)"
      using BD_exec_unborn [OF Cons.prems] by blast
    from Cons.IH [OF this] False show ?thesis by (auto simp: a)
  qed
qed

lemma BD_deploy_unborn: "BD_unborn (BD_games (BD_deploy d) g)"
  by (simp add: BD_deploy_def BD_zeroGame_def BD_unborn_def)



section \<open>No round eliminates both rosters\<close>






















section \<open>A finished game stays finished\<close>

lemma exec_rejects_Finished:
  assumes "state (games s gid) = Finished" and "addresses cl gid"
  shows "fst (exec k c cl s) = s \<and> isl (snd (exec k c cl s))"
  using assms
  by (cases cl)
     (simp_all add: joinGame_def commitMoves_def revealMoves_def claimTimeout_def settle_def Let_def)

lemma BD_exec_rejects_Finished:
  assumes "BD_state (BD_games s gid) = BD_Finished" and "BD_addresses cl gid"
  shows "fst (BD_exec k c cl s) = s \<and> isl (snd (BD_exec k c cl s))"
  using assms
  by (cases cl)
     (simp_all add: BD_joinGame_def commitMove_def revealMove_def BD_claimTimeout_def BD_settle_def
       Let_def)

text \<open>
  C8. Once a game's phase is Finished, every call that names it (joinGame, the commit, the
  reveal, claimTimeout) is rejected in both contracts and leaves the storage untouched,
  and \<open>getGameState\<close> still answers with phase Finished. In both contracts, for a game
  whose identifier has been handed out, no later sequence of transactions changes the
  game's record (nor, in the elemental duel, what \<open>getGameState\<close> returns) or transfers
  value for it; and in any sequence of transactions from deployment at most one
  transaction transfers value for a given game: settlement happens at most once.
\<close>

theorem finished_is_final:
  "(state (games s gameId) = Finished \<longrightarrow>
      (addresses cl gameId \<longrightarrow>
         fst (exec keccak c cl s) = s \<and> isl (snd (exec keccak c cl s))) \<and>
      fst (snd (snd (snd (getGameState s gameId)))) = Finished \<and>
      (unat gameId < unat (nextGameId s) \<longrightarrow>
         games (run keccak calls s) gameId = games s gameId \<and>
         getGameState (run keccak calls s) gameId = getGameState s gameId \<and>
         settlements keccak gameId calls s = 0)) \<and>
   settlements keccak gameId calls (deploy d) \<le> 1 \<and>
   (BD_state (BD_games bs gameId) = BD_Finished \<longrightarrow>
      (BD_addresses bcl gameId \<longrightarrow>
         fst (BD_exec bkeccak c bcl bs) = bs \<and> isl (snd (BD_exec bkeccak c bcl bs))) \<and>
      (unat gameId < unat (BD_nextGameId bs) \<longrightarrow>
         BD_games (BD_run bkeccak bcalls bs) gameId = BD_games bs gameId \<and>
         BD_settlements bkeccak gameId bcalls bs = 0)) \<and>
   BD_settlements bkeccak gameId bcalls (BD_deploy d) \<le> 1"
proof (intro conjI impI)
  assume f: "state (games s gameId) = Finished"
  show "fst (snd (snd (snd (getGameState s gameId)))) = Finished"
    using f by (simp add: getGameState_def Let_def)
  {
    assume "addresses cl gameId"
    from exec_rejects_Finished [OF f this]
    show "fst (exec keccak c cl s) = s" "isl (snd (exec keccak c cl s))"
      by simp_all
  }
  {
    assume n: "unat gameId < unat (nextGameId s)"
    note r = run_Finished [OF f n, of keccak calls]
    from r show "games (run keccak calls s) gameId = games s gameId"
      by simp
    then show "getGameState (run keccak calls s) gameId = getGameState s gameId"
      by (simp add: getGameState_def)
    from r show "settlements keccak gameId calls s = 0"
      by simp
  }
next
  have "\<forall>g. unat (nextGameId (deploy d)) \<le> unat g \<longrightarrow> unborn (games (deploy d) g)"
    by (simp add: deploy_unborn)
  then show "settlements keccak gameId calls (deploy d) \<le> 1"
    by (rule settlements_le_1)
next
  assume f: "BD_state (BD_games bs gameId) = BD_Finished"
  {
    assume "BD_addresses bcl gameId"
    from BD_exec_rejects_Finished [OF f this]
    show "fst (BD_exec bkeccak c bcl bs) = bs" "isl (snd (BD_exec bkeccak c bcl bs))"
      by simp_all
  }
  {
    assume n: "unat gameId < unat (BD_nextGameId bs)"
    note r = BD_run_Finished [OF f n, of bkeccak bcalls]
    from r show "BD_games (BD_run bkeccak bcalls bs) gameId = BD_games bs gameId"
      by simp
    from r show "BD_settlements bkeccak gameId bcalls bs = 0"
      by simp
  }
next
  have "\<forall>g. unat (BD_nextGameId (BD_deploy d)) \<le> unat g \<longrightarrow>
      BD_unborn (BD_games (BD_deploy d) g)"
    by (simp add: BD_deploy_unborn)
  then show "BD_settlements bkeccak gameId bcalls (BD_deploy d) \<le> 1"
    by (rule BD_settlements_le_1)
qed

theorem finished_is_final_witness:
  "(let s = duelStorage (committedDuel\<lparr>state := Finished\<rparr>);
        bs = combatStorage ((committedCombat 7 8)\<lparr>BD_state := BD_Finished\<rparr>);
        calls = [(tx 3 0 99999, ClaimTimeout 0),
                 (tx 1 0 99999, RevealMoves 0 (Arr3 Fire Water Earth) (Arr3 11 12 13))];
        bcalls = [(tx 3 0 99999, BD_ClaimTimeout 0), (tx 4 5 99999, BD_JoinGame 0)]
    in run toyHash (committedCalls @ [(tx 3 0 90000, ClaimTimeout 0)]) (deploy 9) = s \<and>
       state (games s 0) = Finished \<and> unat (0 :: uint256) < unat (nextGameId s) \<and>
       fst (exec toyHash (tx 3 0 99999) (ClaimTimeout 0) s) = s \<and>
       isl (snd (exec toyHash (tx 3 0 99999) (ClaimTimeout 0) s)) \<and>
       games (run toyHash calls s) 0 = games s 0 \<and>
       settlements toyHash 0 calls s = 0 \<and>
       settlements toyHash 0 (committedCalls @ [(tx 3 0 90000, ClaimTimeout 0)] @ calls) (deploy 9) \<le> 1 \<and>
       BD_run toyMoveHash (combatCalls 7 8 @ [(tx 3 0 500, BD_ClaimTimeout 0)]) (BD_deploy 9) = bs \<and>
       BD_state (BD_games bs 0) = BD_Finished \<and> unat (0 :: uint256) < unat (BD_nextGameId bs) \<and>
       fst (BD_exec toyMoveHash (tx 3 0 99999) (BD_ClaimTimeout 0) bs) = bs \<and>
       BD_games (BD_run toyMoveHash bcalls bs) 0 = BD_games bs 0 \<and>
       BD_settlements toyMoveHash 0 bcalls bs = 0 \<and>
       BD_settlements toyMoveHash 0 (combatCalls 7 8 @ [(tx 3 0 500, BD_ClaimTimeout 0)] @ bcalls)
         (BD_deploy 9) \<le> 1)"
proof -
  define s where "s = duelStorage (committedDuel\<lparr>state := Finished\<rparr>)"
  define bs where "bs = combatStorage ((committedCombat 7 8)\<lparr>BD_state := BD_Finished\<rparr>)"
  define calls where "calls = [(tx 3 0 99999, ClaimTimeout 0),
                 (tx 1 0 99999, RevealMoves 0 (Arr3 Fire Water Earth) (Arr3 11 12 13))]"
  define bcalls where
    "bcalls = [(tx 3 0 99999, BD_ClaimTimeout 0), (tx 4 5 99999, BD_JoinGame 0)]"
  have ct: "claimTimeout (tx 3 0 90000) (duelStorage committedDuel) 0 =
      Inr (s, [CallValue 1 5, CallValue 2 5, EmitGameFinished 0 0 0])"
    unfolding s_def
    by (subst claimTimeout_refund) (simp_all add: duel_defs)
  have reach: "run toyHash (committedCalls @ [(tx 3 0 90000, ClaimTimeout 0)]) (deploy 9) = s"
    by (simp add: run_append duel_setup ct settle_def)
  have f: "state (games s 0) = Finished" and n: "unat (0 :: uint256) < unat (nextGameId s)"
    unfolding s_def by (simp_all add: duel_defs)
  have bct: "BD_claimTimeout (tx 3 0 500) (combatStorage (committedCombat 7 8)) 0 =
      Inr (bs, [BD_CallValue 1 5, BD_CallValue 2 5])"
    unfolding bs_def
    by (subst BD_claimTimeout_refund) (simp_all add: combat_defs)
  have cs: "BD_run toyMoveHash (combatCalls 7 8) (BD_deploy 9) = combatStorage (committedCombat 7 8)"
    by (rule combat_setup) simp_all
  have breach: "BD_run toyMoveHash (combatCalls 7 8 @ [(tx 3 0 500, BD_ClaimTimeout 0)])
      (BD_deploy 9) = bs"
    by (simp add: BD_run_append cs bct BD_settle_def)
  have bf: "BD_state (BD_games bs 0) = BD_Finished"
    and bn: "unat (0 :: uint256) < unat (BD_nextGameId bs)"
    unfolding bs_def by (simp_all add: combat_defs)
  have a: "addresses (ClaimTimeout 0) 0" and ba: "BD_addresses (BD_ClaimTimeout 0) 0"
    by simp_all
  note th = finished_is_final [where s = s and gameId = 0 and cl = "ClaimTimeout 0"
      and keccak = toyHash and c = "tx 3 0 99999" and calls = calls and d = 9 and bs = bs
      and bcl = "BD_ClaimTimeout 0" and bkeccak = toyMoveHash and bcalls = bcalls]
  note th' = finished_is_final [where s = s and gameId = 0 and cl = "ClaimTimeout 0"
      and keccak = toyHash and c = "tx 3 0 99999"
      and calls = "committedCalls @ [(tx 3 0 90000, ClaimTimeout 0)] @ calls" and d = 9 and bs = bs
      and bcl = "BD_ClaimTimeout 0" and bkeccak = toyMoveHash
      and bcalls = "combatCalls 7 8 @ [(tx 3 0 500, BD_ClaimTimeout 0)] @ bcalls"]
  note e = th [THEN conjunct1, THEN mp, OF f]
  note e1 = e [THEN conjunct1, THEN mp, OF a]
  note e2 = e [THEN conjunct2, THEN conjunct2, THEN mp, OF n]
  note b = th [THEN conjunct2, THEN conjunct2, THEN conjunct1, THEN mp, OF bf]
  note b1 = b [THEN conjunct1, THEN mp, OF ba]
  note b2 = b [THEN conjunct2, THEN mp, OF bn]
  show ?thesis
    unfolding Let_def s_def [symmetric] bs_def [symmetric] calls_def [symmetric]
      bcalls_def [symmetric]
    by (intro conjI reach f n e1 [THEN conjunct1] e1 [THEN conjunct2] e2 [THEN conjunct1]
        e2 [THEN conjunct2, THEN conjunct2] th' [THEN conjunct2, THEN conjunct1]
        breach bf bn b1 [THEN conjunct1] b2 [THEN conjunct1] b2 [THEN conjunct2]
        th' [THEN conjunct2, THEN conjunct2, THEN conjunct2])
qed



section \<open>Commitments are written once\<close>

lemma commitMoves_filled:
  assumes "if msg_sender c = player1 (games s gid)
           then elem0 (player1Commitments (games s gid)) \<noteq> 0
           else elem0 (player2Commitments (games s gid)) \<noteq> 0"
  shows "isl (commitMoves c s gid hs)"
  using assms by (auto simp: commitMoves_def Let_def split: if_splits)

lemma commitMove_filled:
  assumes "moveCommitments (BD_games s gid) (if msg_sender c = BD_player1 (BD_games s gid) then 0 else 1) \<noteq> 0"
  shows "isl (commitMove c s gid h)"
  using assms by (auto simp: commitMove_def Let_def split: if_splits)

lemma commitMove_Inr:
  assumes "commitMove c s gid h = Inr (s', effs)"
  shows "BD_player1 (BD_games s' gid) = BD_player1 (BD_games s gid)"
    and "moveCommitments (BD_games s' gid) (if msg_sender c = BD_player1 (BD_games s gid) then 0 else 1) = h"
  using assms by (auto simp: commitMove_def Let_def split: if_splits)

lemma isl_settle: "isl r \<Longrightarrow> fst (settle s r) = s"
  by (cases r) (simp_all add: settle_def)

lemma isl_BD_settle: "isl r \<Longrightarrow> fst (BD_settle s r) = s"
  by (cases r) (simp_all add: BD_settle_def)

text \<open>
  C2, as amended. Once a successful commit has stored, for a player, hashes whose first
  entry is not the zero hash (in the combat duel: a single non-zero hash), a second commit
  by the same player is rejected and leaves the storage as it was, and the stored hashes
  stay unchanged: in the elemental duel through every later sequence of transactions, in
  the combat duel as long as the game's round is the same.
\<close>

theorem commitment_write_once:
  "(elem0 moveHashes \<noteq> 0 \<and> commitMoves c s gameId moveHashes = Inr (s1, effs) \<longrightarrow>
      (if msg_sender c = player1 (games s gameId)
       then player1Commitments (games s1 gameId) = moveHashes
       else player2Commitments (games s1 gameId) = moveHashes) \<and>
      (msg_sender c2 = msg_sender c \<longrightarrow>
         isl (commitMoves c2 s1 gameId hs2) \<and>
         fst (exec keccak c2 (CommitMoves gameId hs2) s1) = s1)) \<and>
   (elem0 (player1Commitments (games s gameId)) \<noteq> 0 \<longrightarrow>
      player1Commitments (games (run keccak calls s) gameId) = player1Commitments (games s gameId) \<and>
      (msg_sender c = player1 (games s gameId) \<longrightarrow> isl (commitMoves c s gameId moveHashes))) \<and>
   (elem0 (player2Commitments (games s gameId)) \<noteq> 0 \<longrightarrow>
      player2Commitments (games (run keccak calls s) gameId) = player2Commitments (games s gameId) \<and>
      (msg_sender c \<noteq> player1 (games s gameId) \<longrightarrow> isl (commitMoves c s gameId moveHashes))) \<and>
   (moveHash \<noteq> 0 \<and> commitMove c bs gameId moveHash = Inr (bs1, beffs) \<longrightarrow>
      moveCommitments (BD_games bs1 gameId)
        (if msg_sender c = BD_player1 (BD_games bs gameId) then 0 else 1) = moveHash \<and>
      (msg_sender c2 = msg_sender c \<longrightarrow>
         isl (commitMove c2 bs1 gameId h2) \<and>
         fst (BD_exec bkeccak c2 (CommitMove gameId h2) bs1) = bs1)) \<and>
   (moveCommitments (BD_games bs gameId) i \<noteq> 0 \<longrightarrow>
      (currentRound (BD_games (BD_run bkeccak bcalls bs) gameId) = currentRound (BD_games bs gameId) \<longrightarrow>
         moveCommitments (BD_games (BD_run bkeccak bcalls bs) gameId) i =
           moveCommitments (BD_games bs gameId) i) \<and>
      (i = (if msg_sender c = BD_player1 (BD_games bs gameId) then 0 else 1) \<longrightarrow>
         isl (commitMove c bs gameId moveHash)))"
proof (intro conjI impI; (elim conjE)?)
  assume nz: "elem0 moveHashes \<noteq> 0" and x: "commitMoves c s gameId moveHashes = Inr (s1, effs)"
  note k = commitMoves_Inr [OF x]
  show st: "if msg_sender c = player1 (games s gameId)
       then player1Commitments (games s1 gameId) = moveHashes
       else player2Commitments (games s1 gameId) = moveHashes"
    using k(7) by (auto split: if_splits)
  have p: "player1 (games s1 gameId) = player1 (games s gameId)"
    using k(4) by (simp add: untouched_def)
  {
    assume same: "msg_sender c2 = msg_sender c"
    have "if msg_sender c2 = player1 (games s1 gameId)
           then elem0 (player1Commitments (games s1 gameId)) \<noteq> 0
           else elem0 (player2Commitments (games s1 gameId)) \<noteq> 0"
      using st nz p same by (auto split: if_splits)
    then show r: "isl (commitMoves c2 s1 gameId hs2)"
      by (rule commitMoves_filled)
    then show "fst (exec keccak c2 (CommitMoves gameId hs2) s1) = s1"
      by (simp add: isl_settle)
  }
next
  assume nz: "elem0 (player1Commitments (games s gameId)) \<noteq> 0"
  show "player1Commitments (games (run keccak calls s) gameId) = player1Commitments (games s gameId)"
    by (rule run_commitments_kept(1) [OF nz])
  {
    assume "msg_sender c = player1 (games s gameId)"
    then show "isl (commitMoves c s gameId moveHashes)"
      using nz by (intro commitMoves_filled) simp
  }
next
  assume nz: "elem0 (player2Commitments (games s gameId)) \<noteq> 0"
  show "player2Commitments (games (run keccak calls s) gameId) = player2Commitments (games s gameId)"
    by (rule run_commitments_kept(2) [OF nz])
  {
    assume "msg_sender c \<noteq> player1 (games s gameId)"
    then show "isl (commitMoves c s gameId moveHashes)"
      using nz by (intro commitMoves_filled) simp
  }
next
  assume nz: "moveHash \<noteq> 0" and x: "commitMove c bs gameId moveHash = Inr (bs1, beffs)"
  note k = commitMove_Inr [OF x]
  show "moveCommitments (BD_games bs1 gameId)
        (if msg_sender c = BD_player1 (BD_games bs gameId) then 0 else 1) = moveHash"
    by (rule k(2))
  {
    assume same: "msg_sender c2 = msg_sender c"
    have "moveCommitments (BD_games bs1 gameId)
        (if msg_sender c2 = BD_player1 (BD_games bs1 gameId) then 0 else 1) \<noteq> 0"
      using k nz same by simp
    then show r: "isl (commitMove c2 bs1 gameId h2)"
      by (rule commitMove_filled)
    then show "fst (BD_exec bkeccak c2 (CommitMove gameId h2) bs1) = bs1"
      by (simp add: isl_BD_settle)
  }
next
  assume nz: "moveCommitments (BD_games bs gameId) i \<noteq> 0"
  {
    assume "currentRound (BD_games (BD_run bkeccak bcalls bs) gameId) = currentRound (BD_games bs gameId)"
    then show "moveCommitments (BD_games (BD_run bkeccak bcalls bs) gameId) i =
           moveCommitments (BD_games bs gameId) i"
      using BD_run_round [OF nz, of bkeccak bcalls] by auto
  }
  {
    assume "i = (if msg_sender c = BD_player1 (BD_games bs gameId) then 0 else 1)"
    then show "isl (commitMove c bs gameId moveHash)"
      using nz by (intro commitMove_filled) simp
  }
qed

theorem commitment_write_once_witness:
  "(let hs = Arr3 (toyHash Fire 11) (toyHash Water 12) (toyHash Earth 13);
        s = duelStorage joinedDuel; s1 = duelStorage (joinedDuel\<lparr>player1Commitments := hs\<rparr>);
        bs = combatStorage joinedCombat;
        bs1 = combatStorage (joinedCombat\<lparr>moveCommitments := (\<lambda>_. 0)(0 := 7)\<rparr>)
    in run toyHash [(tx 1 5 10, CreateGame), (tx 2 5 20, JoinGame 0)] (deploy 9) = s \<and>
       elem0 hs \<noteq> 0 \<and>
       commitMoves (tx 1 0 30) s 0 hs = Inr (s1, [EmitMovesCommitted 0 1]) \<and>
       player1Commitments (games s1 0) = hs \<and>
       isl (commitMoves (tx 1 0 35) s1 0 (Arr3 1 2 3)) \<and>
       fst (exec toyHash (tx 1 0 35) (CommitMoves 0 (Arr3 1 2 3)) s1) = s1 \<and>
       player1Commitments (games (run toyHash [(tx 1 0 35, CommitMoves 0 (Arr3 1 2 3))] s1) 0) = hs \<and>
       commitMove (tx 1 0 30) bs 0 7 = Inr (bs1, [EmitMoveCommitted 0 1]) \<and>
       moveCommitments (BD_games bs1 0) 0 = 7 \<and>
       isl (commitMove (tx 1 0 35) bs1 0 9) \<and>
       fst (BD_exec toyMoveHash (tx 1 0 35) (CommitMove 0 9) bs1) = bs1)"
proof -
  define hs where "hs = Arr3 (toyHash Fire 11) (toyHash Water 12) (toyHash Earth 13)"
  define s where "s = duelStorage joinedDuel"
  define s1 where "s1 = duelStorage (joinedDuel\<lparr>player1Commitments := hs\<rparr>)"
  define bs where "bs = combatStorage joinedCombat"
  define bs1 where "bs1 = combatStorage (joinedCombat\<lparr>moveCommitments := (\<lambda>_. 0)(0 := 7)\<rparr>)"
  have reach: "run toyHash [(tx 1 5 10, CreateGame), (tx 2 5 20, JoinGame 0)] (deploy 9) = s"
    unfolding s_def by (simp add: ed_eval duel_defs)
  have nz: "elem0 hs \<noteq> 0" and bnz: "(7 :: bytes32) \<noteq> 0"
    unfolding hs_def by (simp_all add: toyHash_def)
  have x: "commitMoves (tx 1 0 30) s 0 hs = Inr (s1, [EmitMovesCommitted 0 1])"
    unfolding s_def s1_def hs_def by (simp add: commitMoves_def duel_defs Let_def)
  have bx: "commitMove (tx 1 0 30) bs 0 7 = Inr (bs1, [EmitMoveCommitted 0 1])"
    unfolding bs_def bs1_def
    by (simp add: commitMove_def combatStorage_def joinedCombat_def tx_def Let_def)
  have p: "msg_sender (tx 1 0 30) = player1 (games s 0)"
    and bp: "msg_sender (tx 1 0 30) = BD_player1 (BD_games bs 0)"
    and same: "msg_sender (tx 1 0 35) = msg_sender (tx 1 0 30)"
    unfolding s_def bs_def by (simp_all add: duel_defs combatStorage_def joinedCombat_def)
  have nz1: "elem0 (player1Commitments (games s1 0)) \<noteq> 0"
    and c1: "player1Commitments (games s1 0) = hs"
    unfolding s1_def using nz by (simp_all add: duelStorage_def)
  note th = commitment_write_once [where moveHashes = hs and c = "tx 1 0 30" and s = s
      and gameId = 0 and ?s1.0 = s1 and effs = "[EmitMovesCommitted 0 1]" and ?c2.0 = "tx 1 0 35"
      and ?hs2.0 = "Arr3 1 2 3" and keccak = toyHash and moveHash = 7 and bs = bs and ?bs1.0 = bs1
      and beffs = "[EmitMoveCommitted 0 1]" and ?h2.0 = 9 and bkeccak = toyMoveHash]
  note th1 = commitment_write_once [where s = s1 and gameId = 0 and keccak = toyHash
      and calls = "[(tx 1 0 35, CommitMoves 0 (Arr3 1 2 3))]"]
  note e = th [THEN conjunct1, THEN mp, OF conjI [OF nz x]]
  note e2 = e [THEN conjunct2, THEN mp, OF same]
  note k = th1 [THEN conjunct2, THEN conjunct1, THEN mp, OF nz1, THEN conjunct1]
  note b = th [THEN conjunct2, THEN conjunct2, THEN conjunct2, THEN conjunct1, THEN mp,
      OF conjI [OF bnz bx]]
  note b1 = b [THEN conjunct1, unfolded if_P [OF bp]]
  note b2 = b [THEN conjunct2, THEN mp, OF same]
  show ?thesis
    unfolding Let_def hs_def [symmetric] s_def [symmetric] s1_def [symmetric] bs_def [symmetric]
      bs1_def [symmetric]
    by (intro conjI reach nz x c1 e2 [THEN conjunct1] e2 [THEN conjunct2] k [unfolded c1] bx b1
        b2 [THEN conjunct1] b2 [THEN conjunct2])
qed

text \<open>
  The claim as stated also covers a first entry that is the zero hash. The zero hash is
  how both contracts mark an empty slot: after player 1 commits [0, 7, 8] in the elemental
  duel, a second commit [1, 2, 3] by player 1 is accepted and replaces all three entries;
  in the combat duel a commit of the zero hash leaves the slot open for a second commit.
\<close>

theorem commitment_write_once_counterexample:
  "(let s = run toyHash [(tx 1 5 10, CreateGame), (tx 2 5 20, JoinGame 0),
                         (tx 1 0 30, CommitMoves 0 (Arr3 0 7 8))] (deploy 9);
        bs = BD_run toyMoveHash [(tx 1 5 10, BD_CreateGame), (tx 2 5 20, BD_JoinGame 0),
                                 (tx 1 0 30, CommitMove 0 0)] (BD_deploy 9)
    in trace toyHash [(tx 1 5 10, CreateGame), (tx 2 5 20, JoinGame 0),
                      (tx 1 0 30, CommitMoves 0 (Arr3 0 7 8))] (deploy 9) =
         [Inr [EmitGameCreated 0 1 5], Inr [EmitPlayerJoined 0 2], Inr [EmitMovesCommitted 0 1]] \<and>
       player1 (games s 0) = 1 \<and>
       player1Commitments (games s 0) = Arr3 0 7 8 \<and>
       snd (exec toyHash (tx 1 0 35) (CommitMoves 0 (Arr3 1 2 3)) s) = Inr [EmitMovesCommitted 0 1] \<and>
       player1Commitments (games (fst (exec toyHash (tx 1 0 35) (CommitMoves 0 (Arr3 1 2 3)) s)) 0) =
         Arr3 1 2 3 \<and>
       BD_trace toyMoveHash [(tx 1 5 10, BD_CreateGame), (tx 2 5 20, BD_JoinGame 0),
                             (tx 1 0 30, CommitMove 0 0)] (BD_deploy 9) =
         [Inr [BD_EmitGameCreated 0 1 5], Inr [BD_EmitPlayerJoined 0 2], Inr [EmitMoveCommitted 0 1]] \<and>
       moveCommitments (BD_games bs 0) 0 = 0 \<and>
       snd (BD_exec toyMoveHash (tx 1 0 35) (CommitMove 0 7) bs) = Inr [EmitMoveCommitted 0 1] \<and>
       moveCommitments (BD_games (fst (BD_exec toyMoveHash (tx 1 0 35) (CommitMove 0 7) bs)) 0) 0 = 7)"
  by (simp add: ed_eval bd_eval)



section \<open>Games that reach resolution\<close>











end
